(* ===== verification/Prelude.thy ===== *)
theory Prelude
  imports Main "HOL-Library.Word"
begin

text \<open>
  What every component shares. Byte strings are lists of 8-bit words; a Python \<^verbatim>\<open>str\<close> is the list of its
  code points, so that non-ASCII text, lone surrogates and code-unit orders can be told apart. A Python
  exception is a value of type \<open>exn\<close>, and a computation that may raise has type \<open>'a res\<close>, a sum whose
  left part is the exception. The combinators below compose such computations the way Python evaluates
  them: left to right, stopping at the first exception.
\<close>

named_theorems res_simps \<open>simplification rules for computations that may raise\<close>
named_theorems lit_simps \<open>evaluation of string literals, keys and look-ups\<close>

type_synonym byte = "8 word"
type_synonym bytes = "8 word list"
type_synonym ustr = "nat list"

section \<open>Exceptions\<close>

datatype exn =
    TypeError | ValueError | KeyError | IndexError | AttributeError | OverflowError
  | UnicodeError | JSONDecodeError | BinasciiError | AssertionError | OSError | StopIteration | OutOfFuel

type_synonym 'a res = "exn + 'a"

text \<open>The classes an \<^verbatim>\<open>except ValueError\<close> clause catches.\<close>

fun is_value_error :: "exn \<Rightarrow> bool" where
  "is_value_error ValueError = True"
| "is_value_error UnicodeError = True"
| "is_value_error JSONDecodeError = True"
| "is_value_error BinasciiError = True"
| "is_value_error _ = False"

definition bnd :: "'a res \<Rightarrow> ('a \<Rightarrow> 'b res) \<Rightarrow> 'b res" where
  "bnd m f = (case m of Inl e \<Rightarrow> Inl e | Inr x \<Rightarrow> f x)"

lemma bnd_Inr [simp, res_simps]: "bnd (Inr x) f = f x"
  by (simp add: bnd_def)

lemma bnd_Inl [simp, res_simps]: "bnd (Inl e) f = Inl e"
  by (simp add: bnd_def)

lemma bnd_return [simp]: "bnd m Inr = m"
  by (cases m) auto

lemma bnd_assoc: "bnd (bnd m f) g = bnd m (\<lambda>x. bnd (f x) g)"
  by (cases m) auto

lemma bnd_eq_Inr [simp]: "(bnd m f = Inr y) = (\<exists>x. m = Inr x \<and> f x = Inr y)"
  by (cases m) auto

lemma bnd_eq_Inl: "(bnd m f = Inl e) = (m = Inl e \<or> (\<exists>x. m = Inr x \<and> f x = Inl e))"
  by (cases m) auto

lemma bnd_cong [fundef_cong]:
  "m = m' \<Longrightarrow> (\<And>x. m' = Inr x \<Longrightarrow> f x = f' x) \<Longrightarrow> bnd m f = bnd m' f'"
  by (cases m') auto

text \<open>\<^verbatim>\<open>try: m  except Exception: d\<close>.\<close>

definition try_default :: "'a res \<Rightarrow> 'a \<Rightarrow> 'a" where
  "try_default m d = (case m of Inl _ \<Rightarrow> d | Inr x \<Rightarrow> x)"

lemma try_default_simps [simp, res_simps]:
  "try_default (Inl e) d = d" "try_default (Inr x) d = x"
  by (simp_all add: try_default_def)

text \<open>Short-circuiting \<^verbatim>\<open>and\<close> and \<^verbatim>\<open>or\<close>.\<close>

definition and_r :: "bool res \<Rightarrow> bool res \<Rightarrow> bool res" where
  "and_r a b = bnd a (\<lambda>x. if x then b else Inr False)"

definition or_r :: "bool res \<Rightarrow> bool res \<Rightarrow> bool res" where
  "or_r a b = bnd a (\<lambda>x. if x then Inr True else b)"

lemma and_r_simps [simp, res_simps]:
  "and_r (Inr True) b = b" "and_r (Inr False) b = Inr False" "and_r (Inl e) b = Inl e"
  by (simp_all add: and_r_def)

lemma or_r_simps [simp, res_simps]:
  "or_r (Inr True) b = Inr True" "or_r (Inr False) b = b" "or_r (Inl e) b = Inl e"
  by (simp_all add: or_r_def)

text \<open>List comprehensions, \<^verbatim>\<open>all(...)\<close> and \<^verbatim>\<open>any(...)\<close> over computations that may raise.\<close>

fun map_r :: "('a \<Rightarrow> 'b res) \<Rightarrow> 'a list \<Rightarrow> 'b list res" where
  "map_r f [] = Inr []"
| "map_r f (x # xs) = bnd (f x) (\<lambda>y. bnd (map_r f xs) (\<lambda>ys. Inr (y # ys)))"

fun all_r :: "('a \<Rightarrow> bool res) \<Rightarrow> 'a list \<Rightarrow> bool res" where
  "all_r f [] = Inr True"
| "all_r f (x # xs) = bnd (f x) (\<lambda>b. if b then all_r f xs else Inr False)"

fun any_r :: "('a \<Rightarrow> bool res) \<Rightarrow> 'a list \<Rightarrow> bool res" where
  "any_r f [] = Inr False"
| "any_r f (x # xs) = bnd (f x) (\<lambda>b. if b then Inr True else any_r f xs)"

fun filter_r :: "('a \<Rightarrow> bool res) \<Rightarrow> 'a list \<Rightarrow> 'a list res" where
  "filter_r f [] = Inr []"
| "filter_r f (x # xs) = bnd (f x) (\<lambda>b. bnd (filter_r f xs) (\<lambda>ys. Inr (if b then x # ys else ys)))"

fun fold_r :: "('s \<Rightarrow> 'a \<Rightarrow> 's res) \<Rightarrow> 's \<Rightarrow> 'a list \<Rightarrow> 's res" where
  "fold_r f s [] = Inr s"
| "fold_r f s (x # xs) = bnd (f s x) (\<lambda>s'. fold_r f s' xs)"

lemma map_r_cong [fundef_cong]:
  assumes "xs = ys" and "\<And>x. x \<in> set ys \<Longrightarrow> f x = g x"
  shows "map_r f xs = map_r g ys"
  unfolding assms(1) using assms(2) by (induction ys) auto

lemma map_r_Inr [simp]: "map_r (\<lambda>x. Inr (f x)) xs = Inr (map f xs)"
  by (induction xs) auto

lemma map_r_eq_Inr:
  "(map_r f xs = Inr ys) = list_all2 (\<lambda>x y. f x = Inr y) xs ys"
  by (induction xs arbitrary: ys) (auto simp: list_all2_Cons1)

lemma length_map_r: "map_r f xs = Inr ys \<Longrightarrow> length ys = length xs"
  by (simp add: map_r_eq_Inr list_all2_lengthD)

lemma map_r_append:
  "map_r f (xs @ ys) = bnd (map_r f xs) (\<lambda>as. bnd (map_r f ys) (\<lambda>bs. Inr (as @ bs)))"
  by (induction xs) (auto simp: bnd_assoc)

lemma all_r_eq_True: "(all_r f xs = Inr True) = (\<forall>x \<in> set xs. f x = Inr True)"
  by (induction xs) auto

lemma all_r_Inr [simp]: "all_r (\<lambda>x. Inr (P x)) xs = Inr (list_all P xs)"
  by (induction xs) auto

lemma any_r_Inr [simp]: "any_r (\<lambda>x. Inr (P x)) xs = Inr (list_ex P xs)"
  by (induction xs) auto

lemma filter_r_Inr [simp]: "filter_r (\<lambda>x. Inr (P x)) xs = Inr (filter P xs)"
  by (induction xs) auto

lemma map_r_values: "\<forall>x \<in> set xs. f x = Inr (g x) \<Longrightarrow> map_r f xs = Inr (map g xs)"
  by (induction xs) simp_all

lemma map_r_raises: "map_r f xs = Inr ys \<Longrightarrow> x \<in> set xs \<Longrightarrow> \<exists>y. f x = Inr y"
  by (induction xs arbitrary: ys) auto

lemma map_r_elem: "map_r f xs = Inr ys \<Longrightarrow> y \<in> set ys \<Longrightarrow> \<exists>x \<in> set xs. f x = Inr y"
  by (induction xs arbitrary: ys) auto

lemma filter_r_values: "\<forall>x \<in> set xs. f x = Inr (P x) \<Longrightarrow> filter_r f xs = Inr (filter P xs)"
  by (induction xs) simp_all

lemma filter_r_raises: "filter_r f xs = Inr ys \<Longrightarrow> x \<in> set xs \<Longrightarrow> \<exists>b. f x = Inr b"
  by (induction xs arbitrary: ys) auto

section \<open>Literals\<close>

definition U :: "string \<Rightarrow> ustr" where
  "U s = map of_char s"

lemma U_eq_iff [simp, lit_simps]: "(U s = U t) = (s = t)"
proof -
  have "inj (of_char :: char \<Rightarrow> nat)"
    by (simp add: inj_def)
  then show ?thesis
    by (simp add: U_def inj_map_eq_map)
qed

lemma U_Nil [simp, lit_simps]: "U [] = []"
  by (simp add: U_def)

lemma U_Cons: "U (c # s) = of_char c # U s"
  by (simp add: U_def)

lemma U_append: "U (s @ t) = U s @ U t"
  by (simp add: U_def)

lemma U_eq_Nil [simp, lit_simps]: "(U s = []) = (s = [])" "([] = U s) = (s = [])"
  by (auto simp: U_def)

lemma length_U [simp]: "length (U s) = length s"
  by (simp add: U_def)

lemma of_char_less_256: "(of_char c :: nat) < 256"
  by (metis of_char_mod_256 mod_less_divisor zero_less_numeral)

section \<open>Integers and bytes\<close>

text \<open>\<^verbatim>\<open>int.from_bytes(b, "big")\<close> and \<^verbatim>\<open>int.from_bytes(b, "little")\<close>.\<close>

definition int_of_be :: "bytes \<Rightarrow> int" where
  "int_of_be bs = foldl (\<lambda>a b. 256 * a + uint b) 0 bs"

definition int_of_le :: "bytes \<Rightarrow> int" where
  "int_of_le bs = int_of_be (rev bs)"

lemma int_of_be_Nil [simp]: "int_of_be [] = 0"
  by (simp add: int_of_be_def)

lemma int_of_be_snoc [simp]: "int_of_be (bs @ [b]) = 256 * int_of_be bs + uint b"
  by (simp add: int_of_be_def)

lemma uint_byte_bounds: "0 \<le> uint (b :: byte)" "uint (b :: byte) < 256"
  using uint_bounded [of b] by simp_all

lemma int_of_be_bounds: "0 \<le> int_of_be bs \<and> int_of_be bs < 256 ^ length bs"
proof (induction bs rule: rev_induct)
  case (snoc b bs)
  then show ?case using uint_byte_bounds [of b] by auto
qed simp

lemma int_of_be_inj:
  "length xs = length ys \<Longrightarrow> int_of_be xs = int_of_be ys \<Longrightarrow> xs = ys"
proof (induction xs arbitrary: ys rule: rev_induct)
  case (snoc x xs)
  then obtain ys' y where ys: "ys = ys' @ [y]" "length xs = length ys'"
    by (cases ys rule: rev_cases) auto
  have *: "256 * int_of_be xs + uint x = 256 * int_of_be ys' + uint y"
    using snoc.prems ys by simp
  have "(256 * int_of_be xs + uint x) mod 256 = uint x" "(256 * int_of_be ys' + uint y) mod 256 = uint y"
    using uint_byte_bounds [of x] uint_byte_bounds [of y] by simp_all
  with * have u: "uint x = uint y" by simp
  with * have "int_of_be xs = int_of_be ys'" by simp
  moreover have "x = y" using u by (rule word_uint_eqI)
  ultimately show ?case using snoc.IH ys by simp
qed simp

text \<open>
  \<^verbatim>\<open>pow(a, n, m)\<close>: square and multiply over the binary digits of the exponent, the result reduced
  modulo \<open>m\<close>. The loop itself is stated once, over any multiplication, in the locale below.
\<close>

fun sq_mult :: "('a \<Rightarrow> 'a \<Rightarrow> 'a) \<Rightarrow> 'a \<Rightarrow> 'a \<Rightarrow> nat \<Rightarrow> 'a" where
  "sq_mult f acc x n =
     (if n = 0 then acc
      else sq_mult f (if odd n then f acc x else acc) (f x x) (n div 2))"

declare sq_mult.simps [simp del]

lemma sq_mult_0 [simp]: "sq_mult f acc x 0 = acc"
  by (simp add: sq_mult.simps)

lemma sq_mult_closed:
  assumes "\<And>a b. C a \<Longrightarrow> C b \<Longrightarrow> C (f a b)" "C acc" "C x"
  shows "C (sq_mult f acc x n)"
  using assms(2,3)
proof (induction n arbitrary: acc x rule: less_induct)
  case (less n)
  show ?case
    by (subst sq_mult.simps) (use less assms(1) in auto)
qed

locale mult_monoid =
  fixes f :: "'a \<Rightarrow> 'a \<Rightarrow> 'a" and carrier :: "'a \<Rightarrow> bool"
  assumes closed: "carrier x \<Longrightarrow> carrier y \<Longrightarrow> carrier (f x y)"
    and assoc: "carrier x \<Longrightarrow> carrier y \<Longrightarrow> carrier z \<Longrightarrow> f (f x y) z = f x (f y z)"
begin

text \<open>Multiplying \<open>acc\<close> by \<open>x\<close> on the right \<open>n\<close> times.\<close>

lemma funpow_closed: "carrier acc \<Longrightarrow> carrier x \<Longrightarrow> carrier (((\<lambda>a. f a x) ^^ n) acc)"
  by (induction n) (auto intro: closed)

lemma funpow_square:
  assumes "carrier acc" "carrier x"
  shows "((\<lambda>a. f a (f x x)) ^^ n) acc = ((\<lambda>a. f a x) ^^ (2 * n)) acc"
  using assms by (induction n) (simp_all add: assoc funpow_closed)

lemma sq_mult_power:
  assumes "carrier acc" "carrier x"
  shows "sq_mult f acc x n = ((\<lambda>a. f a x) ^^ n) acc"
  using assms
proof (induction n arbitrary: acc x rule: less_induct)
  case (less n)
  show ?case
  proof (cases "n = 0")
    case False
    let ?acc = "if odd n then f acc x else acc"
    have c: "carrier ?acc" "carrier (f x x)" using less.prems by (auto intro: closed)
    have "sq_mult f acc x n = ((\<lambda>a. f a (f x x)) ^^ (n div 2)) ?acc"
      using False less.IH c by (simp add: sq_mult.simps [of f acc x n])
    also have "\<dots> = ((\<lambda>a. f a x) ^^ (2 * (n div 2))) ?acc"
      using c less.prems by (simp add: funpow_square)
    also have "\<dots> = ((\<lambda>a. f a x) ^^ n) acc"
    proof (cases "odd n")
      case True
      then have "n = Suc (2 * (n div 2))" by presburger
      then have "((\<lambda>a. f a x) ^^ n) acc = ((\<lambda>a. f a x) ^^ (2 * (n div 2))) (f acc x)"
        by (metis funpow_Suc_right o_apply)
      then show ?thesis using True by simp
    qed simp
    finally show ?thesis .
  qed simp
qed

end

definition mulmod :: "int \<Rightarrow> int \<Rightarrow> int \<Rightarrow> int" where
  "mulmod m a b = (a * b) mod m"

definition powmod :: "int \<Rightarrow> nat \<Rightarrow> int \<Rightarrow> int" where
  "powmod a n m = sq_mult (mulmod m) (1 mod m) (a mod m) n"

interpretation mulmod: mult_monoid "mulmod m" "\<lambda>_. True" for m
  by unfold_locales (auto simp: mulmod_def mod_mult_left_eq mod_mult_right_eq mult.assoc)

lemma funpow_mulmod: "((\<lambda>a. mulmod m a (x mod m)) ^^ n) (1 mod m) = x ^ n mod m"
  by (induction n) (auto simp: mulmod_def mod_mult_left_eq mod_mult_right_eq mult.commute)

theorem powmod_eq: "powmod a n m = a ^ n mod m"
  by (simp add: powmod_def mulmod.sq_mult_power funpow_mulmod)

end
