(* ===== verification/Sha2.thy ===== *)
theory Sha2
  imports Prelude
begin

text \<open>
  The hash functions of Python's \<^verbatim>\<open>hashlib\<close> that the checkers call: SHA-256 and SHA-512 as
  FIPS 180-4 states them, on 32-bit and 64-bit words. A message is a list of bytes, a digest a list
  of 32 (64) bytes. Everything here computes, so a digest can be evaluated by the kernel.
\<close>

unbundle bit_operations_syntax

section \<open>Big-endian words\<close>

definition be_word :: "bytes \<Rightarrow> ('a::len) word" where
  "be_word bs = foldl (\<lambda>w b. push_bit 8 w + ucast b) 0 bs"

fun be_bytes :: "nat \<Rightarrow> ('a::len) word \<Rightarrow> bytes" where
  "be_bytes 0 w = []"
| "be_bytes (Suc n) w = be_bytes n (drop_bit 8 w) @ [ucast w]"

fun chunks :: "nat \<Rightarrow> nat \<Rightarrow> 'a list \<Rightarrow> 'a list list" where
  "chunks 0 n xs = []"
| "chunks (Suc k) n xs = take n xs # chunks k n (drop n xs)"

section \<open>SHA-256\<close>

definition rotr32 :: "nat \<Rightarrow> 32 word \<Rightarrow> 32 word" where
  "rotr32 n x = drop_bit n x OR push_bit (32 - n) x"

definition sha256_K :: "32 word list" where
  "sha256_K =
    [1116352408, 1899447441, 3049323471, 3921009573, 961987163, 1508970993, 2453635748, 2870763221,
     3624381080, 310598401, 607225278, 1426881987, 1925078388, 2162078206, 2614888103, 3248222580, 3835390401,
     4022224774, 264347078, 604807628, 770255983, 1249150122, 1555081692, 1996064986, 2554220882, 2821834349,
     2952996808, 3210313671, 3336571891, 3584528711, 113926993, 338241895, 666307205, 773529912, 1294757372,
     1396182291, 1695183700, 1986661051, 2177026350, 2456956037, 2730485921, 2820302411, 3259730800,
     3345764771, 3516065817, 3600352804, 4094571909, 275423344, 430227734, 506948616, 659060556, 883997877,
     958139571, 1322822218, 1537002063, 1747873779, 1955562222, 2024104815, 2227730452, 2361852424,
     2428436474, 2756734187, 3204031479, 3329325298]"

definition sha256_H0 :: "32 word list" where
  "sha256_H0 =
    [1779033703, 3144134277, 1013904242, 2773480762, 1359893119, 2600822924, 528734635, 1541459225]"

text \<open>The message schedule, kept newest word first: w_t from w_(t-2), w_(t-7), w_(t-15), w_(t-16).\<close>

definition sched256_step :: "32 word list \<Rightarrow> 32 word list" where
  "sched256_step ws =
     (let w2 = ws ! 1; w7 = ws ! 6; w15 = ws ! 14; w16 = ws ! 15;
          s0 = rotr32 7 w15 XOR rotr32 18 w15 XOR drop_bit 3 w15;
          s1 = rotr32 17 w2 XOR rotr32 19 w2 XOR drop_bit 10 w2
      in (w16 + s0 + w7 + s1) # ws)"

definition sched256 :: "32 word list \<Rightarrow> 32 word list" where
  "sched256 ws = rev ((sched256_step ^^ 48) (rev ws))"

fun round256 :: "32 word list \<Rightarrow> 32 word \<times> 32 word \<Rightarrow> 32 word list" where
  "round256 [a, b, c, d, e, f, g, h] (k, w) =
     (let S1 = rotr32 6 e XOR rotr32 11 e XOR rotr32 25 e;
          ch = (e AND f) XOR (NOT e AND g);
          t1 = h + S1 + ch + k + w;
          S0 = rotr32 2 a XOR rotr32 13 a XOR rotr32 22 a;
          mj = (a AND b) XOR (a AND c) XOR (b AND c);
          t2 = S0 + mj
      in [t1 + t2, a, b, c, d + t1, e, f, g])"
| "round256 st kw = st"

definition compress256 :: "32 word list \<Rightarrow> bytes \<Rightarrow> 32 word list" where
  "compress256 st blk =
     map2 (+) st (foldl round256 st (zip sha256_K (sched256 (map be_word (chunks 16 4 blk)))))"

definition pad256 :: "bytes \<Rightarrow> bytes" where
  "pad256 m =
     m @ [0x80] @ replicate ((55 + 63 * length m) mod 64) 0 @
     be_bytes 8 (of_nat (8 * length m) :: 64 word)"

definition sha256 :: "bytes \<Rightarrow> bytes" where
  "sha256 m =
     (let p = pad256 m
      in concat (map (be_bytes 4) (foldl compress256 sha256_H0 (chunks (length p div 64) 64 p))))"

section \<open>SHA-512\<close>

definition rotr64 :: "nat \<Rightarrow> 64 word \<Rightarrow> 64 word" where
  "rotr64 n x = drop_bit n x OR push_bit (64 - n) x"

definition sha512_K :: "64 word list" where
  "sha512_K =
    [4794697086780616226, 8158064640168781261, 13096744586834688815, 16840607885511220156,
     4131703408338449720, 6480981068601479193, 10538285296894168987, 12329834152419229976,
     15566598209576043074, 1334009975649890238, 2608012711638119052, 6128411473006802146, 8268148722764581231,
     9286055187155687089, 11230858885718282805, 13951009754708518548, 16472876342353939154,
     17275323862435702243, 1135362057144423861, 2597628984639134821, 3308224258029322869, 5365058923640841347,
     6679025012923562964, 8573033837759648693, 10970295158949994411, 12119686244451234320,
     12683024718118986047, 13788192230050041572, 14330467153632333762, 15395433587784984357,
     489312712824947311, 1452737877330783856, 2861767655752347644, 3322285676063803686, 5560940570517711597,
     5996557281743188959, 7280758554555802590, 8532644243296465576, 9350256976987008742, 10552545826968843579,
     11727347734174303076, 12113106623233404929, 14000437183269869457, 14369950271660146224,
     15101387698204529176, 15463397548674623760, 17586052441742319658, 1182934255886127544,
     1847814050463011016, 2177327727835720531, 2830643537854262169, 3796741975233480872, 4115178125766777443,
     5681478168544905931, 6601373596472566643, 7507060721942968483, 8399075790359081724, 8693463985226723168,
     9568029438360202098, 10144078919501101548, 10430055236837252648, 11840083180663258601,
     13761210420658862357, 14299343276471374635, 14566680578165727644, 15097957966210449927,
     16922976911328602910, 17689382322260857208, 500013540394364858, 748580250866718886, 1242879168328830382,
     1977374033974150939, 2944078676154940804, 3659926193048069267, 4368137639120453308, 4836135668995329356,
     5532061633213252278, 6448918945643986474, 6902733635092675308, 7801388544844847127]"

definition sha512_H0 :: "64 word list" where
  "sha512_H0 =
    [7640891576956012808, 13503953896175478587, 4354685564936845355, 11912009170470909681,
     5840696475078001361, 11170449401992604703, 2270897969802886507, 6620516959819538809]"

definition sched512_step :: "64 word list \<Rightarrow> 64 word list" where
  "sched512_step ws =
     (let w2 = ws ! 1; w7 = ws ! 6; w15 = ws ! 14; w16 = ws ! 15;
          s0 = rotr64 1 w15 XOR rotr64 8 w15 XOR drop_bit 7 w15;
          s1 = rotr64 19 w2 XOR rotr64 61 w2 XOR drop_bit 6 w2
      in (w16 + s0 + w7 + s1) # ws)"

definition sched512 :: "64 word list \<Rightarrow> 64 word list" where
  "sched512 ws = rev ((sched512_step ^^ 64) (rev ws))"

fun round512 :: "64 word list \<Rightarrow> 64 word \<times> 64 word \<Rightarrow> 64 word list" where
  "round512 [a, b, c, d, e, f, g, h] (k, w) =
     (let S1 = rotr64 14 e XOR rotr64 18 e XOR rotr64 41 e;
          ch = (e AND f) XOR (NOT e AND g);
          t1 = h + S1 + ch + k + w;
          S0 = rotr64 28 a XOR rotr64 34 a XOR rotr64 39 a;
          mj = (a AND b) XOR (a AND c) XOR (b AND c);
          t2 = S0 + mj
      in [t1 + t2, a, b, c, d + t1, e, f, g])"
| "round512 st kw = st"

definition compress512 :: "64 word list \<Rightarrow> bytes \<Rightarrow> 64 word list" where
  "compress512 st blk =
     map2 (+) st (foldl round512 st (zip sha512_K (sched512 (map be_word (chunks 16 8 blk)))))"

definition pad512 :: "bytes \<Rightarrow> bytes" where
  "pad512 m =
     m @ [0x80] @ replicate ((111 + 127 * length m) mod 128) 0 @
     be_bytes 16 (of_nat (8 * length m) :: 128 word)"

definition sha512 :: "bytes \<Rightarrow> bytes" where
  "sha512 m =
     (let p = pad512 m
      in concat (map (be_bytes 8) (foldl compress512 sha512_H0 (chunks (length p div 128) 128 p))))"

section \<open>Digest lengths\<close>

lemma length_be_bytes [simp]: "length (be_bytes n w) = n"
  by (induction n arbitrary: w) auto

lemma length_chunks [simp]: "length (chunks k n xs) = k"
  by (induction k arbitrary: xs) auto

lemma length_round256 [simp]: "length (round256 st kw) = length st"
  by (cases "(st, kw)" rule: round256.cases) (auto simp: Let_def)

lemma length_round512 [simp]: "length (round512 st kw) = length st"
  by (cases "(st, kw)" rule: round512.cases) (auto simp: Let_def)

lemma length_foldl_round:
  "(\<And>s x. length (f s x) = length s) \<Longrightarrow> length (foldl f st xs) = length st"
  by (induction xs arbitrary: st) auto

lemma length_compress256 [simp]: "length (compress256 st blk) = length st"
  by (simp add: compress256_def length_foldl_round)

lemma length_compress512 [simp]: "length (compress512 st blk) = length st"
  by (simp add: compress512_def length_foldl_round)

lemma length_concat_be_bytes [simp]: "length (concat (map (be_bytes n) ws)) = n * length ws"
  by (induction ws) auto

lemma length_sha256 [simp]: "length (sha256 m) = 32"
  by (simp add: sha256_def Let_def length_foldl_round sha256_H0_def)

lemma length_sha512 [simp]: "length (sha512 m) = 64"
  by (simp add: sha512_def Let_def length_foldl_round sha512_H0_def)

text \<open>Padding fills whole blocks, so no byte of the message is left out of the digest.\<close>

lemma length_pad256: "64 dvd length (pad256 m)"
proof -
  have "(length m + (9 + (55 + 63 * length m) mod 64)) mod 64 = (length m + (9 + (55 + 63 * length m))) mod 64"
    by (metis mod_add_right_eq)
  also have "\<dots> = 0" by presburger
  finally show ?thesis by (simp add: pad256_def add.assoc dvd_eq_mod_eq_0 add.commute)
qed

end
