(* ===== verification/PyText.thy ===== *)
theory PyText
  imports Prelude
begin

text \<open>
  Python's text and byte-string operations that the checkers use: decimal and hexadecimal notation, the
  UTF-8 and UTF-16 codecs, \<^verbatim>\<open>bytes.fromhex\<close>, \<^verbatim>\<open>base64.urlsafe_b64decode\<close>. What depends on the Unicode
  character database of the interpreter (lower-casing, white space, printable characters, decimal digits
  beyond ASCII) is read from the record \<open>ucd\<close>, a parameter of the definitions that need it.
\<close>

section \<open>The Unicode character database\<close>

record ucd =
  u_lower :: "ustr \<Rightarrow> ustr"
  u_space :: "nat \<Rightarrow> bool"
  u_printable :: "nat \<Rightarrow> bool"
  u_digit :: "nat \<Rightarrow> nat option"

definition ascii_lower :: "ustr \<Rightarrow> ustr" where
  "ascii_lower s = map (\<lambda>c. if 65 \<le> c \<and> c \<le> 90 then c + 32 else c) s"

definition ascii_space :: "nat \<Rightarrow> bool" where
  "ascii_space c \<longleftrightarrow> c = 32 \<or> (9 \<le> c \<and> c \<le> 13) \<or> (28 \<le> c \<and> c \<le> 31)"

definition ascii_digit :: "nat \<Rightarrow> nat option" where
  "ascii_digit c = (if 48 \<le> c \<and> c \<le> 57 then Some (c - 48) else None)"

text \<open>
  What Python documents of every version of the database: on ASCII text it is the ASCII tables, and
  a decimal digit has a value below ten.
\<close>

definition ucd_ascii :: "ucd \<Rightarrow> bool" where
  "ucd_ascii u \<longleftrightarrow>
     (\<forall>s. (\<forall>c \<in> set s. c < 128) \<longrightarrow> u_lower u s = ascii_lower s) \<and>
     (\<forall>c < 128. u_space u c = ascii_space c) \<and>
     (\<forall>c < 128. u_printable u c = (32 \<le> c \<and> c \<noteq> 127)) \<and>
     (\<forall>c < 128. u_digit u c = ascii_digit c) \<and>
     (\<forall>c d. u_digit u c = Some d \<longrightarrow> d < 10)"

text \<open>A concrete database, used by the witnesses: ASCII plus the Arabic-Indic digits.\<close>

definition sample_ucd :: ucd where
  "sample_ucd = \<lparr> u_lower = ascii_lower, u_space = ascii_space, u_printable = (\<lambda>c. 32 \<le> c \<and> c \<noteq> 127),
     u_digit = (\<lambda>c. if 1632 \<le> c \<and> c \<le> 1641 then Some (c - 1632) else ascii_digit c) \<rparr>"

lemma sample_ucd_ascii: "ucd_ascii sample_ucd"
  by (auto simp: ucd_ascii_def sample_ucd_def ascii_digit_def)

section \<open>Decimal notation\<close>

fun nat_dec :: "nat \<Rightarrow> ustr" where
  "nat_dec n = (if n < 10 then [48 + n] else nat_dec (n div 10) @ [48 + n mod 10])"

declare nat_dec.simps [simp del]

definition int_dec :: "int \<Rightarrow> ustr" where
  "int_dec i = (if i < 0 then 45 # nat_dec (nat (- i)) else nat_dec (nat i))"

definition is_digit :: "nat \<Rightarrow> bool" where
  "is_digit c \<longleftrightarrow> 48 \<le> c \<and> c \<le> 57"

definition dec_nat :: "ustr \<Rightarrow> nat" where
  "dec_nat s = foldl (\<lambda>a c. 10 * a + (c - 48)) 0 s"

lemma dec_nat_snoc: "dec_nat (s @ [c]) = 10 * dec_nat s + (c - 48)"
  by (simp add: dec_nat_def)

lemma dec_nat_nat_dec [simp]: "dec_nat (nat_dec n) = n"
proof (induction n rule: nat_dec.induct)
  case (1 n)
  then show ?case
    by (cases "n < 10") (auto simp: nat_dec.simps [of n] dec_nat_snoc dec_nat_def)
qed

lemma nat_dec_digits: "\<forall>c \<in> set (nat_dec n). is_digit c"
proof (induction n rule: nat_dec.induct)
  case (1 n)
  then show ?case
    by (cases "n < 10") (auto simp: nat_dec.simps [of n] is_digit_def)
qed

lemma nat_dec_nonempty [simp]: "nat_dec n \<noteq> []"
  by (subst nat_dec.simps) simp

lemma nat_dec_no_leading_zero: "0 < n \<Longrightarrow> hd (nat_dec n) \<noteq> 48"
proof (induction n rule: nat_dec.induct)
  case (1 n)
  then show ?case
    by (cases "n < 10") (auto simp: nat_dec.simps [of n])
qed

lemma nat_dec_0 [simp]: "nat_dec 0 = [48]"
  by (simp add: nat_dec.simps)

lemma nat_dec_inj: "nat_dec m = nat_dec n \<Longrightarrow> m = n"
  by (metis dec_nat_nat_dec)

lemma int_dec_inj: "int_dec i = int_dec j \<Longrightarrow> i = j"
proof -
  have hd_digit: "is_digit (hd (nat_dec n))" for n
    using nat_dec_digits [of n] by (simp add: hd_in_set)
  have no_minus: "nat_dec n \<noteq> 45 # s" for n s
    using hd_digit [of n] by (auto simp: is_digit_def)
  assume "int_dec i = int_dec j"
  then show ?thesis
    using no_minus by (auto simp: int_dec_def no_minus [symmetric] dest: nat_dec_inj split: if_splits)
qed

section \<open>Hexadecimal notation\<close>

definition hex_digit :: "nat \<Rightarrow> nat" where
  "hex_digit n = (if n < 10 then 48 + n else 87 + n)"

definition hex_value :: "nat \<Rightarrow> nat option" where
  "hex_value c =
     (if 48 \<le> c \<and> c \<le> 57 then Some (c - 48)
      else if 97 \<le> c \<and> c \<le> 102 then Some (c - 87)
      else if 65 \<le> c \<and> c \<le> 70 then Some (c - 55) else None)"

lemma hex_value_digit [simp]: "n < 16 \<Longrightarrow> hex_value (hex_digit n) = Some n"
  by (auto simp: hex_value_def hex_digit_def)

text \<open>\<^verbatim>\<open>bytes.hex()\<close>, which is also \<^verbatim>\<open>hexdigest()\<close> of a digest.\<close>

definition byte_hex :: "byte \<Rightarrow> ustr" where
  "byte_hex b = [hex_digit (unat b div 16), hex_digit (unat b mod 16)]"

definition hex_of :: "bytes \<Rightarrow> ustr" where
  "hex_of bs = concat (map byte_hex bs)"

text \<open>\<^verbatim>\<open>bytes.fromhex(s)\<close>: pairs of hexadecimal digits in either case, ASCII white space between pairs skipped.\<close>

definition hex_space :: "nat \<Rightarrow> bool" where
  "hex_space c \<longleftrightarrow> c = 32 \<or> (9 \<le> c \<and> c \<le> 13)"

fun fromhex :: "ustr \<Rightarrow> bytes res" where
  "fromhex [] = Inr []"
| "fromhex [c] = (if hex_space c then Inr [] else Inl ValueError)"
| "fromhex (c # d # s) =
     (if hex_space c then fromhex (d # s)
      else case (hex_value c, hex_value d) of
        (Some x, Some y) \<Rightarrow> bnd (fromhex s) (\<lambda>bs. Inr (of_nat (16 * x + y) # bs))
      | _ \<Rightarrow> Inl ValueError)"

lemma not_space_hex_digit [simp]: "n < 16 \<Longrightarrow> \<not> hex_space (hex_digit n)"
  by (auto simp: hex_space_def hex_digit_def)

lemma unat_byte_less: "unat (b :: byte) < 256"
  using unsigned_less [of b] by simp

lemma fromhex_hex_of [simp]: "fromhex (hex_of bs) = Inr bs"
proof (induction bs)
  case (Cons b bs)
  have 1: "unat b div 16 < 16" "unat b mod 16 < 16"
    using unat_byte_less [of b] by auto
  have 2: "(of_nat (16 * (unat b div 16) + unat b mod 16) :: byte) = b"
    by (simp only: mult_div_mod_eq) simp
  show ?case
    using 1 2 Cons by (simp add: hex_of_def byte_hex_def del: of_nat_add of_nat_mult)
qed (simp add: hex_of_def)

lemma hex_of_inj [simp]: "(hex_of xs = hex_of ys) = (xs = ys)"
  by (metis fromhex_hex_of sum.inject(2))

lemma length_hex_of [simp]: "length (hex_of bs) = 2 * length bs"
  by (induction bs) (auto simp: hex_of_def byte_hex_def)

text \<open>\<^verbatim>\<open>re.match(r"^[0-9a-f]{64}\Z", s)\<close>.\<close>

definition is_lower_hex :: "nat \<Rightarrow> bool" where
  "is_lower_hex c \<longleftrightarrow> (48 \<le> c \<and> c \<le> 57) \<or> (97 \<le> c \<and> c \<le> 102)"

definition is_hex64 :: "ustr \<Rightarrow> bool" where
  "is_hex64 s \<longleftrightarrow> length s = 64 \<and> list_all is_lower_hex s"

lemma lower_hex_digit [simp]: "n < 16 \<Longrightarrow> is_lower_hex (hex_digit n)"
  by (auto simp: is_lower_hex_def hex_digit_def)

lemma hex_of_lower: "list_all is_lower_hex (hex_of bs)"
proof (induction bs)
  case (Cons b bs)
  have "unat b div 16 < 16" "unat b mod 16 < 16"
    using unat_byte_less [of b] by auto
  with Cons show ?case by (simp add: hex_of_def byte_hex_def)
qed (simp add: hex_of_def)

text \<open>Lower-casing changes neither what a hexadecimal text denotes nor a digest in lower case.\<close>

lemma fromhex_ascii: "fromhex s = Inr b \<Longrightarrow> \<forall>c \<in> set s. c < 128"
  by (induction s arbitrary: b rule: fromhex.induct)
    (auto simp: hex_space_def hex_value_def split: if_splits option.splits)

lemma hex_value_lower: "hex_value (if 65 \<le> c \<and> c \<le> 90 then c + 32 else c) = hex_value c"
  by (auto simp: hex_value_def)

lemma hex_space_lower: "hex_space (if 65 \<le> c \<and> c \<le> 90 then c + 32 else c) = hex_space c"
  by (auto simp: hex_space_def)

lemma fromhex_lower: "fromhex (ascii_lower s) = fromhex s"
  by (induction s rule: fromhex.induct)
    (simp_all only: ascii_lower_def list.map fromhex.simps hex_value_lower hex_space_lower, auto split: option.splits)

lemma fromhex_digest:
  assumes "ucd_ascii u" "fromhex s = Inr b" "u_lower u s = hex_of d"
  shows "b = d"
proof -
  have "u_lower u s = ascii_lower s" using assms(1) fromhex_ascii [OF assms(2)] by (simp add: ucd_ascii_def)
  then have "fromhex s = fromhex (hex_of d)" using fromhex_lower [of s] assms(3) by simp
  then show ?thesis using assms(2) by simp
qed

lemma ucd_lower_hex:
  assumes "ucd_ascii u"
  shows "u_lower u (hex_of b) = hex_of b"
proof -
  have h: "list_all is_lower_hex (hex_of b)" by (rule hex_of_lower)
  then have "\<forall>c \<in> set (hex_of b). c < 128" by (auto simp: list_all_iff is_lower_hex_def)
  then have "u_lower u (hex_of b) = ascii_lower (hex_of b)"
    using assms by (simp add: ucd_ascii_def)
  also have "\<dots> = hex_of b"
    using h unfolding ascii_lower_def by (intro map_idI) (auto simp: list_all_iff is_lower_hex_def)
  finally show ?thesis .
qed

section \<open>UTF-8 and UTF-16\<close>

definition is_surrogate :: "nat \<Rightarrow> bool" where
  "is_surrogate c \<longleftrightarrow> 0xD800 \<le> c \<and> c \<le> 0xDFFF"

text \<open>A \<^verbatim>\<open>str\<close> that \<^verbatim>\<open>encode\<close> accepts: every element a Unicode scalar value.\<close>

definition is_scalar :: "nat \<Rightarrow> bool" where
  "is_scalar c \<longleftrightarrow> c < 0x110000 \<and> \<not> is_surrogate c"

definition scalar_str :: "ustr \<Rightarrow> bool" where
  "scalar_str s \<longleftrightarrow> list_all is_scalar s"

definition utf8_char :: "nat \<Rightarrow> bytes" where
  "utf8_char c = map of_nat
     (if c < 0x80 then [c]
      else if c < 0x800 then [0xC0 + c div 64, 0x80 + c mod 64]
      else if c < 0x10000 then [0xE0 + c div 4096, 0x80 + c div 64 mod 64, 0x80 + c mod 64]
      else [0xF0 + c div 262144, 0x80 + c div 4096 mod 64, 0x80 + c div 64 mod 64, 0x80 + c mod 64])"

definition utf8_total :: "ustr \<Rightarrow> bytes" where
  "utf8_total s = concat (map utf8_char s)"

definition utf8 :: "ustr \<Rightarrow> bytes res" where
  "utf8 s = (if scalar_str s then Inr (utf8_total s) else Inl UnicodeError)"

definition cont :: "byte \<Rightarrow> bool" where
  "cont b \<longleftrightarrow> 0x80 \<le> unat b \<and> unat b < 0xC0"

text \<open>
  One character off the front of a byte string: its code point and the bytes behind it. With \<open>sp\<close> set, encoded
  surrogates are let through, as the error handler \<^verbatim>\<open>surrogatepass\<close> does.
\<close>

fun utf8_step :: "bool \<Rightarrow> bytes \<Rightarrow> (nat \<times> bytes) option" where
  "utf8_step sp [] = None"
| "utf8_step sp (a # r) =
     (let x = unat a in
      if x < 0x80 then Some (x, r)
      else if 0xC2 \<le> x \<and> x < 0xE0 then
        (case r of b # r' \<Rightarrow> if cont b then Some ((x - 0xC0) * 64 + (unat b - 0x80), r') else None | _ \<Rightarrow> None)
      else if 0xE0 \<le> x \<and> x < 0xF0 then
        (case r of b # c # r' \<Rightarrow>
           let v = (x - 0xE0) * 4096 + (unat b - 0x80) * 64 + (unat c - 0x80)
           in if cont b \<and> cont c \<and> 0x800 \<le> v \<and> (sp \<or> \<not> is_surrogate v) then Some (v, r') else None
         | _ \<Rightarrow> None)
      else if 0xF0 \<le> x \<and> x < 0xF5 then
        (case r of b # c # d # r' \<Rightarrow>
           let v = (x - 0xF0) * 262144 + (unat b - 0x80) * 4096 + (unat c - 0x80) * 64 + (unat d - 0x80)
           in if cont b \<and> cont c \<and> cont d \<and> 0x10000 \<le> v \<and> v < 0x110000 then Some (v, r') else None
         | _ \<Rightarrow> None)
      else None)"

lemma utf8_step_shorter: "utf8_step sp bs = Some (c, r) \<Longrightarrow> length r < length bs"
  by (cases bs) (auto simp: Let_def split: if_splits list.splits)

function utf8_decode :: "bool \<Rightarrow> bytes \<Rightarrow> ustr res" where
  "utf8_decode sp bs =
     (if bs = [] then Inr []
      else case utf8_step sp bs of
        None \<Rightarrow> Inl UnicodeError
      | Some (c, r) \<Rightarrow> bnd (utf8_decode sp r) (\<lambda>s. Inr (c # s)))"
  by pat_completeness auto
termination
  by (relation "measure (\<lambda>(sp, bs). length bs)") (auto dest: utf8_step_shorter)

declare utf8_decode.simps [simp del]

lemma unat_of_nat_byte: "n < 256 \<Longrightarrow> unat (of_nat n :: byte) = n"
  by (simp add: unat_of_nat)

lemma cont_of_nat [simp]: "cont (of_nat (0x80 + n mod 64))"
proof -
  have "0x80 + n mod 64 < 256" using mod_less_divisor [of 64 n] by linarith
  then show ?thesis
    using mod_less_divisor [of 64 n] by (simp only: cont_def unat_of_nat_byte) linarith
qed

lemma unat_cont [simp]: "unat (of_nat (0x80 + n mod 64) :: byte) = 0x80 + n mod 64"
  using mod_less_divisor [of 64 n] by (intro unat_of_nat_byte) linarith

lemma base64_3: "(c div 4096) * 4096 + (c div 64 mod 64) * 64 + c mod 64 = (c :: nat)"
proof -
  have "(c div 64 div 64) * 64 + c div 64 mod 64 = c div 64" by simp
  moreover have "c div 64 div 64 = c div 4096" by (simp add: div_mult2_eq [symmetric])
  moreover have "(c div 64) * 64 + c mod 64 = c" by simp
  ultimately show ?thesis by linarith
qed

lemma base64_4:
  "(c div 262144) * 262144 + (c div 4096 mod 64) * 4096 + (c div 64 mod 64) * 64 + c mod 64 = (c :: nat)"
proof -
  have "(c div 4096 div 64) * 64 + c div 4096 mod 64 = c div 4096" by simp
  moreover have "c div 4096 div 64 = c div 262144" by (simp add: div_mult2_eq [symmetric])
  ultimately show ?thesis using base64_3 [of c] by linarith
qed

lemma utf8_step_char: "is_scalar c \<Longrightarrow> utf8_step sp (utf8_char c @ r) = Some (c, r)"
proof -
  assume c: "is_scalar c"
  then have lim: "c < 0x110000" and sur: "\<not> is_surrogate c" by (simp_all add: is_scalar_def)
  consider "c < 0x80" | "0x80 \<le> c" "c < 0x800" | "0x800 \<le> c" "c < 0x10000" | "0x10000 \<le> c"
    by linarith
  then show ?thesis
  proof cases
    case 1
    then show ?thesis by (simp add: utf8_char_def unat_of_nat_byte)
  next
    case 2
    then have "c div 64 < 32" "2 \<le> c div 64" by auto
    then have "unat (of_nat (0xC0 + c div 64) :: byte) = 0xC0 + c div 64" by (intro unat_of_nat_byte) simp
    with 2 \<open>c div 64 < 32\<close> \<open>2 \<le> c div 64\<close> show ?thesis
      by (simp add: utf8_char_def Let_def del: of_nat_add)
  next
    case 3
    then have "c div 4096 < 16" by auto
    then have "unat (of_nat (0xE0 + c div 4096) :: byte) = 0xE0 + c div 4096" by (intro unat_of_nat_byte) simp
    with 3 \<open>c div 4096 < 16\<close> sur show ?thesis
      by (simp add: utf8_char_def Let_def base64_3 del: of_nat_add)
  next
    case 4
    then have "c div 262144 < 5" using lim by auto
    then have "unat (of_nat (0xF0 + c div 262144) :: byte) = 0xF0 + c div 262144" by (intro unat_of_nat_byte) simp
    with 4 \<open>c div 262144 < 5\<close> lim show ?thesis
      by (simp add: utf8_char_def Let_def base64_4 del: of_nat_add)
  qed
qed

lemma utf8_char_nonempty [simp]: "utf8_char c \<noteq> []"
  by (simp add: utf8_char_def)

lemma utf8_decode_total: "scalar_str s \<Longrightarrow> utf8_decode sp (utf8_total s) = Inr s"
proof (induction s)
  case Nil
  show ?case by (simp add: utf8_total_def utf8_decode.simps)
next
  case (Cons c s)
  then have "utf8_step sp (utf8_total (c # s)) = Some (c, utf8_total s)"
    by (simp add: utf8_total_def scalar_str_def utf8_step_char)
  then show ?case
    using Cons by (subst utf8_decode.simps) (simp add: utf8_total_def scalar_str_def)
qed

theorem utf8_roundtrip: "utf8 s = Inr bs \<Longrightarrow> utf8_decode sp bs = Inr s"
  by (auto simp: utf8_def utf8_decode_total split: if_splits)

lemma utf8_inj: "utf8 s = Inr bs \<Longrightarrow> utf8 t = Inr bs \<Longrightarrow> s = t"
  by (metis utf8_roundtrip [of s bs False] utf8_roundtrip [of t bs False] sum.inject(2))

text \<open>\<^verbatim>\<open>s.encode("utf-16-be")\<close>: the code units of a string, as the bytes of the big-endian encoding.\<close>

definition utf16_units :: "nat \<Rightarrow> nat list" where
  "utf16_units c =
     (if c < 0x10000 then [c]
      else [0xD800 + (c - 0x10000) div 1024, 0xDC00 + (c - 0x10000) mod 1024])"

definition utf16_be_total :: "ustr \<Rightarrow> bytes" where
  "utf16_be_total s = concat (map (\<lambda>v. [of_nat (v div 256), of_nat (v mod 256)]) (concat (map utf16_units s)))"

definition utf16_be :: "ustr \<Rightarrow> bytes res" where
  "utf16_be s = (if scalar_str s then Inr (utf16_be_total s) else Inl UnicodeError)"

text \<open>UTF-16 and UTF-32 decoding with \<^verbatim>\<open>surrogatepass\<close>, from code units.\<close>

fun utf16_join :: "nat list \<Rightarrow> ustr" where
  "utf16_join [] = []"
| "utf16_join [v] = [v]"
| "utf16_join (v # w # vs) =
     (if 0xD800 \<le> v \<and> v \<le> 0xDBFF \<and> 0xDC00 \<le> w \<and> w \<le> 0xDFFF
      then (0x10000 + (v - 0xD800) * 1024 + (w - 0xDC00)) # utf16_join vs
      else v # utf16_join (w # vs))"

fun units16 :: "bool \<Rightarrow> bytes \<Rightarrow> nat list res" where
  "units16 le [] = Inr []"
| "units16 le [a] = Inl UnicodeError"
| "units16 le (a # b # r) =
     bnd (units16 le r) (\<lambda>us. Inr ((if le then unat a + 256 * unat b else 256 * unat a + unat b) # us))"

fun utf32_decode :: "bool \<Rightarrow> bytes \<Rightarrow> ustr res" where
  "utf32_decode le [] = Inr []"
| "utf32_decode le (a # b # c # d # r) =
     (let v = (if le then unat a + 256 * unat b + 65536 * unat c + 16777216 * unat d
               else 16777216 * unat a + 65536 * unat b + 256 * unat c + unat d)
      in if 0x10FFFF < v then Inl UnicodeError else bnd (utf32_decode le r) (\<lambda>s. Inr (v # s)))"
| "utf32_decode le _ = Inl UnicodeError"

definition utf16_decode :: "bool \<Rightarrow> bytes \<Rightarrow> ustr res" where
  "utf16_decode le bs = bnd (units16 le bs) (\<lambda>us. Inr (utf16_join us))"

text \<open>\<^verbatim>\<open>s.encode("ascii")\<close>.\<close>

definition ascii_encode :: "ustr \<Rightarrow> bytes res" where
  "ascii_encode s = (if list_all (\<lambda>c. c < 128) s then Inr (map of_nat s) else Inl UnicodeError)"

section \<open>Base64\<close>

definition b64_value :: "nat \<Rightarrow> nat option" where
  "b64_value c =
     (if 65 \<le> c \<and> c \<le> 90 then Some (c - 65)
      else if 97 \<le> c \<and> c \<le> 122 then Some (c - 71)
      else if 48 \<le> c \<and> c \<le> 57 then Some (c + 4)
      else if c = 43 then Some 62 else if c = 47 then Some 63 else None)"

text \<open>
  \<^verbatim>\<open>binascii.a2b_base64\<close> in its lax mode, as CPython runs it: characters outside the alphabet are skipped,
  padding ends the input once it completes a group of four, and a group left open at the end is an error.
  The state is the position in the group, the bits carried over and the number of padding characters seen.
\<close>

fun a2b_base64 :: "nat \<Rightarrow> nat \<Rightarrow> nat \<Rightarrow> ustr \<Rightarrow> bytes res" where
  "a2b_base64 q left pads [] = (if q = 0 then Inr [] else Inl BinasciiError)"
| "a2b_base64 q left pads (c # s) =
     (if c = 61 then
        (if 2 \<le> q \<and> 4 \<le> q + pads + 1 then Inr []
         else a2b_base64 q left (if 2 \<le> q then pads + 1 else pads) s)
      else case b64_value c of
        None \<Rightarrow> a2b_base64 q left pads s
      | Some v \<Rightarrow>
          if q = 0 then a2b_base64 1 v 0 s
          else if q = 1 then bnd (a2b_base64 2 (v mod 16) 0 s) (\<lambda>bs. Inr (of_nat (left * 4 + v div 16) # bs))
          else if q = 2 then bnd (a2b_base64 3 (v mod 4) 0 s) (\<lambda>bs. Inr (of_nat (left * 16 + v div 4) # bs))
          else bnd (a2b_base64 0 0 0 s) (\<lambda>bs. Inr (of_nat (left * 64 + v) # bs)))"

definition urlsafe_b64decode :: "ustr \<Rightarrow> bytes res" where
  "urlsafe_b64decode s =
     (if list_all (\<lambda>c. c < 128) s
      then a2b_base64 0 0 0 (map (\<lambda>c. if c = 45 then 43 else if c = 95 then 47 else c) s)
      else Inl ValueError)"

text \<open>The encoding of a string has a zero byte only where the string has a NUL.\<close>

lemma utf8_char_nul:
  assumes "c < 0x110000" "c \<noteq> 0"
  shows "0 \<notin> set (utf8_char c)"
proof -
  have z: "(0 :: byte) \<noteq> of_nat n" if "0 < n" "n < 256" for n
    using that by (metis less_numeral_extra(3) unat_0 unat_of_nat_byte)
  have m: "128 + n mod 64 < (256 :: nat)" for n
    using mod_less_divisor [of 64 n] by linarith
  have d: "c < 0x800 \<Longrightarrow> 192 + c div 64 < 256" "c < 0x10000 \<Longrightarrow> 224 + c div 4096 < 256" "240 + c div 262144 < 256"
    using assms(1) by auto
  show ?thesis
  proof (cases "c < 0x80")
    case True
    then show ?thesis using assms(2) z [of c] by (simp add: utf8_char_def)
  next
    case False
    then show ?thesis
      using d z m unfolding utf8_char_def by (simp del: of_nat_add)
  qed
qed

lemma utf8_total_nul: "scalar_str s \<Longrightarrow> 0 \<notin> set s \<Longrightarrow> 0 \<notin> set (utf8_total s)"
  unfolding utf8_total_def scalar_str_def list_all_iff is_scalar_def
  using utf8_char_nul by (auto simp del: of_nat_add)

section \<open>Strings\<close>

definition startswith :: "ustr \<Rightarrow> ustr \<Rightarrow> bool" where
  "startswith s p \<longleftrightarrow> take (length p) s = p"

definition strip :: "ucd \<Rightarrow> ustr \<Rightarrow> ustr" where
  "strip u s = rev (dropWhile (u_space u) (rev (dropWhile (u_space u) s)))"

fun join :: "ustr \<Rightarrow> ustr list \<Rightarrow> ustr" where
  "join sep [] = []"
| "join sep [x] = x"
| "join sep (x # y # zs) = x @ sep @ join sep (y # zs)"

text \<open>
  \<^verbatim>\<open>int(s)\<close> on a string: optional white space and sign, then decimal digits of any script, with single
  underscores allowed between digits.
\<close>

fun int_digits :: "ucd \<Rightarrow> nat \<Rightarrow> bool \<Rightarrow> ustr \<Rightarrow> nat option" where
  "int_digits u acc prev [] = (if prev then Some acc else None)"
| "int_digits u acc prev (c # s) =
     (if c = 95 then (if prev then int_digits u acc False s else None)
      else case u_digit u c of
        None \<Rightarrow> None
      | Some d \<Rightarrow> int_digits u (10 * acc + d) True s)"

definition int_of_str :: "ucd \<Rightarrow> ustr \<Rightarrow> int res" where
  "int_of_str u s =
     (let t = strip u s;
          neg = (t \<noteq> [] \<and> hd t = 45);
          ds = (if t \<noteq> [] \<and> (hd t = 45 \<or> hd t = 43) then tl t else t)
      in case int_digits u 0 False ds of
           None \<Rightarrow> Inl ValueError
         | Some n \<Rightarrow> if 4300 < length (filter (\<lambda>c. c \<noteq> 95) ds) then Inl ValueError
                     else Inr (if neg then - int n else int n))"

section \<open>Digit patterns\<close>

text \<open>
  A regular expression of \<^verbatim>\<open>\d\<close> groups between literal characters, matched against a whole string: in the pattern \<^verbatim>\<open>#\<close> stands
  for \<^verbatim>\<open>\d\<close>, which for a \<^verbatim>\<open>str\<close> is any Unicode decimal digit, and \<open>num_at\<close> is \<^verbatim>\<open>int\<close> of the group at a position.
\<close>

definition match_pat :: "ucd \<Rightarrow> string \<Rightarrow> ustr \<Rightarrow> bool" where
  "match_pat u p s \<longleftrightarrow> list_all2 (\<lambda>c x. if c = CHR ''#'' then u_digit u x \<noteq> None else x = of_char c) p s"

definition num_at :: "ucd \<Rightarrow> ustr \<Rightarrow> nat \<Rightarrow> nat \<Rightarrow> nat" where
  "num_at u s i n = foldl (\<lambda>a c. 10 * a + (case u_digit u c of Some d \<Rightarrow> d | None \<Rightarrow> 0)) 0 (take n (drop i s))"

section \<open>Replacement\<close>

text \<open>\<^verbatim>\<open>s.replace(old, new)\<close> for a non-empty \<open>old\<close>: occurrences are found left to right and do not overlap.\<close>

function replace_all :: "ustr \<Rightarrow> ustr \<Rightarrow> ustr \<Rightarrow> ustr" where
  "replace_all old new s =
     (if old = [] \<or> s = [] then s
      else if startswith s old then new @ replace_all old new (drop (length old) s)
      else hd s # replace_all old new (tl s))"
  by pat_completeness auto
termination
  by (relation "measure (\<lambda>(old, new, s). length s)") auto

declare replace_all.simps [simp del]

end
