(* ===== verification/PyVal.thy ===== *)
theory PyVal
  imports PyText "HOL-Library.List_Lexorder"
begin

text \<open>
  Python values as \<^verbatim>\<open>json.loads\<close> makes them, and the operations the checkers apply to them without knowing
  their type: equality, ordering, truth, \<^verbatim>\<open>.get\<close>, subscripts, \<^verbatim>\<open>in\<close>, \<^verbatim>\<open>str\<close>, \<^verbatim>\<open>int\<close>. A dictionary is the list of its items in
  insertion order with distinct keys. A \<^verbatim>\<open>float\<close> is an IEEE 754 double: a sign, a mantissa and a binary exponent.
\<close>

section \<open>Doubles\<close>

datatype pyfloat = FNan | FInf bool | FFin bool nat int

fun bit_len :: "nat \<Rightarrow> nat" where
  "bit_len n = (if n = 0 then 0 else Suc (bit_len (n div 2)))"

declare bit_len.simps [simp del]

definition round_even :: "nat \<Rightarrow> nat \<Rightarrow> nat" where
  "round_even n d =
     (let q = n div d; r = n mod d
      in if 2 * r < d then q else if d < 2 * r then q + 1 else if even q then q else q + 1)"

text \<open>\<open>n / (d * 2^e)\<close> as a pair of naturals.\<close>

definition scale2 :: "nat \<Rightarrow> nat \<Rightarrow> int \<Rightarrow> nat \<times> nat" where
  "scale2 n d e = (if 0 \<le> e then (n, d * 2 ^ nat e) else (n * 2 ^ nat (- e), d))"

text \<open>The double nearest to \<open>n / d\<close>, ties to even, with gradual underflow and overflow to infinity.\<close>

definition float_of_ratio :: "bool \<Rightarrow> nat \<Rightarrow> nat \<Rightarrow> pyfloat" where
  "float_of_ratio s n d =
     (if n = 0 then FFin s 0 (- 1074)
      else
        let e0 = int (bit_len n) - int (bit_len d) - 53;
            (a, b) = scale2 n d e0;
            e1 = (if b * 2 ^ 53 \<le> a then e0 + 1 else if a < b * 2 ^ 52 then e0 - 1 else e0);
            e = max e1 (- 1074);
            (a', b') = scale2 n d e;
            m = round_even a' b';
            (m', e') = (if m = 2 ^ 53 then (2 ^ 52, e + 1) else (m, e))
        in if 971 < e' then FInf s else FFin s m' e')"

definition float_of_int :: "int \<Rightarrow> pyfloat res" where
  "float_of_int i =
     (case float_of_ratio (i < 0) (nat \<bar>i\<bar>) 1 of
        FInf _ \<Rightarrow> Inl OverflowError
      | f \<Rightarrow> Inr (if i = 0 then FFin False 0 (- 1074) else f))"

text \<open>A decimal numeral \<open>m * 10^q\<close>, as \<^verbatim>\<open>float(text)\<close> reads it.\<close>

definition float_of_decimal :: "bool \<Rightarrow> nat \<Rightarrow> int \<Rightarrow> pyfloat" where
  "float_of_decimal s m q =
     (if 0 \<le> q then float_of_ratio s (m * 10 ^ nat q) 1 else float_of_ratio s m (10 ^ nat (- q)))"

text \<open>A finite double as the fraction \<open>num / den\<close> of integers.\<close>

definition float_ratio :: "bool \<Rightarrow> nat \<Rightarrow> int \<Rightarrow> int \<times> int" where
  "float_ratio s m e =
     (let n = (if s then - int m else int m)
      in if 0 \<le> e then (n * 2 ^ nat e, 1) else (n, 2 ^ nat (- e)))"

subsection \<open>\<^verbatim>\<open>repr\<close>: the shortest digits that read back as the same double\<close>

text \<open>The position of the decimal point: the least \<open>k\<close> with \<open>n / d < 10^k\<close>, searched with enough steps for a double.\<close>

fun dec_up :: "nat \<Rightarrow> nat \<Rightarrow> nat \<Rightarrow> int \<Rightarrow> int" where
  "dec_up 0 n d k = k"
| "dec_up (Suc fuel) n d k = (if n < d then k else dec_up fuel n (d * 10) (k + 1))"

fun dec_down :: "nat \<Rightarrow> nat \<Rightarrow> nat \<Rightarrow> int \<Rightarrow> int" where
  "dec_down 0 n d k = k"
| "dec_down (Suc fuel) n d k = (if d \<le> n * 10 then k else dec_down fuel (n * 10) d (k - 1))"

definition dec_point :: "nat \<Rightarrow> nat \<Rightarrow> int" where
  "dec_point n d = (if d \<le> n then dec_up 400 n d 0 else dec_down 400 n d 0)"

definition digits_of :: "nat \<Rightarrow> nat \<Rightarrow> int \<Rightarrow> nat \<Rightarrow> nat \<times> int" where
  "digits_of n d k len =
     (let q = k - int len
      in (if 0 \<le> q then round_even n (d * 10 ^ nat q) else round_even (n * 10 ^ nat (- q)) d, q))"

fun shortest :: "nat \<Rightarrow> pyfloat \<Rightarrow> nat \<Rightarrow> nat \<Rightarrow> int \<Rightarrow> nat \<Rightarrow> nat \<times> int" where
  "shortest 0 x n d k len = digits_of n d k len"
| "shortest (Suc fuel) x n d k len =
     (let (D, q) = digits_of n d k len
      in if float_of_decimal False D q = x then (D, q) else shortest fuel x n d k (len + 1))"

fun rstrip0 :: "ustr \<Rightarrow> ustr" where
  "rstrip0 s = rev (dropWhile (\<lambda>c. c = 48) (rev s))"

text \<open>The digits of a positive finite double and the position of its decimal point.\<close>

definition float_digits :: "nat \<Rightarrow> int \<Rightarrow> ustr \<times> int" where
  "float_digits m e =
     (let (n, d) = (if 0 \<le> e then (m * 2 ^ nat e, 1) else (m, 2 ^ nat (- e)));
          (D, q) = shortest 16 (FFin False m e) n d (dec_point n d) 1;
          ds = nat_dec D
      in (rstrip0 ds, int (length ds) + q))"

definition zeros :: "int \<Rightarrow> ustr" where
  "zeros n = replicate (nat n) 48"

definition float_repr :: "pyfloat \<Rightarrow> ustr" where
  "float_repr f =
     (case f of
        FNan \<Rightarrow> U ''nan''
      | FInf s \<Rightarrow> (if s then U ''-inf'' else U ''inf'')
      | FFin s m e \<Rightarrow>
          (if s then U ''-'' else []) @
          (if m = 0 then U ''0.0''
           else
             let (ds, p) = float_digits m e; k = int (length ds)
             in if p \<le> - 4 \<or> 16 < p then
                  (let x = p - 1; es = nat_dec (nat \<bar>x\<bar>)
                   in hd ds # (if k = 1 then [] else 46 # tl ds) @ U ''e'' @
                      (if x < 0 then U ''-'' else U ''+'') @ (if length es < 2 then 48 # es else es))
                else if p \<le> 0 then U ''0.'' @ zeros (- p) @ ds
                else if k \<le> p then ds @ zeros (p - k) @ U ''.0''
                else take (nat p) ds @ [46] @ drop (nat p) ds))"

section \<open>Values\<close>

datatype py =
    PyNone
  | PyBool bool
  | PyInt int
  | PyFloat pyfloat
  | PyStr ustr
  | PyList "py list"
  | PyDict "(ustr \<times> py) list"

type_synonym pydict = "(ustr \<times> py) list"

abbreviation S :: "string \<Rightarrow> py" where
  "S s \<equiv> PyStr (U s)"

subsection \<open>Numbers\<close>

fun as_int :: "py \<Rightarrow> int option" where
  "as_int (PyBool b) = Some (of_bool b)"
| "as_int (PyInt i) = Some i"
| "as_int _ = None"

fun as_ratio :: "py \<Rightarrow> (int \<times> int) option" where
  "as_ratio (PyBool b) = Some (of_bool b, 1)"
| "as_ratio (PyInt i) = Some (i, 1)"
| "as_ratio (PyFloat (FFin s m e)) = Some (float_ratio s m e)"
| "as_ratio _ = None"

fun is_num :: "py \<Rightarrow> bool" where
  "is_num (PyBool _) = True"
| "is_num (PyInt _) = True"
| "is_num (PyFloat _) = True"
| "is_num _ = False"

text \<open>Comparison of two numbers: \<open>None\<close> when one of them is not a number in the IEEE sense.\<close>

definition num_rank :: "py \<Rightarrow> int" where
  "num_rank v = (case v of PyFloat (FInf s) \<Rightarrow> (if s then - 1 else 1) | _ \<Rightarrow> 0)"

definition num_cmp :: "py \<Rightarrow> py \<Rightarrow> int option" where
  "num_cmp v w =
     (if v = PyFloat FNan \<or> w = PyFloat FNan then None
      else case (as_ratio v, as_ratio w) of
        (Some (a, b), Some (c, d)) \<Rightarrow> Some (sgn (a * d - c * b))
      | _ \<Rightarrow> Some (sgn (num_rank v - num_rank w)))"

subsection \<open>Equality\<close>

function py_eq :: "py \<Rightarrow> py \<Rightarrow> bool" and py_list_eq :: "py list \<Rightarrow> py list \<Rightarrow> bool"
  and py_items_eq :: "pydict \<Rightarrow> pydict \<Rightarrow> bool" where
  "py_eq v w =
     (if is_num v \<and> is_num w then num_cmp v w = Some 0
      else case (v, w) of
        (PyNone, PyNone) \<Rightarrow> True
      | (PyStr s, PyStr t) \<Rightarrow> s = t
      | (PyList xs, PyList ys) \<Rightarrow> py_list_eq xs ys
      | (PyDict xs, PyDict ys) \<Rightarrow> length xs = length ys \<and> py_items_eq xs ys
      | _ \<Rightarrow> False)"
| "py_list_eq [] ys = (ys = [])"
| "py_list_eq (x # xs) ys = (case ys of [] \<Rightarrow> False | y # ys' \<Rightarrow> py_eq x y \<and> py_list_eq xs ys')"
| "py_items_eq [] d = True"
| "py_items_eq (kv # xs) d =
     ((case map_of d (fst kv) of None \<Rightarrow> False | Some w \<Rightarrow> py_eq (snd kv) w) \<and> py_items_eq xs d)"
  by pat_completeness auto
termination
  by (relation "measure (case_sum (\<lambda>(v, w). size v) (case_sum (\<lambda>(xs, ys). size_list size xs)
        (\<lambda>(xs, d). size_list (\<lambda>kv. Suc (size (snd kv))) xs)))")
     (auto simp: size_list_conv_sum_list size_prod_simp comp_def case_prod_unfold)

declare py_eq.simps [simp del]

lemma py_eq_Str [simp, lit_simps]: "py_eq (PyStr s) (PyStr t) = (s = t)"
  by (simp add: py_eq.simps)

lemma py_eq_Str_left: "py_eq (PyStr s) w = (w = PyStr s)"
  by (cases w) (auto simp: py_eq.simps)

lemma py_eq_Str_right: "py_eq w (PyStr s) = (w = PyStr s)"
  by (cases w) (auto simp: py_eq.simps)

lemma py_eq_None [simp, lit_simps]: "py_eq PyNone w = (w = PyNone)" "py_eq w PyNone = (w = PyNone)"
  by (cases w; simp add: py_eq.simps)+

lemma sgn_0_iff: "sgn (x :: int) = 0 \<longleftrightarrow> x = 0"
  by (rule sgn_eq_0_iff)

lemma py_eq_Int [simp, lit_simps]: "py_eq (PyInt i) (PyInt j) = (i = j)"
  by (simp add: py_eq.simps num_cmp_def sgn_0_iff)

text \<open>\<^verbatim>\<open>v in (a, b, ...)\<close> for a tuple or a list.\<close>

definition py_in :: "py \<Rightarrow> py list \<Rightarrow> bool" where
  "py_in v vs \<longleftrightarrow> list_ex (py_eq v) vs"

lemma py_in_Str [simp, lit_simps]:
  "py_in (PyStr s) [] = False"
  "py_in (PyStr s) (w # ws) = (w = PyStr s \<or> py_in (PyStr s) ws)"
  by (auto simp: py_in_def py_eq_Str_left)

subsection \<open>Order\<close>

text \<open>\<^verbatim>\<open>v < w\<close> and \<^verbatim>\<open>v >= w\<close>: numbers by value, strings by code point, lists item by item, anything else raises.\<close>

function py_lt :: "py \<Rightarrow> py \<Rightarrow> bool res" and py_list_lt :: "py list \<Rightarrow> py list \<Rightarrow> bool res" where
  "py_lt v w =
     (if is_num v \<and> is_num w then Inr (num_cmp v w = Some (- 1))
      else case (v, w) of
        (PyStr s, PyStr t) \<Rightarrow> Inr (s < t)
      | (PyList xs, PyList ys) \<Rightarrow> py_list_lt xs ys
      | _ \<Rightarrow> Inl TypeError)"
| "py_list_lt [] ys = Inr (ys \<noteq> [])"
| "py_list_lt (x # xs) ys =
     (case ys of [] \<Rightarrow> Inr False | y # ys' \<Rightarrow> if py_eq x y then py_list_lt xs ys' else py_lt x y)"
  by pat_completeness auto
termination
  by (relation "measure (case_sum (\<lambda>(v, w). size v) (\<lambda>(xs, ys). size_list size xs))") auto

function py_ge :: "py \<Rightarrow> py \<Rightarrow> bool res" and py_list_ge :: "py list \<Rightarrow> py list \<Rightarrow> bool res" where
  "py_ge v w =
     (if is_num v \<and> is_num w then Inr (num_cmp v w \<in> {Some 0, Some 1})
      else case (v, w) of
        (PyStr s, PyStr t) \<Rightarrow> Inr (t \<le> s)
      | (PyList xs, PyList ys) \<Rightarrow> py_list_ge xs ys
      | _ \<Rightarrow> Inl TypeError)"
| "py_list_ge [] ys = Inr (ys = [])"
| "py_list_ge (x # xs) ys =
     (case ys of [] \<Rightarrow> Inr True | y # ys' \<Rightarrow> if py_eq x y then py_list_ge xs ys' else py_ge x y)"
  by pat_completeness auto
termination
  by (relation "measure (case_sum (\<lambda>(v, w). size v) (\<lambda>(xs, ys). size_list size xs))") auto

declare py_lt.simps [simp del] py_ge.simps [simp del]

lemma py_lt_simps [simp, lit_simps]:
  "py_lt (PyStr s) (PyStr t) = Inr (s < t)"
  "py_lt (PyInt i) (PyInt j) = Inr (i < j)"
  by (auto simp: py_lt.simps num_cmp_def sgn_if)

lemma py_ge_simps [simp, lit_simps]:
  "py_ge (PyStr s) (PyStr t) = Inr (t \<le> s)"
  "py_ge (PyInt i) (PyInt j) = Inr (j \<le> i)"
  by (auto simp: py_ge.simps num_cmp_def sgn_if)

subsection \<open>Truth\<close>

fun truthy :: "py \<Rightarrow> bool" where
  "truthy PyNone = False"
| "truthy (PyBool b) = b"
| "truthy (PyInt i) = (i \<noteq> 0)"
| "truthy (PyFloat f) = (case f of FFin _ m _ \<Rightarrow> m \<noteq> 0 | _ \<Rightarrow> True)"
| "truthy (PyStr s) = (s \<noteq> [])"
| "truthy (PyList xs) = (xs \<noteq> [])"
| "truthy (PyDict xs) = (xs \<noteq> [])"

text \<open>\<^verbatim>\<open>v or w\<close> on values.\<close>

definition py_or :: "py \<Rightarrow> py \<Rightarrow> py" where
  "py_or v w = (if truthy v then v else w)"

subsection \<open>Type tests\<close>

fun is_str :: "py \<Rightarrow> bool" where
  "is_str (PyStr _) = True"
| "is_str _ = False"

fun is_list :: "py \<Rightarrow> bool" where
  "is_list (PyList _) = True"
| "is_list _ = False"

fun is_dict :: "py \<Rightarrow> bool" where
  "is_dict (PyDict _) = True"
| "is_dict _ = False"

fun is_bool :: "py \<Rightarrow> bool" where
  "is_bool (PyBool _) = True"
| "is_bool _ = False"

text \<open>A method of \<^verbatim>\<open>str\<close>, or a function that wants one, applied to a value; \<open>e\<close> is what another type raises.\<close>

definition as_str :: "exn \<Rightarrow> py \<Rightarrow> ustr res" where
  "as_str e v = (case v of PyStr s \<Rightarrow> Inr s | _ \<Rightarrow> Inl e)"

lemma as_str_Str [simp, lit_simps]: "as_str e (PyStr s) = Inr s"
  by (simp add: as_str_def)

lemma as_str_eq_Inr [simp]: "(as_str e v = Inr s) = (v = PyStr s)"
  by (cases v) (auto simp: as_str_def)

text \<open>\<^verbatim>\<open>type(v) is int\<close>, which a \<^verbatim>\<open>bool\<close> is not, and \<^verbatim>\<open>isinstance(v, int)\<close>, which a \<^verbatim>\<open>bool\<close> is.\<close>

fun type_is_int :: "py \<Rightarrow> bool" where
  "type_is_int (PyInt _) = True"
| "type_is_int _ = False"

fun is_int :: "py \<Rightarrow> bool" where
  "is_int (PyInt _) = True"
| "is_int (PyBool _) = True"
| "is_int _ = False"

text \<open>\<^verbatim>\<open>type(v) is type(w)\<close>.\<close>

fun type_tag :: "py \<Rightarrow> nat" where
  "type_tag PyNone = 0"
| "type_tag (PyBool _) = 1"
| "type_tag (PyInt _) = 2"
| "type_tag (PyFloat _) = 3"
| "type_tag (PyStr _) = 4"
| "type_tag (PyList _) = 5"
| "type_tag (PyDict _) = 6"

subsection \<open>Access\<close>

text \<open>\<^verbatim>\<open>d.get(k)\<close> and \<^verbatim>\<open>d.get(k, default)\<close> with a literal key; anything but a dictionary has no such attribute.\<close>

definition dget :: "pydict \<Rightarrow> string \<Rightarrow> py" where
  "dget d k = (case map_of d (U k) of None \<Rightarrow> PyNone | Some v \<Rightarrow> v)"

definition dget_default :: "pydict \<Rightarrow> string \<Rightarrow> py \<Rightarrow> py" where
  "dget_default d k w = (case map_of d (U k) of None \<Rightarrow> w | Some v \<Rightarrow> v)"

fun py_get_default :: "py \<Rightarrow> string \<Rightarrow> py \<Rightarrow> py res" where
  "py_get_default (PyDict d) k w = Inr (dget_default d k w)"
| "py_get_default _ k w = Inl AttributeError"

definition py_get :: "py \<Rightarrow> string \<Rightarrow> py res" where
  "py_get v k = py_get_default v k PyNone"

text \<open>\<^verbatim>\<open>v[k]\<close> with a literal string key.\<close>

fun py_item :: "py \<Rightarrow> string \<Rightarrow> py res" where
  "py_item (PyDict d) k = (case map_of d (U k) of None \<Rightarrow> Inl KeyError | Some v \<Rightarrow> Inr v)"
| "py_item _ k = Inl TypeError"

lemma py_get_Dict [simp, lit_simps]: "py_get (PyDict d) k = Inr (dget d k)"
  by (simp add: py_get_def dget_default_def dget_def)

definition has_key :: "pydict \<Rightarrow> string \<Rightarrow> bool" where
  "has_key d k \<longleftrightarrow> map_of d (U k) \<noteq> None"

lemma dget_simps [lit_simps]:
  "dget [] k = PyNone"
  "dget ((U k', v) # d) k = (if k' = k then v else dget d k)"
  by (auto simp: dget_def)

lemma has_key_simps [lit_simps]:
  "has_key [] k = False"
  "has_key ((U k', v) # d) k = (k' = k \<or> has_key d k)"
  by (auto simp: has_key_def)

lemma dget_default_simps [lit_simps]:
  "dget_default [] k w = w"
  "dget_default ((U k', v) # d) k w = (if k' = k then v else dget_default d k w)"
  by (auto simp: dget_default_def)

text \<open>
  A look-up keyed by a value: a list or a dictionary cannot be hashed, and a value that is not a string is
  never equal to a key.
\<close>

fun hashable :: "py \<Rightarrow> bool" where
  "hashable (PyList _) = False"
| "hashable (PyDict _) = False"
| "hashable _ = True"

definition dget_key :: "pydict \<Rightarrow> py \<Rightarrow> py res" where
  "dget_key d k =
     (case k of
        PyStr s \<Rightarrow> Inr (case map_of d s of None \<Rightarrow> PyNone | Some v \<Rightarrow> v)
      | _ \<Rightarrow> if hashable k then Inr PyNone else Inl TypeError)"

text \<open>\<^verbatim>\<open>d[k] = v\<close>: a new key goes to the end, an old one keeps its place.\<close>

fun dset :: "pydict \<Rightarrow> ustr \<Rightarrow> py \<Rightarrow> pydict" where
  "dset [] k v = [(k, v)]"
| "dset ((k', v') # d) k v = (if k' = k then (k, v) # d else (k', v') # dset d k v)"

lemma map_of_dset [simp]: "map_of (dset d k v) = (map_of d)(k \<mapsto> v)"
  by (induction d k v rule: dset.induct) auto

lemma set_fst_dset: "set (map fst (dset d k v)) = insert k (set (map fst d))"
  by (induction d k v rule: dset.induct) auto

lemma distinct_dset: "distinct (map fst d) \<Longrightarrow> distinct (map fst (dset d k v))"
proof (induction d k v rule: dset.induct)
  case (2 k' v' d k v)
  then show ?case using set_fst_dset [of d k v] by auto
qed simp

text \<open>Dictionaries all the way down have distinct keys.\<close>

fun py_wf :: "py \<Rightarrow> bool" where
  "py_wf (PyList xs) = list_all py_wf xs"
| "py_wf (PyDict d) = (distinct (map fst d) \<and> list_all (\<lambda>kv. py_wf (snd kv)) d)"
| "py_wf _ = True"

subsection \<open>Containers\<close>

text \<open>\<^verbatim>\<open>x in c\<close> for a container value: a list by equality, a string by substring, a dictionary by key.\<close>

definition substr :: "ustr \<Rightarrow> ustr \<Rightarrow> bool" where
  "substr s t \<longleftrightarrow> list_ex (\<lambda>i. take (length s) (drop i t) = s) [0..<Suc (length t)]"

definition py_contains :: "py \<Rightarrow> py \<Rightarrow> bool res" where
  "py_contains c x =
     (case c of
        PyList vs \<Rightarrow> Inr (py_in x vs)
      | PyStr t \<Rightarrow> (case x of PyStr s \<Rightarrow> Inr (substr s t) | _ \<Rightarrow> Inl TypeError)
      | PyDict d \<Rightarrow> (if hashable x then Inr (case x of PyStr s \<Rightarrow> map_of d s \<noteq> None | _ \<Rightarrow> False) else Inl TypeError)
      | _ \<Rightarrow> Inl TypeError)"

text \<open>\<^verbatim>\<open>v[:n]\<close> succeeds on strings and lists only.\<close>

definition py_sliceable :: "py \<Rightarrow> unit res" where
  "py_sliceable v = (if is_str v \<or> is_list v then Inr () else Inl TypeError)"

subsection \<open>\<^verbatim>\<open>repr\<close>, \<^verbatim>\<open>str\<close> and \<^verbatim>\<open>int\<close>\<close>

definition hex_pad :: "nat \<Rightarrow> nat \<Rightarrow> ustr" where
  "hex_pad width n = map (\<lambda>i. hex_digit (n div 16 ^ (width - 1 - i) mod 16)) [0..<width]"

definition repr_char :: "ucd \<Rightarrow> nat \<Rightarrow> nat \<Rightarrow> ustr" where
  "repr_char u q c =
     (if c = q \<or> c = 92 then [92, c]
      else if c = 9 then [92, 116] else if c = 10 then [92, 110] else if c = 13 then [92, 114]
      else if c < 32 \<or> c = 127 then [92, 120] @ hex_pad 2 c
      else if c < 127 \<or> u_printable u c then [c]
      else if c < 256 then [92, 120] @ hex_pad 2 c
      else if c < 65536 then [92, 117] @ hex_pad 4 c
      else [92, 85] @ hex_pad 8 c)"

definition str_repr :: "ucd \<Rightarrow> ustr \<Rightarrow> ustr" where
  "str_repr u s =
     (let q = (if 39 \<in> set s \<and> 34 \<notin> set s then 34 else 39)
      in [q] @ concat (map (repr_char u q) s) @ [q])"

fun py_repr :: "ucd \<Rightarrow> py \<Rightarrow> ustr" where
  "py_repr u PyNone = U ''None''"
| "py_repr u (PyBool b) = (if b then U ''True'' else U ''False'')"
| "py_repr u (PyInt i) = int_dec i"
| "py_repr u (PyFloat f) = float_repr f"
| "py_repr u (PyStr s) = str_repr u s"
| "py_repr u (PyList xs) = [91] @ join (U '', '') (map (py_repr u) xs) @ [93]"
| "py_repr u (PyDict d) =
     [123] @ join (U '', '') (map (\<lambda>kv. str_repr u (fst kv) @ U '': '' @ py_repr u (snd kv)) d) @ [125]"

definition py_str :: "ucd \<Rightarrow> py \<Rightarrow> ustr" where
  "py_str u v = (case v of PyStr s \<Rightarrow> s | _ \<Rightarrow> py_repr u v)"

lemma py_str_Str [simp, lit_simps]: "py_str u (PyStr s) = s"
  by (simp add: py_str_def)

definition py_int :: "ucd \<Rightarrow> py \<Rightarrow> int res" where
  "py_int u v =
     (case v of
        PyBool b \<Rightarrow> Inr (of_bool b)
      | PyInt i \<Rightarrow> Inr i
      | PyFloat FNan \<Rightarrow> Inl ValueError
      | PyFloat (FInf _) \<Rightarrow> Inl OverflowError
      | PyFloat (FFin s m e) \<Rightarrow>
          (let n = (if 0 \<le> e then int m * 2 ^ nat e else int m div 2 ^ nat (- e)) in Inr (if s then - n else n))
      | PyStr s \<Rightarrow> int_of_str u s
      | _ \<Rightarrow> Inl TypeError)"

lemma py_int_Int [simp, lit_simps]: "py_int u (PyInt i) = Inr i"
  by (simp add: py_int_def)

lemma case_Str_iff: "(case v of PyStr s \<Rightarrow> P s | _ \<Rightarrow> False) = (\<exists>s. v = PyStr s \<and> P s)"
  by (cases v) auto

lemma case_List_iff: "(case v of PyList s \<Rightarrow> P s | _ \<Rightarrow> False) = (\<exists>s. v = PyList s \<and> P s)"
  by (cases v) auto

lemma py_in_blank: "py_in v [PyNone, PyStr []] = (v = PyNone \<or> v = PyStr [])"
  by (auto simp: py_in_def py_eq_Str_right)

lemma dget_item: "dget d k \<noteq> PyNone \<Longrightarrow> py_item (PyDict d) k = Inr (dget d k)"
  by (auto simp: dget_def split: option.splits)

text \<open>\<^verbatim>\<open>v + k\<close> for a small integer \<open>k\<close>.\<close>

definition py_add :: "py \<Rightarrow> int \<Rightarrow> py res" where
  "py_add v k =
     (case v of
        PyInt i \<Rightarrow> Inr (PyInt (i + k))
      | PyBool b \<Rightarrow> Inr (PyInt (of_bool b + k))
      | PyFloat (FFin s m e) \<Rightarrow>
          (let (n, d) = float_ratio s m e; t = n + k * d
           in Inr (PyFloat (float_of_ratio (t < 0) (nat \<bar>t\<bar>) (nat d))))
      | PyFloat f \<Rightarrow> Inr (PyFloat f)
      | _ \<Rightarrow> Inl TypeError)"

text \<open>\<^verbatim>\<open>for k in v\<close>: the items of a list, the characters of a string, the keys of a dictionary.\<close>

definition py_iter :: "py \<Rightarrow> py list res" where
  "py_iter v =
     (case v of
        PyList xs \<Rightarrow> Inr xs
      | PyStr s \<Rightarrow> Inr (map (\<lambda>c. PyStr [c]) s)
      | PyDict d \<Rightarrow> Inr (map (\<lambda>kv. PyStr (fst kv)) d)
      | _ \<Rightarrow> Inl TypeError)"

end
