(* ===== verification/Json.thy ===== *)
theory Json
  imports PyVal
begin

text \<open>
  Python's \<^verbatim>\<open>json\<close> module as the checkers use it: \<^verbatim>\<open>json.dumps\<close> with its \<^verbatim>\<open>ensure_ascii\<close>, \<^verbatim>\<open>sort_keys\<close> and \<^verbatim>\<open>separators\<close>
  options, and \<^verbatim>\<open>json.loads\<close> on text and on bytes. The decoder follows CPython's scanner branch by branch: escapes and
  surrogate pairs, the number grammar with \<^verbatim>\<open>NaN\<close> and \<^verbatim>\<open>Infinity\<close>, duplicate keys (the last value wins), control characters
  refused, trailing data refused. It recurses with fuel; \<open>json_loads_fuel\<close> shows the fuel given is always enough. The main result
  is that what the compact encoder writes is read back as the same value, so that two values with one encoding are equal.
\<close>

section \<open>Encoding\<close>

definition esc_char :: "bool \<Rightarrow> nat \<Rightarrow> ustr" where
  "esc_char asc c =
     (if c = 34 then [92, 34] else if c = 92 then [92, 92]
      else if c = 8 then [92, 98] else if c = 12 then [92, 102]
      else if c = 10 then [92, 110] else if c = 13 then [92, 114] else if c = 9 then [92, 116]
      else if c < 32 then [92, 117] @ hex_pad 4 c
      else if asc \<and> 126 < c then
        (if c < 65536 then [92, 117] @ hex_pad 4 c
         else [92, 117] @ hex_pad 4 (0xD800 + (c - 65536) div 1024) @ [92, 117] @ hex_pad 4 (0xDC00 + (c - 65536) mod 1024))
      else [c])"

definition json_str :: "bool \<Rightarrow> ustr \<Rightarrow> ustr" where
  "json_str asc s = [34] @ concat (map (esc_char asc) s) @ [34]"

definition json_float :: "pyfloat \<Rightarrow> ustr" where
  "json_float f =
     (case f of FNan \<Rightarrow> U ''NaN'' | FInf s \<Rightarrow> (if s then U ''-Infinity'' else U ''Infinity'') | _ \<Rightarrow> float_repr f)"

fun json_dumps :: "bool \<Rightarrow> bool \<Rightarrow> ustr \<Rightarrow> ustr \<Rightarrow> py \<Rightarrow> ustr" where
  "json_dumps asc srt isep ksep PyNone = U ''null''"
| "json_dumps asc srt isep ksep (PyBool b) = (if b then U ''true'' else U ''false'')"
| "json_dumps asc srt isep ksep (PyInt i) = int_dec i"
| "json_dumps asc srt isep ksep (PyFloat f) = json_float f"
| "json_dumps asc srt isep ksep (PyStr s) = json_str asc s"
| "json_dumps asc srt isep ksep (PyList xs) = [91] @ join isep (map (json_dumps asc srt isep ksep) xs) @ [93]"
| "json_dumps asc srt isep ksep (PyDict d) =
     [123] @ join isep (map (\<lambda>kx. json_str asc (fst kx) @ ksep @ snd kx)
       ((if srt then sort_key fst else id) (map (\<lambda>kv. (fst kv, json_dumps asc srt isep ksep (snd kv))) d))) @ [125]"

text \<open>\<^verbatim>\<open>json.dumps(v, separators=(",", ":"), ensure_ascii=False)\<close>, without and with \<^verbatim>\<open>sort_keys=True\<close>.\<close>

abbreviation dumps_compact :: "py \<Rightarrow> ustr" where
  "dumps_compact \<equiv> json_dumps False False [44] [58]"

abbreviation dumps_sorted :: "py \<Rightarrow> ustr" where
  "dumps_sorted \<equiv> json_dumps False True [44] [58]"

section \<open>Decoding\<close>

definition json_ws :: "nat \<Rightarrow> bool" where
  "json_ws c \<longleftrightarrow> c = 32 \<or> c = 9 \<or> c = 10 \<or> c = 13"

definition skip_ws :: "ustr \<Rightarrow> ustr" where
  "skip_ws s = dropWhile json_ws s"

lemma length_skip_ws: "length (skip_ws s) \<le> length s"
  by (simp add: skip_ws_def length_dropWhile_le)

subsection \<open>Strings\<close>

definition hex4 :: "ustr \<Rightarrow> nat option" where
  "hex4 s =
     (case map hex_value (take 4 s) of
        [Some a, Some b, Some c, Some d] \<Rightarrow> Some (4096 * a + 256 * b + 16 * c + d)
      | _ \<Rightarrow> None)"

definition simple_esc :: "nat \<Rightarrow> nat option" where
  "simple_esc e =
     (if e = 34 then Some 34 else if e = 92 then Some 92 else if e = 47 then Some 47
      else if e = 98 then Some 8 else if e = 102 then Some 12 else if e = 110 then Some 10
      else if e = 114 then Some 13 else if e = 116 then Some 9 else None)"

text \<open>The text behind an opening quote: the characters of the string and what follows the closing quote.\<close>

function scan_string :: "ustr \<Rightarrow> (ustr \<times> ustr) res" where
  "scan_string [] = Inl JSONDecodeError"
| "scan_string (c # s) =
     (if c = 34 then Inr ([], s)
      else if c = 92 then
        (case s of
           [] \<Rightarrow> Inl JSONDecodeError
         | e # t \<Rightarrow>
             if e = 117 then
               (case hex4 t of
                  None \<Rightarrow> Inl JSONDecodeError
                | Some v \<Rightarrow>
                    (let t4 = drop 4 t; lo = (if take 2 t4 = [92, 117] then hex4 (drop 2 t4) else None)
                     in case lo of
                          Some w \<Rightarrow>
                            if 0xD800 \<le> v \<and> v \<le> 0xDBFF \<and> 0xDC00 \<le> w \<and> w \<le> 0xDFFF
                            then bnd (scan_string (drop 6 t4))
                                   (\<lambda>(x, r). Inr ((0x10000 + (v - 0xD800) * 1024 + (w - 0xDC00)) # x, r))
                            else bnd (scan_string t4) (\<lambda>(x, r). Inr (v # x, r))
                        | None \<Rightarrow> bnd (scan_string t4) (\<lambda>(x, r). Inr (v # x, r))))
             else (case simple_esc e of
                     None \<Rightarrow> Inl JSONDecodeError
                   | Some ch \<Rightarrow> bnd (scan_string t) (\<lambda>(x, r). Inr (ch # x, r))))
      else if c < 32 then Inl JSONDecodeError
      else bnd (scan_string s) (\<lambda>(x, r). Inr (c # x, r)))"
  by pat_completeness auto
termination
  by (relation "measure length") auto

declare scan_string.simps(2) [simp del]

subsection \<open>Numbers\<close>

definition scan_digits :: "ustr \<Rightarrow> ustr \<times> ustr" where
  "scan_digits s = (takeWhile is_digit s, dropWhile is_digit s)"

text \<open>An optional fraction and an optional exponent; a part that does not match its grammar is left in the text.\<close>

definition scan_frac :: "ustr \<Rightarrow> ustr \<times> ustr" where
  "scan_frac s =
     (case s of
        c # d # t \<Rightarrow> if c = 46 \<and> is_digit d then scan_digits (d # t) else ([], s)
      | _ \<Rightarrow> ([], s))"

definition scan_exp :: "ustr \<Rightarrow> (bool \<times> ustr) option \<times> ustr" where
  "scan_exp s =
     (case s of
        [] \<Rightarrow> (None, s)
      | c # t \<Rightarrow>
          if c = 101 \<or> c = 69 then
            (let neg = (t \<noteq> [] \<and> hd t = 45); t' = (if t \<noteq> [] \<and> (hd t = 45 \<or> hd t = 43) then tl t else t);
                 (ds, r) = scan_digits t'
             in if ds = [] then (None, s) else (Some (neg, ds), r))
          else (None, s))"

text \<open>The integer part: a single zero, or digits that do not start with one.\<close>

definition scan_int_part :: "ustr \<Rightarrow> ustr \<times> ustr" where
  "scan_int_part t = (if t \<noteq> [] \<and> hd t = 48 then ([48], tl t) else scan_digits t)"

definition scan_number :: "ustr \<Rightarrow> (py \<times> ustr) res" where
  "scan_number s =
     (let neg = (s \<noteq> [] \<and> hd s = 45); t = (if neg then tl s else s);
          (ds, r) = scan_int_part t
      in if ds = [] then Inl JSONDecodeError
         else
           let (fr, r1) = scan_frac r; (ex, r2) = scan_exp r1
           in if fr = [] \<and> ex = None then
                (if 4300 < length ds then Inl ValueError
                 else Inr (PyInt (if neg then - int (dec_nat ds) else int (dec_nat ds)), r2))
              else
                let e10 = (case ex of None \<Rightarrow> 0 | Some (en, eds) \<Rightarrow> if en then - int (dec_nat eds) else int (dec_nat eds))
                in Inr (PyFloat (float_of_decimal neg (dec_nat (ds @ fr)) (e10 - int (length fr))), r2))"

subsection \<open>Values\<close>

definition strip_prefix :: "ustr \<Rightarrow> ustr \<Rightarrow> ustr option" where
  "strip_prefix p s = (if take (length p) s = p then Some (drop (length p) s) else None)"

definition expect :: "nat \<Rightarrow> ustr \<Rightarrow> ustr res" where
  "expect c s = (case s of [] \<Rightarrow> Inl JSONDecodeError | d # t \<Rightarrow> if d = c then Inr t else Inl JSONDecodeError)"

definition scan_const :: "ustr \<Rightarrow> py \<Rightarrow> ustr \<Rightarrow> (py \<times> ustr) res" where
  "scan_const p v s = (case strip_prefix p s of None \<Rightarrow> Inl JSONDecodeError | Some r \<Rightarrow> Inr (v, r))"

fun scan_value :: "nat \<Rightarrow> ustr \<Rightarrow> (py \<times> ustr) res"
  and scan_elems :: "nat \<Rightarrow> ustr \<Rightarrow> (py list \<times> ustr) res"
  and scan_members :: "nat \<Rightarrow> pydict \<Rightarrow> ustr \<Rightarrow> (pydict \<times> ustr) res" where
  "scan_value 0 s = Inl OutOfFuel"
| "scan_value (Suc n) s =
     (case s of
        [] \<Rightarrow> Inl JSONDecodeError
      | c # t \<Rightarrow>
          if c = 34 then bnd (scan_string t) (\<lambda>(x, r). Inr (PyStr x, r))
          else if c = 123 then
            (let t' = skip_ws t
             in if t' \<noteq> [] \<and> hd t' = 125 then Inr (PyDict [], tl t')
                else bnd (scan_members n [] t') (\<lambda>(d, r). Inr (PyDict d, r)))
          else if c = 91 then
            (let t' = skip_ws t
             in if t' \<noteq> [] \<and> hd t' = 93 then Inr (PyList [], tl t')
                else bnd (scan_elems n t') (\<lambda>(xs, r). Inr (PyList xs, r)))
          else if c = 110 then scan_const (U ''null'') PyNone s
          else if c = 116 then scan_const (U ''true'') (PyBool True) s
          else if c = 102 then scan_const (U ''false'') (PyBool False) s
          else if c = 78 then scan_const (U ''NaN'') (PyFloat FNan) s
          else if c = 73 then scan_const (U ''Infinity'') (PyFloat (FInf False)) s
          else if take 2 s = U ''-I'' then scan_const (U ''-Infinity'') (PyFloat (FInf True)) s
          else scan_number s)"
| "scan_elems 0 s = Inl OutOfFuel"
| "scan_elems (Suc n) s =
     bnd (scan_value n s) (\<lambda>(v, r).
       case skip_ws r of
         [] \<Rightarrow> Inl JSONDecodeError
       | c # t \<Rightarrow>
           if c = 93 then Inr ([v], t)
           else if c = 44 then bnd (scan_elems n (skip_ws t)) (\<lambda>(vs, r'). Inr (v # vs, r'))
           else Inl JSONDecodeError)"
| "scan_members 0 d s = Inl OutOfFuel"
| "scan_members (Suc n) d s =
     bnd (expect 34 s) (\<lambda>s1.
     bnd (scan_string s1) (\<lambda>(k, s2).
     bnd (expect 58 (skip_ws s2)) (\<lambda>s3.
     bnd (scan_value n (skip_ws s3)) (\<lambda>(v, s4).
       case skip_ws s4 of
         [] \<Rightarrow> Inl JSONDecodeError
       | c # t \<Rightarrow>
           if c = 125 then Inr (dset d k v, t)
           else if c = 44 then scan_members n (dset d k v) (skip_ws t)
           else Inl JSONDecodeError))))"

text \<open>\<^verbatim>\<open>json.loads(s)\<close> for a \<^verbatim>\<open>str\<close>.\<close>

definition json_loads :: "ustr \<Rightarrow> py res" where
  "json_loads s =
     (if s \<noteq> [] \<and> hd s = 0xFEFF then Inl JSONDecodeError
      else bnd (scan_value (2 * length s + 2) (skip_ws s)) (\<lambda>(v, r).
             if skip_ws r = [] then Inr v else Inl JSONDecodeError))"

text \<open>\<^verbatim>\<open>json.loads(b)\<close> for \<^verbatim>\<open>bytes\<close>: the encoding is guessed from a byte-order mark or from the zero bytes.\<close>

definition json_decode_bytes :: "bytes \<Rightarrow> ustr res" where
  "json_decode_bytes b =
     (if take 4 b = [0x00, 0x00, 0xFE, 0xFF] then utf32_decode False (drop 4 b)
      else if take 4 b = [0xFF, 0xFE, 0x00, 0x00] then utf32_decode True (drop 4 b)
      else if take 2 b = [0xFE, 0xFF] then utf16_decode False (drop 2 b)
      else if take 2 b = [0xFF, 0xFE] then utf16_decode True (drop 2 b)
      else if take 3 b = [0xEF, 0xBB, 0xBF] then utf8_decode True (drop 3 b)
      else if 4 \<le> length b \<and> b ! 0 = 0 then (if b ! 1 \<noteq> 0 then utf16_decode False b else utf32_decode False b)
      else if 4 \<le> length b \<and> b ! 1 = 0 then
        (if b ! 2 \<noteq> 0 \<or> b ! 3 \<noteq> 0 then utf16_decode True b else utf32_decode True b)
      else if length b = 2 \<and> b ! 0 = 0 then utf16_decode False b
      else if length b = 2 \<and> b ! 1 = 0 then utf16_decode True b
      else utf8_decode True b)"

definition json_loads_bytes :: "bytes \<Rightarrow> py res" where
  "json_loads_bytes b = bnd (json_decode_bytes b) (\<lambda>s.
     bnd (scan_value (2 * length s + 2) (skip_ws s)) (\<lambda>(v, r).
       if skip_ws r = [] then Inr v else Inl JSONDecodeError))"

section \<open>Reading back what was written\<close>

lemma scan_string_shorter: "scan_string s = Inr (x, r) \<Longrightarrow> length r < length s"
proof (induction s arbitrary: x r rule: length_induct)
  case (1 s)
  then have IH: "length r' < length t" if "scan_string t = Inr (x', r')" "length t < length s" for t x' r'
    using that by blast
  show ?case
  proof (cases s)
    case (Cons c t)
    show ?thesis
      using "1.prems" Cons
      by (auto simp: scan_string.simps(2) Let_def split: if_splits list.splits option.splits prod.splits
          dest!: IH)
  qed (use "1.prems" in simp)
qed

lemma scan_string_no_fuel: "scan_string s \<noteq> Inl OutOfFuel"
proof (induction s rule: length_induct)
  case (1 s)
  then have IH: "scan_string t \<noteq> Inl OutOfFuel" if "length t < length s" for t
    using that by blast
  show ?case
  proof (cases s)
    case (Cons c t)
    then show ?thesis
      by (auto simp: scan_string.simps(2) Let_def bnd_eq_Inl IH split: if_splits list.splits option.splits prod.splits)
  qed simp
qed

lemma hex_value_less: "hex_value c = Some v \<Longrightarrow> v < 16"
  by (auto simp: hex_value_def split: if_splits)

lemma hex_pad_4: "hex_pad 4 n = [hex_digit (n div 4096 mod 16), hex_digit (n div 256 mod 16), hex_digit (n div 16 mod 16), hex_digit (n mod 16)]"
  by (simp add: hex_pad_def upt_conv_Cons)

lemma hex4_pad: "n < 65536 \<Longrightarrow> hex4 (hex_pad 4 n @ r) = Some n"
proof -
  assume n: "n < 65536"
  have a: "n div 16 div 16 = n div 256" "n div 256 div 16 = n div 4096"
    by (simp_all add: div_mult2_eq [symmetric])
  have "16 * (n div 16) + n mod 16 = n" "16 * (n div 16 div 16) + n div 16 mod 16 = n div 16"
    "16 * (n div 256 div 16) + n div 256 mod 16 = n div 256"
    by (simp_all only: mult_div_mod_eq)
  moreover have m: "n div 4096 mod 16 = n div 4096" using n by auto
  ultimately have "4096 * (n div 4096) + 256 * (n div 256 mod 16) + 16 * (n div 16 mod 16) + n mod 16 = n"
    unfolding a by linarith
  moreover have "n div 4096 < 16" using n by auto
  ultimately show ?thesis by (simp add: hex4_def hex_pad_4 m)
qed

lemma length_hex_pad [simp]: "length (hex_pad w n) = w"
  by (simp add: hex_pad_def)

lemma scan_string_esc:
  "scan_string (esc_char False c @ s) = bnd (scan_string s) (\<lambda>(x, r). Inr (c # x, r))"
proof (cases "c < 32 \<and> c \<notin> {8, 9, 10, 12, 13}")
  case True
  then have e: "esc_char False c = 92 # 117 # hex_pad 4 c" by (auto simp: esc_char_def)
  have "hex4 (hex_pad 4 c @ s) = Some c" using True by (intro hex4_pad) simp
  then show ?thesis using True
    by (auto simp: e scan_string.simps(2) Let_def split: option.splits)
next
  case False
  then show ?thesis
    by (auto simp: esc_char_def scan_string.simps(2) simple_esc_def)
qed

lemma scan_string_json_str:
  "scan_string (concat (map (esc_char False) s) @ 34 # r) = Inr (s, r)"
  by (induction s) (auto simp: scan_string_esc scan_string.simps(2))

definition delim :: "ustr \<Rightarrow> bool" where
  "delim r \<longleftrightarrow> r = [] \<or> hd r \<in> {44, 93, 125}"

lemma scan_digits_append:
  "list_all is_digit ds \<Longrightarrow> delim r \<Longrightarrow> scan_digits (ds @ r) = (ds, r)"
  by (cases r) (auto simp: scan_digits_def list_all_iff delim_def is_digit_def takeWhile_append dropWhile_append)

lemma delim_tail: "delim r \<Longrightarrow> scan_frac r = ([], r)" "delim r \<Longrightarrow> scan_exp r = (None, r)"
  by (auto simp: delim_def scan_frac_def scan_exp_def split: list.splits)

lemma scan_number_nat:
  assumes "delim r" "length (nat_dec n) \<le> 4300"
  shows "scan_number (nat_dec n @ r) = Inr (PyInt (int n), r)"
    and "scan_number (45 # nat_dec n @ r) = Inr (PyInt (- int n), r)"
proof -
  have d: "list_all is_digit (nat_dec n)" using nat_dec_digits by (simp add: list_all_iff)
  then have h: "hd (nat_dec n) \<noteq> 45" by (cases "nat_dec n") (auto simp: is_digit_def)
  have z: "hd (nat_dec n) = 48 \<Longrightarrow> nat_dec n = [48]"
    using nat_dec_no_leading_zero [of n] by (cases "n = 0") auto
  have s: "scan_int_part (nat_dec n @ r) = (nat_dec n, r)"
    using z scan_digits_append [OF d assms(1)] by (auto simp: scan_int_part_def hd_append)
  show "scan_number (nat_dec n @ r) = Inr (PyInt (int n), r)"
    "scan_number (45 # nat_dec n @ r) = Inr (PyInt (- int n), r)"
    using h s assms by (simp_all add: scan_number_def Let_def delim_tail)
qed

lemma skip_ws_id: "s = [] \<or> \<not> json_ws (hd s) \<Longrightarrow> skip_ws s = s"
  by (cases s) (auto simp: skip_ws_def)
section \<open>Fuel\<close>

lemma scan_number_no_fuel: "scan_number s \<noteq> Inl OutOfFuel"
  by (auto simp: scan_number_def Let_def split: prod.splits)

lemma length_scan_digits: "scan_digits s = (ds, r) \<Longrightarrow> length s = length ds + length r"
  unfolding scan_digits_def by (metis Pair_inject length_append takeWhile_dropWhile_id)

lemma scan_int_part_shorter: "scan_int_part s = (ds, r) \<Longrightarrow> ds \<noteq> [] \<Longrightarrow> length r < length s"
  by (cases s) (auto simp: scan_int_part_def dest!: length_scan_digits split: if_splits)

lemma scan_frac_le: "scan_frac s = (ds, r) \<Longrightarrow> length r \<le> length s"
  by (auto simp: scan_frac_def dest!: length_scan_digits split: if_splits list.splits)

lemma scan_exp_le: "scan_exp s = (ex, r) \<Longrightarrow> length r \<le> length s"
  by (auto simp: scan_exp_def Let_def dest!: length_scan_digits split: if_splits list.splits prod.splits)

lemma scan_number_shorter: "scan_number s = Inr (v, r) \<Longrightarrow> length r < length s"
proof -
  assume a: "scan_number s = Inr (v, r)"
  define t where "t = (if s \<noteq> [] \<and> hd s = 45 then tl s else s)"
  obtain ds r0 fr r1 ex r2 where eqs: "scan_int_part t = (ds, r0)" "scan_frac r0 = (fr, r1)" "scan_exp r1 = (ex, r2)"
    by (metis surj_pair)
  from a have "ds \<noteq> []" "r = r2"
    by (auto simp: scan_number_def Let_def t_def [symmetric] eqs split: if_splits)
  with eqs have "length r < length t"
    using scan_int_part_shorter [OF eqs(1)] scan_frac_le [OF eqs(2)] scan_exp_le [OF eqs(3)] by simp
  also have "length t \<le> length s" by (simp add: t_def)
  finally show ?thesis .
qed

lemma scan_const_shorter: "scan_const p v s = Inr (w, r) \<Longrightarrow> p \<noteq> [] \<Longrightarrow> s \<noteq> [] \<Longrightarrow> length r < length s"
  by (auto simp: scan_const_def strip_prefix_def split: option.splits if_splits)

lemma expect_shorter: "expect c s = Inr t \<Longrightarrow> length s = Suc (length t)"
  by (auto simp: expect_def split: list.splits if_splits)

lemma skip_ws_shorter: "length s \<le> n \<Longrightarrow> length (skip_ws s) \<le> n"
  using length_skip_ws [of s] by linarith

lemma tl_skip_ws_shorter: "skip_ws s = c # t \<Longrightarrow> length t < length s"
  using length_skip_ws [of s] by simp

text \<open>Reading makes progress, so fuel proportional to the text is enough.\<close>

lemma scan_progress:
  "(\<forall>s v r. scan_value n s = Inr (v, r) \<longrightarrow> length r < length s) \<and>
   (\<forall>s vs r. scan_elems n s = Inr (vs, r) \<longrightarrow> length r < length s) \<and>
   (\<forall>d s d' r. scan_members n d s = Inr (d', r) \<longrightarrow> length r < length s)"
proof (induction n)
  case (Suc n)
  note V = Suc [THEN conjunct1, rule_format] and E = Suc [THEN conjunct2, THEN conjunct1, rule_format]
    and M = Suc [THEN conjunct2, THEN conjunct2, rule_format]
  have 1: "length r < length s" if a: "scan_value (Suc n) s = Inr (v, r)" for s v r
  proof (cases s)
    case (Cons c t)
    have ws: "length (skip_ws t) \<le> length t" by (rule length_skip_ws)
    show ?thesis
      using a Cons ws
      by (auto simp: Let_def split: if_splits prod.splits
          dest!: V E M scan_string_shorter scan_number_shorter scan_const_shorter)
  qed (use a in simp)
  have 2: "length r < length s" if a: "scan_elems (Suc n) s = Inr (vs, r)" for s vs r
  proof -
    from a obtain v r1 where v1: "scan_value n s = Inr (v, r1)" by auto
    with a obtain c t where "skip_ws r1 = c # t" by (cases "skip_ws r1") auto
    note v = v1 this
    with a show ?thesis
      using V [OF v(1)] tl_skip_ws_shorter [OF v(2)] length_skip_ws [of t]
      by (auto split: if_splits dest!: E)
  qed
  have 3: "length r < length s" if a: "scan_members (Suc n) d s = Inr (d', r)" for d s d' r
  proof -
    from a obtain s1 k s2 s3 v s4 where
      x1: "expect 34 s = Inr s1" "scan_string s1 = Inr (k, s2)" "expect 58 (skip_ws s2) = Inr s3"
        "scan_value n (skip_ws s3) = Inr (v, s4)"
      by auto
    with a obtain c t where "skip_ws s4 = c # t" by (cases "skip_ws s4") auto
    note x = x1 this
    with a show ?thesis
      using expect_shorter [OF x(1)] scan_string_shorter [OF x(2)] expect_shorter [OF x(3)] V [OF x(4)]
        tl_skip_ws_shorter [OF x(5)] length_skip_ws [of t] length_skip_ws [of s2] length_skip_ws [of s3]
      by (auto split: if_splits dest!: M)
  qed
  from 1 2 3 show ?case by blast
qed simp

lemmas scan_value_shorter = scan_progress [THEN conjunct1, rule_format]

lemma scan_const_no_fuel: "scan_const p v s \<noteq> Inl OutOfFuel"
  by (auto simp: scan_const_def split: option.splits)

lemma expect_no_fuel: "expect c s \<noteq> Inl OutOfFuel"
  by (auto simp: expect_def split: list.splits)

lemma scan_fuel:
  "(\<forall>s. 2 * length s < n \<longrightarrow> scan_value n s \<noteq> Inl OutOfFuel) \<and>
   (\<forall>s. 2 * length s + 1 < n \<longrightarrow> scan_elems n s \<noteq> Inl OutOfFuel) \<and>
   (\<forall>d s. 2 * length s < n \<longrightarrow> scan_members n d s \<noteq> Inl OutOfFuel)"
proof (induction n)
  case (Suc n)
  note V = Suc [THEN conjunct1, rule_format] and E = Suc [THEN conjunct2, THEN conjunct1, rule_format]
    and M = Suc [THEN conjunct2, THEN conjunct2, rule_format]
  have 1: "scan_value (Suc n) s \<noteq> Inl OutOfFuel" if a: "2 * length s < Suc n" for s
  proof (cases s)
    case (Cons c t)
    have ws: "length (skip_ws t) \<le> length t" by (rule length_skip_ws)
    then have "2 * length (skip_ws t) + 1 < n" using a Cons by simp
    then show ?thesis
      using E [of "skip_ws t"] M [of "skip_ws t" "[]"] Cons
      by (auto simp: Let_def bnd_eq_Inl scan_string_no_fuel scan_number_no_fuel scan_const_no_fuel
          split: prod.splits)
  qed simp
  have 2: "scan_elems (Suc n) s \<noteq> Inl OutOfFuel" if a: "2 * length s + 1 < Suc n" for s
  proof
    assume b: "scan_elems (Suc n) s = Inl OutOfFuel"
    have "scan_value n s \<noteq> Inl OutOfFuel" using a V by simp
    with b obtain v r where v1: "scan_value n s = Inr (v, r)" by (auto simp: bnd_eq_Inl)
    with b obtain c t where v2: "skip_ws r = c # t" by (cases "skip_ws r") auto
    note v = v1 v2
    with b have e: "scan_elems n (skip_ws t) = Inl OutOfFuel" by (auto simp: bnd_eq_Inl split: if_splits)
    have "length (skip_ws t) + 2 \<le> length s"
      using scan_value_shorter [OF v(1)] tl_skip_ws_shorter [OF v(2)] length_skip_ws [of t] by linarith
    then show False using a E e by simp
  qed
  have 3: "scan_members (Suc n) d s \<noteq> Inl OutOfFuel" if a: "2 * length s < Suc n" for d s
  proof
    assume "scan_members (Suc n) d s = Inl OutOfFuel"
    note b = this
    then obtain s1 k s2 s3 where
      x: "expect 34 s = Inr s1" "scan_string s1 = Inr (k, s2)" "expect 58 (skip_ws s2) = Inr s3"
      by (auto simp: bnd_eq_Inl expect_no_fuel scan_string_no_fuel)
    have s3: "length (skip_ws s3) + 2 \<le> length s"
      using expect_shorter [OF x(1)] scan_string_shorter [OF x(2)] expect_shorter [OF x(3)]
        length_skip_ws [of s2] length_skip_ws [of s3] by linarith
    have "\<not> scan_value n (skip_ws s3) = Inl OutOfFuel" using a s3 V by simp
    with b x obtain v s4 where y1: "scan_value n (skip_ws s3) = Inr (v, s4)" by (auto simp: bnd_eq_Inl)
    with b x obtain c t where y2: "skip_ws s4 = c # t" by (cases "skip_ws s4") auto
    with b x y1 have "scan_members n (dset d k v) (skip_ws t) = Inl OutOfFuel" by (auto split: if_splits)
    note y = y1 y2 this
    have "length (skip_ws t) + 3 \<le> length s"
      using s3 scan_value_shorter [OF y(1)] tl_skip_ws_shorter [OF y(2)] length_skip_ws [of t] by linarith
    then show False using a M y(3) by simp
  qed
  from 1 2 3 show ?case by blast
qed simp

theorem json_loads_fuel: "json_loads s \<noteq> Inl OutOfFuel"
proof -
  have "2 * length (skip_ws s) < 2 * length s + 2" using length_skip_ws [of s] by simp
  then show ?thesis
    using scan_fuel [of "2 * length s + 2"] by (auto simp: json_loads_def bnd_eq_Inl split: if_splits)
qed

text \<open>
  Values whose encoding determines them: no \<^verbatim>\<open>float\<close> (a float is read back as the nearest double), integers
  within the interpreter's limit on decimal conversion, distinct keys.
\<close>

fun json_plain :: "py \<Rightarrow> bool" where
  "json_plain (PyInt i) = (length (nat_dec (nat \<bar>i\<bar>)) \<le> 4300)"
| "json_plain (PyFloat f) = False"
| "json_plain (PyList xs) = list_all json_plain xs"
| "json_plain (PyDict d) = (distinct (map fst d) \<and> list_all (\<lambda>kv. json_plain (snd kv)) d)"
| "json_plain _ = True"

text \<open>The first character of an encoded value is neither white space nor a closing bracket.\<close>

definition opens :: "ustr \<Rightarrow> bool" where
  "opens s \<longleftrightarrow> s \<noteq> [] \<and> \<not> json_ws (hd s) \<and> hd s \<noteq> 93 \<and> hd s \<noteq> 125 \<and> hd s \<noteq> 0xFEFF"

lemma digit_opening: "list_all is_digit s \<Longrightarrow> s \<noteq> [] \<Longrightarrow> opens (s @ r)"
  by (cases s) (auto simp: opens_def is_digit_def json_ws_def)

lemma nat_dec_opening: "opens (nat_dec n @ r)"
  using nat_dec_digits [of n] by (intro digit_opening) (auto simp: list_all_iff)

lemma dumps_opening: "json_plain v \<Longrightarrow> opens (dumps_compact v @ r)"
  using nat_dec_opening
  by (cases v) (auto simp: int_dec_def json_str_def opens_def json_ws_def U_Cons split: if_splits)

lemma opening_skip [simp]: "opens s \<Longrightarrow> skip_ws s = s"
  by (cases s) (auto simp: opens_def skip_ws_def)

lemma delim_skip [simp]: "delim r \<Longrightarrow> skip_ws r = r"
  by (cases r) (auto simp: delim_def skip_ws_def json_ws_def)

lemma scan_value_int:
  "length (nat_dec (nat \<bar>i\<bar>)) \<le> 4300 \<Longrightarrow> delim r \<Longrightarrow>
   scan_value (Suc n) (int_dec i @ r) = Inr (PyInt i, r)"
proof -
  assume a: "length (nat_dec (nat \<bar>i\<bar>)) \<le> 4300" "delim r"
  have d: "hd (nat_dec k @ s) \<in> {48..57}" for k s
    using nat_dec_digits [of k] by (cases "nat_dec k") (auto simp: is_digit_def)
  have num: "scan_value (Suc n) (nat_dec k @ s) = scan_number (nat_dec k @ s)" for k s
    using d [of k s] by (cases "nat_dec k @ s") (auto simp: U_Cons take_Cons)
  have neg: "scan_value (Suc n) (45 # nat_dec k @ s) = scan_number (45 # nat_dec k @ s)" for k s
    using d [of k s] by (cases "nat_dec k @ s") (auto simp: U_Cons)
  show ?thesis
  proof (cases "i < 0")
    case True
    then show ?thesis
      using a scan_number_nat(2) [OF a(2), of "nat (- i)"] by (simp add: int_dec_def neg del: scan_value.simps)
  next
    case False
    then show ?thesis
      using a scan_number_nat(1) [OF a(2), of "nat i"] by (simp add: int_dec_def num del: scan_value.simps)
  qed
qed

lemma scan_const_append: "scan_const p v (p @ r) = Inr (v, r)"
  by (simp add: scan_const_def strip_prefix_def)

definition reads_back :: "py \<Rightarrow> bool" where
  "reads_back v \<longleftrightarrow> (\<forall>r n. delim r \<longrightarrow> 2 * length (dumps_compact v) < n \<longrightarrow>
     scan_value n (dumps_compact v @ r) = Inr (v, r))"

lemma scan_elems_join:
  assumes "xs \<noteq> []" "list_all reads_back xs" "list_all json_plain xs"
    "2 * length (join [44] (map dumps_compact xs)) + 2 \<le> n"
  shows "scan_elems n (join [44] (map dumps_compact xs) @ 93 # r) = Inr (xs, r)"
  using assms
proof (induction xs arbitrary: n)
  case (Cons x xs)
  obtain m where n: "n = Suc m" using Cons.prems(4) by (cases n) auto
  show ?case
  proof (cases xs)
    case Nil
    have "scan_value m (dumps_compact x @ 93 # r) = Inr (x, 93 # r)"
      using Cons.prems Nil n by (simp add: reads_back_def delim_def)
    then show ?thesis by (simp add: Nil n delim_def)
  next
    case (Cons y ys)
    let ?t = "join [44] (map dumps_compact xs)"
    have t: "join [44] (map dumps_compact (x # xs)) = dumps_compact x @ 44 # ?t" by (simp add: Cons)
    have v: "scan_value m (dumps_compact x @ 44 # ?t @ 93 # r) = Inr (x, 44 # ?t @ 93 # r)"
      using Cons.prems(2,4) n unfolding t by (simp add: reads_back_def delim_def)
    have "opens (?t @ 93 # r)"
      using Cons.prems(3) dumps_opening [of y] by (cases ys) (auto simp: Cons)
    moreover have "scan_elems m (?t @ 93 # r) = Inr (xs, r)"
      using Cons.prems Cons.IH n Cons unfolding t by simp
    ultimately show ?thesis
      unfolding t using v by (simp add: n delim_def)
  qed
qed simp

definition member_text :: "ustr \<times> py \<Rightarrow> ustr" where
  "member_text kv = json_str False (fst kv) @ [58] @ dumps_compact (snd kv)"

lemma dset_fresh: "k \<notin> fst ` set d \<Longrightarrow> dset d k v = d @ [(k, v)]"
  by (induction d k v rule: dset.induct) auto

lemma scan_members_join:
  assumes "d \<noteq> []" "list_all (\<lambda>kv. reads_back (snd kv)) d" "list_all (\<lambda>kv. json_plain (snd kv)) d"
    "distinct (map fst (acc @ d))" "2 * length (join [44] (map member_text d)) \<le> n"
  shows "scan_members n acc (join [44] (map member_text d) @ 125 # r) = Inr (acc @ d, r)"
  using assms
proof (induction d arbitrary: acc n)
  case (Cons kv d)
  obtain k v where kv: "kv = (k, v)" by (cases kv)
  have len: "length (member_text kv) = length (json_str False k) + 1 + length (dumps_compact v)"
    by (simp add: kv member_text_def)
  have "2 \<le> length (json_str False k)" by (simp add: json_str_def)
  with Cons.prems(5) len obtain m where n: "n = Suc m" by (cases n; cases d) auto
  have fresh: "dset acc k v = acc @ [(k, v)]" using Cons.prems(4) by (intro dset_fresh) (auto simp: kv)
  have key: "json_str False k @ s = 34 # concat (map (esc_char False) k) @ 34 # s" for s
    by (simp add: json_str_def)
  have op: "opens (dumps_compact v @ s)" for s
    using Cons.prems(3) by (intro dumps_opening) (simp add: kv)
  have colon: "skip_ws (58 # s) = 58 # s" for s by (simp add: skip_ws_def json_ws_def)
  have step: "scan_members (Suc m) acc (member_text kv @ c # s) =
      (if c = 125 then Inr (acc @ [(k, v)], s) else scan_members m (acc @ [(k, v)]) (skip_ws s))"
    if c: "c = 125 \<or> c = 44" and m: "2 * length (dumps_compact v) < m" for c s
  proof -
    have "scan_value m (dumps_compact v @ c # s) = Inr (v, c # s)"
      using Cons.prems(2) c m by (auto simp: kv reads_back_def delim_def)
    then show ?thesis
      using c by (auto simp: kv member_text_def key expect_def scan_string_json_str colon op fresh delim_def)
  qed
  show ?case
  proof (cases d)
    case Nil
    have "2 * length (dumps_compact v) < m"
      using Cons.prems(5) len \<open>2 \<le> length (json_str False k)\<close> by (simp add: n Nil)
    then show ?thesis using step [of 125] by (simp add: Nil n kv)
  next
    case (Cons y ys)
    let ?t = "join [44] (map member_text d)"
    have t: "join [44] (map member_text (kv # d)) = member_text kv @ 44 # ?t" by (simp add: Cons)
    have m: "2 * length (dumps_compact v) < m" "2 * length ?t \<le> m"
      using Cons.prems(5) len \<open>2 \<le> length (json_str False k)\<close> unfolding t n by auto
    have "opens (?t @ 125 # r)"
      by (cases ys) (auto simp: Cons member_text_def json_str_def opens_def json_ws_def)
    moreover have "scan_members m (acc @ [(k, v)]) (?t @ 125 # r) = Inr ((acc @ [(k, v)]) @ d, r)"
      using Cons.prems Cons.IH [of "acc @ [(k, v)]" m] Cons m(2) by (simp add: kv)
    ultimately show ?thesis
      unfolding t using step [of 44] m(1) by (simp add: n kv)
  qed
qed simp

lemma dumps_dict: "dumps_compact (PyDict d) = [123] @ join [44] (map member_text d) @ [125]"
  by (simp add: member_text_def [abs_def] comp_def)

lemma dumps_reads_back: "json_plain v \<Longrightarrow> reads_back v"
proof (induction v)
  case (PyInt i)
  show ?case unfolding reads_back_def
  proof (intro allI impI)
    fix r n assume "delim r" "2 * length (dumps_compact (PyInt i)) < n"
    then show "scan_value n (dumps_compact (PyInt i) @ r) = Inr (PyInt i, r)"
      using PyInt scan_value_int by (cases n) (simp_all del: scan_value.simps(2))
  qed
next
  case (PyStr s)
  show ?case unfolding reads_back_def
  proof (intro allI impI)
    fix r n assume "2 * length (dumps_compact (PyStr s)) < n"
    then show "scan_value n (dumps_compact (PyStr s) @ r) = Inr (PyStr s, r)"
      by (cases n) (simp_all add: json_str_def scan_string_json_str)
  qed
next
  case (PyList xs)
  then have rb: "list_all reads_back xs" by (auto simp: list_all_iff)
  show ?case unfolding reads_back_def
  proof (intro allI impI)
    fix r n assume a: "delim r" "2 * length (dumps_compact (PyList xs)) < n"
    then obtain m where n: "n = Suc m" by (cases n) auto
    show "scan_value n (dumps_compact (PyList xs) @ r) = Inr (PyList xs, r)"
    proof (cases "xs = []")
      case True
      then show ?thesis by (simp add: n skip_ws_def json_ws_def)
    next
      case False
      let ?t = "join [44] (map dumps_compact xs)"
      have op: "opens (?t @ 93 # r)"
        using False PyList.prems dumps_opening [of "hd xs"] by (cases xs; cases "tl xs") auto
      have "scan_elems m (?t @ 93 # r) = Inr (xs, r)"
        using False rb PyList.prems a n by (intro scan_elems_join) auto
      then show ?thesis using op by (auto simp: n opens_def)
    qed
  qed
next
  case (PyDict d)
  then have rb: "list_all (\<lambda>kv. reads_back (snd kv)) d" by (fastforce simp: list_all_iff)
  show ?case unfolding reads_back_def
  proof (intro allI impI)
    fix r n assume a: "delim r" "2 * length (dumps_compact (PyDict d)) < n"
    then obtain m where n: "n = Suc m" by (cases n) auto
    show "scan_value n (dumps_compact (PyDict d) @ r) = Inr (PyDict d, r)"
    proof (cases "d = []")
      case True
      then show ?thesis by (simp add: n skip_ws_def json_ws_def)
    next
      case False
      let ?t = "join [44] (map member_text d)"
      have op: "opens (?t @ 125 # r)"
        using False by (cases d; cases "tl d") (auto simp: member_text_def json_str_def opens_def json_ws_def)
      have "2 * length ?t \<le> m" using a(2) n unfolding dumps_dict by simp
      then have "scan_members m [] (?t @ 125 # r) = Inr ([] @ d, r)"
        using False rb PyDict.prems by (intro scan_members_join) auto
      then show ?thesis unfolding dumps_dict using op by (auto simp: n opens_def)
    qed
  qed
next
  case (PyBool b)
  show ?case unfolding reads_back_def
  proof (intro allI impI)
    fix r n assume "2 * length (dumps_compact (PyBool b)) < n"
    then show "scan_value n (dumps_compact (PyBool b) @ r) = Inr (PyBool b, r)"
      by (cases n) (auto simp: U_Cons scan_const_def strip_prefix_def)
  qed
next
  case PyNone
  show ?case unfolding reads_back_def
  proof (intro allI impI)
    fix r n assume "2 * length (dumps_compact PyNone) < n"
    then show "scan_value n (dumps_compact PyNone @ r) = Inr (PyNone, r)"
      by (cases n) (auto simp: U_Cons scan_const_def strip_prefix_def)
  qed
qed simp

theorem json_roundtrip: "json_plain v \<Longrightarrow> json_loads (dumps_compact v) = Inr v"
proof -
  assume p: "json_plain v"
  have op: "opens (dumps_compact v)" using dumps_opening [OF p, of "[]"] by simp
  have "scan_value (2 * length (dumps_compact v) + 2) (dumps_compact v @ []) = Inr (v, [])"
    using dumps_reads_back [OF p] unfolding reads_back_def by (simp add: delim_def del: scan_value.simps)
  moreover have "skip_ws (dumps_compact v) = dumps_compact v" using op by (rule opening_skip)
  ultimately show ?thesis
    using op by (simp add: json_loads_def opens_def skip_ws_def [of "[]"] del: scan_value.simps)
qed

section \<open>Sorted keys\<close>

text \<open>The value with the items of every dictionary in key order: what \<^verbatim>\<open>sort_keys=True\<close> writes.\<close>

fun py_sort :: "py \<Rightarrow> py" where
  "py_sort (PyList xs) = PyList (map py_sort xs)"
| "py_sort (PyDict d) = PyDict (sort_key fst (map (\<lambda>kv. (fst kv, py_sort (snd kv))) d))"
| "py_sort v = v"

lemma insort_key_map:
  "(\<And>x. f (g x) = f' x) \<Longrightarrow> insort_key f (g x) (map g xs) = map g (insort_key f' x xs)"
  by (induction xs) auto

lemma sort_key_map: "(\<And>x. f (g x) = f' x) \<Longrightarrow> sort_key f (map g xs) = map g (sort_key f' xs)"
  by (induction xs) (auto simp: insort_key_map)

lemma map_fst_sort: "map fst (sort_key fst xs) = sort (map fst xs)"
  using sort_key_map [of "\<lambda>x. x" fst fst xs] by simp

lemma dumps_sorted_eq: "dumps_sorted v = dumps_compact (py_sort v)"
proof (induction v)
  case (PyDict d)
  then have e: "map (\<lambda>kv. (fst kv, dumps_sorted (snd kv))) d =
      map (\<lambda>kv. (fst kv, dumps_compact (snd kv))) (map (\<lambda>kv. (fst kv, py_sort (snd kv))) d)"
    by (auto simp: snds.simps)
  show ?case
    unfolding json_dumps.simps py_sort.simps e
    using sort_key_map [of fst "\<lambda>kv. (fst kv, dumps_compact (snd kv))" fst "map (\<lambda>kv. (fst kv, py_sort (snd kv))) d"]
    by simp
next
  case (PyList xs)
  then have e: "map dumps_sorted xs = map dumps_compact (map py_sort xs)" by auto
  show ?case unfolding json_dumps.simps py_sort.simps e ..
qed simp_all

lemma json_plain_sort: "json_plain v \<Longrightarrow> json_plain (py_sort v)"
proof (induction v)
  case (PyDict d)
  then have a: "distinct (map fst d)" "\<And>kv. kv \<in> set d \<Longrightarrow> json_plain (py_sort (snd kv))"
    by (auto simp: list_all_iff snds.simps)
  have "distinct (map fst (sort_key fst (map (\<lambda>kv. (fst kv, py_sort (snd kv))) d)))"
    using a(1) by (simp add: map_fst_sort comp_def)
  then show ?case using a(2) by (auto simp: list_all_iff)
qed (auto simp: list_all_iff)

theorem json_sorted_roundtrip: "json_plain v \<Longrightarrow> json_loads (dumps_sorted v) = Inr (py_sort v)"
  by (simp add: dumps_sorted_eq json_roundtrip json_plain_sort)

lemma dumps_sorted_inj:
  "json_plain v \<Longrightarrow> json_plain w \<Longrightarrow> dumps_sorted v = dumps_sorted w \<Longrightarrow> py_sort v = py_sort w"
  by (metis json_sorted_roundtrip sum.inject(2))

lemma dumps_compact_inj:
  "json_plain v \<Longrightarrow> json_plain w \<Longrightarrow> dumps_compact v = dumps_compact w \<Longrightarrow> v = w"
  by (metis json_roundtrip sum.inject(2))

subsection \<open>Values whose text encodes\<close>

text \<open>Values all of whose strings, keys included, are Unicode scalar values, and which hold no float: their JSON text encodes.\<close>

fun scalar_py :: "py \<Rightarrow> bool" where
  "scalar_py (PyStr s) = scalar_str s"
| "scalar_py (PyFloat f) = False"
| "scalar_py (PyList xs) = list_all scalar_py xs"
| "scalar_py (PyDict d) = list_all (\<lambda>kv. scalar_str (fst kv) \<and> scalar_py (snd kv)) d"
| "scalar_py _ = True"

lemma scalar_simps [simp]:
  "scalar_str []" "scalar_str (s @ t) = (scalar_str s \<and> scalar_str t)" "scalar_str (c # s) = (is_scalar c \<and> scalar_str s)"
  by (auto simp: scalar_str_def)

lemma scalar_small [simp]: "c < 0xD800 \<Longrightarrow> is_scalar c"
  by (simp add: is_scalar_def is_surrogate_def)

lemma scalar_U [simp]: "scalar_str (U s)"
proof (induction s)
  case (Cons c s)
  have "of_char c < (0xD800 :: nat)" by (rule less_trans [OF nat_of_char_less_256]) simp
  with Cons show ?case by (simp add: U_def)
qed (simp add: U_def)

lemma scalar_concat: "\<forall>x \<in> set xs. scalar_str x \<Longrightarrow> scalar_str (concat xs)"
  by (induction xs) auto

lemma scalar_esc: "is_scalar c \<Longrightarrow> scalar_str (esc_char False c)"
  by (auto simp: esc_char_def hex_pad_def hex_digit_def scalar_str_def list_all_iff)

lemma scalar_json_str: "scalar_str s \<Longrightarrow> scalar_str (json_str False s)"
  unfolding json_str_def by (simp, rule scalar_concat) (auto simp: scalar_str_def list_all_iff scalar_esc [unfolded scalar_str_def list_all_iff])

lemma scalar_int_dec: "scalar_str (int_dec i)"
proof -
  have "scalar_str (nat_dec n)" for n
    using nat_dec_digits [of n] by (auto simp: scalar_str_def list_all_iff is_digit_def)
  then show ?thesis by (simp add: int_dec_def)
qed

lemma scalar_join: "scalar_str sep \<Longrightarrow> \<forall>x \<in> set xs. scalar_str x \<Longrightarrow> scalar_str (join sep xs)"
  by (induction sep xs rule: join.induct) auto

lemma scalar_dumps: "scalar_py v \<Longrightarrow> scalar_str (json_dumps False srt [44] [58] v)"
proof (induction v rule: scalar_py.induct)
  case (3 xs)
  then show ?case by (auto simp: list_all_iff intro!: scalar_join)
next
  case (4 d)
  then show ?case by (force simp: list_all_iff intro!: scalar_join scalar_json_str)
qed (auto simp: scalar_json_str scalar_int_dec)

lemma hex64_scalar: "is_hex64 s \<Longrightarrow> scalar_str s"
  by (auto simp: is_hex64_def list_all_iff is_lower_hex_def scalar_str_def)

end
