(* ===== verification/Commit.thy ===== *)
theory Commit
  imports Sha2 Json
begin

text \<open>
  Digests as commitments. No digest of fixed length is injective, so a statement that equal digests mean equal contents
  always has the other case spelled out: two different byte strings with one SHA-256 digest, a collision in hand. The locale
  \<open>committed\<close> is the interface of an encoder that determines its value; its clients get that the digest of an encoding commits to
  the value. The locale \<open>hash_chain\<close> is the interface of a record chain in which every head commits to the record and to the
  head before it; its clients get that a head commits to the whole history behind it.
\<close>

definition collision :: "bytes \<Rightarrow> bytes \<Rightarrow> bool" where
  "collision a b \<longleftrightarrow> a \<noteq> b \<and> sha256 a = sha256 b"

text \<open>\<^verbatim>\<open>hashlib.sha256(b).hexdigest()\<close>.\<close>

definition sha256_hex :: "bytes \<Rightarrow> ustr" where
  "sha256_hex b = hex_of (sha256 b)"

lemma sha256_hex_eq: "sha256_hex a = sha256_hex b \<Longrightarrow> a = b \<or> collision a b"
  by (auto simp: sha256_hex_def collision_def)

lemma is_hex64_sha256 [simp]: "is_hex64 (sha256_hex b)"
  by (simp add: is_hex64_def sha256_hex_def hex_of_lower)

text \<open>\<^verbatim>\<open>sha256(text.encode("utf-8")).hexdigest()\<close>: raises on a lone surrogate.\<close>

definition sha256_text :: "ustr \<Rightarrow> ustr res" where
  "sha256_text s = bnd (utf8 s) (\<lambda>b. Inr (sha256_hex b))"

lemma sha256_text_scalar: "scalar_str s \<Longrightarrow> sha256_text s = Inr (sha256_hex (utf8_total s))"
  by (simp add: sha256_text_def utf8_def)

lemma utf8_total_inj: "scalar_str s \<Longrightarrow> scalar_str t \<Longrightarrow> utf8_total s = utf8_total t \<Longrightarrow> s = t"
  using utf8_inj [of s _ t] by (simp add: utf8_def)

lemma length_sha256_hex [simp]: "length (sha256_hex b) = 64"
  by (simp add: sha256_hex_def)

section \<open>Encoders that determine their value\<close>

locale committed =
  fixes enc :: "'a \<Rightarrow> ustr res" and ok :: "'a \<Rightarrow> bool" and canon :: "'a \<Rightarrow> 'b"
  assumes enc_determines: "ok v \<Longrightarrow> ok w \<Longrightarrow> enc v = Inr s \<Longrightarrow> enc w = Inr s \<Longrightarrow> canon v = canon w"
begin

lemma digest_binding:
  assumes "ok v" "ok w" "bnd (enc v) sha256_text = Inr h" "bnd (enc w) sha256_text = Inr h"
  shows "canon v = canon w \<or>
    (\<exists>s t a b. enc v = Inr s \<and> enc w = Inr t \<and> utf8 s = Inr a \<and> utf8 t = Inr b \<and> collision a b)"
proof -
  from assms obtain s t a b where e: "enc v = Inr s" "enc w = Inr t" "utf8 s = Inr a" "utf8 t = Inr b"
    and h: "sha256_hex a = sha256_hex b"
    by (auto simp: sha256_text_def)
  show ?thesis
  proof (cases "a = b")
    case True
    with e have "s = t" using utf8_inj by blast
    with e have "canon v = canon w" using assms(1,2) enc_determines by blast
    then show ?thesis ..
  next
    case False
    with h have "collision a b" using sha256_hex_eq by blast
    with e show ?thesis by blast
  qed
qed

end

interpretation sorted_json: committed "\<lambda>v. Inr (dumps_sorted v)" json_plain py_sort
  by unfold_locales (auto intro: dumps_sorted_inj)

interpretation compact_json: committed "\<lambda>v. Inr (dumps_compact v)" json_plain "\<lambda>v. v"
  by unfold_locales (auto intro: dumps_compact_inj)

section \<open>Chains of records\<close>

text \<open>
  \<open>link p x\<close> is the head after record \<open>x\<close> on top of head \<open>p\<close>. On heads and records that are \<open>okh\<close> and \<open>ok\<close> it determines the
  head and the canonical form of the record, except where \<open>clash\<close> holds of the two steps compared (for a hash: the inputs
  of the two steps collide).
\<close>

locale hash_chain =
  fixes link :: "'h \<Rightarrow> 'a \<Rightarrow> 'h" and okh :: "'h \<Rightarrow> bool" and ok :: "'a \<Rightarrow> bool" and canon :: "'a \<Rightarrow> 'b"
    and clash :: "'h \<Rightarrow> 'a \<Rightarrow> 'h \<Rightarrow> 'a \<Rightarrow> bool"
  assumes link_okh: "okh p \<Longrightarrow> ok x \<Longrightarrow> okh (link p x)"
    and link_inj: "okh p \<Longrightarrow> okh q \<Longrightarrow> ok x \<Longrightarrow> ok y \<Longrightarrow> link p x = link q y \<Longrightarrow> p = q \<and> canon x = canon y \<or> clash p x q y"
begin

lemma foldl_okh: "okh p \<Longrightarrow> list_all ok xs \<Longrightarrow> okh (foldl link p xs)"
  by (induction xs arbitrary: p) (auto intro: link_okh)

text \<open>A head commits to the whole history behind it.\<close>

lemma same_head_same_history:
  assumes "okh p" "okh q" "list_all ok xs" "list_all ok ys" "length xs = length ys" "foldl link p xs = foldl link q ys"
  shows "p = q \<and> map canon xs = map canon ys \<or>
    (\<exists>i < length xs. clash (foldl link p (take i xs)) (xs ! i) (foldl link q (take i ys)) (ys ! i))"
  using assms(3-)
proof (induction xs arbitrary: ys rule: rev_induct)
  case (snoc x xs)
  then obtain ys' y where ys: "ys = ys' @ [y]" "length xs = length ys'"
    by (cases ys rule: rev_cases) auto
  have okx: "list_all ok xs" "ok x" and oky: "list_all ok ys'" "ok y" using snoc.prems ys by auto
  have "link (foldl link p xs) x = link (foldl link q ys') y" using snoc.prems ys by simp
  from link_inj [OF foldl_okh [OF assms(1) okx(1)] foldl_okh [OF assms(2) oky(1)] okx(2) oky(2) this] show ?case
  proof
    assume "clash (foldl link p xs) x (foldl link q ys') y"
    then show ?thesis using ys by (intro disjI2 exI [of _ "length xs"]) (simp add: nth_append)
  next
    assume a: "foldl link p xs = foldl link q ys' \<and> canon x = canon y"
    with snoc.IH [OF okx(1) oky(1) ys(2)] consider "p = q" "map canon xs = map canon ys'" |
      i where "i < length xs" "clash (foldl link p (take i xs)) (xs ! i) (foldl link q (take i ys')) (ys' ! i)"
      by blast
    then show ?thesis
    proof cases
      case 1
      then show ?thesis using a ys by simp
    next
      case 2
      then show ?thesis using ys by (intro disjI2 exI [of _ i]) (simp add: nth_append)
    qed
  qed
qed simp

end

end
