(* ===== verification/Bip340.thy ===== *)
theory Bip340
  imports Commit
begin

text \<open>
  \<^verbatim>\<open>_bip340_nostr.py\<close>: BIP-340 Schnorr verification over secp256k1 on Python integers, the NIP-01 event id, and
  \<^verbatim>\<open>verify_proof\<close>. Points are \<^verbatim>\<open>None\<close> or a pair of integers; \<^verbatim>\<open>pow(a, n, m)\<close> is \<open>powmod\<close>. The report of \<^verbatim>\<open>verify_proof\<close> is a record
  whose optional members are the dictionary entries that are set on some paths only.
\<close>

section \<open>secp256k1\<close>

definition secp_P :: int where
  "secp_P = 0xFFFFFFFFFFFFFFFFFFFFFFFFFFFFFFFFFFFFFFFFFFFFFFFFFFFFFFFEFFFFFC2F"

definition secp_N :: int where
  "secp_N = 0xFFFFFFFFFFFFFFFFFFFFFFFFFFFFFFFEBAAEDCE6AF48A03BBFD25E8CD0364141"

type_synonym pt = "(int \<times> int) option"

definition secp_G :: pt where
  "secp_G = Some (0x79BE667EF9DCBBAC55A06295CE870B07029BFCDB2DCE28D959F2815B16F81798,
                  0x483ADA7726A3C4655DA4FBFC0E1108A8FD17B448A68554199C47D08FFB10D4B8)"

text \<open>\<^verbatim>\<open>_tagged_hash\<close>; the tag is ASCII text.\<close>

definition tagged_hash :: "ustr \<Rightarrow> bytes \<Rightarrow> bytes" where
  "tagged_hash tag msg = (let t = sha256 (utf8_total tag) in sha256 (t @ t @ msg))"

fun point_add :: "pt \<Rightarrow> pt \<Rightarrow> pt" where
  "point_add None p2 = p2"
| "point_add p1 None = p1"
| "point_add (Some (x1, y1)) (Some (x2, y2)) =
     (if x1 = x2 \<and> (y1 + y2) mod secp_P = 0 then None
      else
        let lam = (if (x1, y1) = (x2, y2)
                   then (3 * x1 * x1) * powmod (2 * y1) (nat (secp_P - 2)) secp_P mod secp_P
                   else (y2 - y1) * powmod (x2 - x1) (nat (secp_P - 2)) secp_P mod secp_P);
            x3 = (lam * lam - x1 - x2) mod secp_P;
            y3 = (lam * (x1 - x3) - y1) mod secp_P
        in Some (x3, y3))"

fun point_mul_loop :: "pt \<Rightarrow> pt \<Rightarrow> nat \<Rightarrow> pt" where
  "point_mul_loop result addend k =
     (if k = 0 then result
      else point_mul_loop (if odd k then point_add result addend else result) (point_add addend addend) (k div 2))"

declare point_mul_loop.simps [simp del]

definition point_mul :: "pt \<Rightarrow> int \<Rightarrow> pt" where
  "point_mul p k = point_mul_loop None p (nat k)"

definition lift_x :: "int \<Rightarrow> pt" where
  "lift_x x =
     (if secp_P \<le> x then None
      else
        let c = (powmod x 3 secp_P + 7) mod secp_P;
            y = powmod c (nat ((secp_P + 1) div 4)) secp_P
        in if powmod y 2 secp_P \<noteq> c then None
           else Some (x, if y mod 2 = 0 then y else secp_P - y))"

definition schnorr_verify :: "bytes \<Rightarrow> bytes \<Rightarrow> bytes \<Rightarrow> bool" where
  "schnorr_verify msg32 pubkey32 sig64 =
     (if length msg32 \<noteq> 32 \<or> length pubkey32 \<noteq> 32 \<or> length sig64 \<noteq> 64 then False
      else case lift_x (int_of_be pubkey32) of
        None \<Rightarrow> False
      | Some pk \<Rightarrow>
          (let r = int_of_be (take 32 sig64); s = int_of_be (drop 32 sig64)
           in if secp_P \<le> r \<or> secp_N \<le> s then False
              else
                let e = int_of_be (tagged_hash (U ''BIP0340/challenge'') (take 32 sig64 @ pubkey32 @ msg32)) mod secp_N
                in case point_add (point_mul secp_G s) (point_mul (Some pk) (secp_N - e)) of
                     None \<Rightarrow> False
                   | Some (rx, ry) \<Rightarrow> ry mod 2 = 0 \<and> rx = r))"

section \<open>NIP-01 events and proofs\<close>

definition published_pubkey :: ustr where
  "published_pubkey = U ''6786e18a864893a900bd9858e650f67ccc3513f248fed374b591e2ff6922fbb7''"

definition proof_kind :: int where
  "proof_kind = 30078"

definition schema_prefix :: ustr where
  "schema_prefix = U ''invinoveritas.''"

text \<open>The array whose compact JSON text is hashed into the event id.\<close>

definition nostr_serial :: "ucd \<Rightarrow> py \<Rightarrow> py res" where
  "nostr_serial u event =
     bnd (py_item event ''pubkey'') (\<lambda>pk.
     bnd (bnd (py_item event ''created_at'') (py_int u)) (\<lambda>at.
     bnd (bnd (py_item event ''kind'') (py_int u)) (\<lambda>kind.
     bnd (py_get_default event ''tags'' (PyList [])) (\<lambda>tags.
     bnd (py_item event ''content'') (\<lambda>content.
       Inr (PyList [PyInt 0, PyStr (u_lower u (py_str u pk)), PyInt at, PyInt kind,
                    py_or tags (PyList []), PyStr (py_str u content)]))))))"

definition nostr_event_id :: "ucd \<Rightarrow> py \<Rightarrow> ustr res" where
  "nostr_event_id u event = bnd (nostr_serial u event) (\<lambda>serial. sha256_text (dumps_compact serial))"

datatype proof_error =
    NotAnObject | ContentTooLarge | TagsTooLarge | MissingFields | MalformedEvent exn | NotAProof

record proof_checks =
  id_integrity :: bool
  signature_valid :: bool
  issued_by_invinoveritas :: bool
  is_proof_event :: bool

record proof_result =
  pr_valid :: bool
  pr_checks :: proof_checks
  pr_error :: "proof_error option"
  pr_payload :: "py option"

definition no_checks :: proof_checks where
  "no_checks = \<lparr> id_integrity = False, signature_valid = False, issued_by_invinoveritas = False, is_proof_event = False \<rparr>"

definition proof_fail :: "proof_error \<Rightarrow> proof_result" where
  "proof_fail e = \<lparr> pr_valid = False, pr_checks = no_checks, pr_error = Some e, pr_payload = None \<rparr>"

text \<open>\<^verbatim>\<open>bytes.fromhex(v)\<close> on a value: only a \<^verbatim>\<open>str\<close> is accepted.\<close>

definition py_fromhex :: "py \<Rightarrow> bytes res" where
  "py_fromhex v = bnd (as_str TypeError v) fromhex"

definition event_schnorr :: "ucd \<Rightarrow> pydict \<Rightarrow> bool res" where
  "event_schnorr u ev =
     bnd (bnd (py_item (PyDict ev) ''id'') (\<lambda>v. fromhex (py_str u v))) (\<lambda>i.
     bnd (bnd (py_item (PyDict ev) ''pubkey'') (\<lambda>v. fromhex (py_str u v))) (\<lambda>pk.
     bnd (bnd (py_item (PyDict ev) ''sig'') (\<lambda>v. fromhex (py_str u v))) (\<lambda>sg.
       Inr (schnorr_verify i pk sg))))"

text \<open>
  The four checks in their order. Only the event id can raise, before any check is set: the conversions behind it
  repeat ones it has made already.
\<close>

definition proof_run_checks :: "ucd \<Rightarrow> ustr \<Rightarrow> pydict \<Rightarrow> proof_checks res" where
  "proof_run_checks u pin ev =
     bnd (nostr_event_id u (PyDict ev)) (\<lambda>eid.
     bnd (py_item (PyDict ev) ''id'') (\<lambda>claimed.
     bnd (py_item (PyDict ev) ''pubkey'') (\<lambda>pk.
     bnd (py_item (PyDict ev) ''content'') (\<lambda>content.
     let schema = try_default (bnd (json_loads (py_str u content)) (\<lambda>v. py_get_default v ''schema'' (PyStr []))) (PyStr [])
     in bnd (bnd (py_item (PyDict ev) ''kind'') (py_int u)) (\<lambda>kind.
       Inr \<lparr> id_integrity = (u_lower u eid = u_lower u (py_str u claimed)),
             signature_valid = try_default (event_schnorr u ev) False,
             issued_by_invinoveritas = (pin \<noteq> [] \<and> u_lower u (strip u (py_str u pk)) = pin),
             is_proof_event = (kind = proof_kind \<and> (case schema of PyStr s \<Rightarrow> startswith s schema_prefix | _ \<Rightarrow> False)) \<rparr>)))))"

definition all_checks :: "proof_checks \<Rightarrow> bool" where
  "all_checks c \<longleftrightarrow> id_integrity c \<and> signature_valid c \<and> issued_by_invinoveritas c \<and> is_proof_event c"

definition verify_proof :: "ucd \<Rightarrow> py \<Rightarrow> ustr \<Rightarrow> proof_result" where
  "verify_proof u event expect_pubkey =
     (let pin = u_lower u (strip u expect_pubkey) in
      case event of
        PyDict ev \<Rightarrow>
          (let content = dget_default ev ''content'' (PyStr []);
               tags = py_or (dget_default ev ''tags'' (PyList [])) (PyList [])
           in
           if \<not> (case content of PyStr s \<Rightarrow> length s \<le> 65536 | _ \<Rightarrow> False) then proof_fail ContentTooLarge
           else if \<not> (case tags of PyList ts \<Rightarrow> length ts \<le> 256 \<and> length (py_str u tags) \<le> 65536 | _ \<Rightarrow> False)
             then proof_fail TagsTooLarge
           else if list_ex (\<lambda>k. py_in (dget ev k) [PyNone, PyStr []])
                     [''id'', ''pubkey'', ''created_at'', ''kind'', ''content'', ''sig'']
             then proof_fail MissingFields
           else case proof_run_checks u pin ev of
             Inl e \<Rightarrow> proof_fail (MalformedEvent e)
           | Inr c \<Rightarrow>
               \<lparr> pr_valid = all_checks c, pr_checks = c,
                 pr_error = (if signature_valid c \<and> issued_by_invinoveritas c \<and> \<not> is_proof_event c then Some NotAProof else None),
                 pr_payload = Some (try_default (bnd (as_str TypeError content) json_loads) PyNone) \<rparr>)
      | _ \<Rightarrow> proof_fail NotAnObject)"

text \<open>\<^verbatim>\<open>_main\<close>: the exit code for the text that was read.\<close>

definition proof_main :: "ucd \<Rightarrow> ustr \<Rightarrow> nat" where
  "proof_main u raw =
     (case json_loads raw of
        Inl _ \<Rightarrow> 2
      | Inr event \<Rightarrow> if pr_valid (verify_proof u event published_pubkey) then 0 else 1)"

section \<open>Correctness of the curve arithmetic\<close>

lemma secp_P_pos [simp]: "0 < secp_P" "secp_P mod 2 = 1" "odd secp_P"
  by (simp_all add: secp_P_def)

lemma powmod_range: "0 < m \<Longrightarrow> 0 \<le> powmod a n m \<and> powmod a n m < m"
  by (simp add: powmod_eq)

text \<open>\<^verbatim>\<open>_lift_x\<close> is sound: a point it returns keeps the given x, has an even y within the field, and lies on the curve
  \<open>y\<^sup>2 = x\<^sup>3 + 7\<close> modulo the field prime.\<close>

lemma lift_x_sound:
  assumes "lift_x x = Some (x', y)"
  shows "x' = x \<and> 0 \<le> y \<and> y < secp_P \<and> even y \<and> y ^ 2 mod secp_P = (x ^ 3 + 7) mod secp_P"
proof -
  define z where "z = powmod ((powmod x 3 secp_P + 7) mod secp_P) (nat ((secp_P + 1) div 4)) secp_P"
  have y: "x' = x" "y = (if z mod 2 = 0 then z else secp_P - z)" "powmod z 2 secp_P = (powmod x 3 secp_P + 7) mod secp_P"
    using assms unfolding lift_x_def Let_def z_def by (auto split: if_splits)
  have z: "0 \<le> z" "z < secp_P" unfolding z_def using powmod_range [OF secp_P_pos(1)] by blast+
  have z2: "z ^ 2 mod secp_P = (x ^ 3 + 7) mod secp_P" using y(3) by (simp only: powmod_eq mod_add_left_eq)
  have "(secp_P - z) ^ 2 = z ^ 2 + secp_P * (secp_P - 2 * z)" by (simp add: power2_eq_square algebra_simps)
  then have neg: "(secp_P - z) ^ 2 mod secp_P = (x ^ 3 + 7) mod secp_P" using z2 by simp
  show ?thesis
  proof (cases "even z")
    case True
    then show ?thesis using y(1,2) z z2 by (simp add: even_iff_mod_2_eq_zero)
  next
    case False
    then have "z \<noteq> 0" "z mod 2 = 1" by (auto simp: odd_iff_mod_2_eq_one)
    then show ?thesis using y(1,2) z neg False by simp
  qed
qed

fun on_field :: "pt \<Rightarrow> bool" where
  "on_field None \<longleftrightarrow> True"
| "on_field (Some (x, y)) \<longleftrightarrow> 0 \<le> x \<and> x < secp_P \<and> 0 \<le> y \<and> y < secp_P"

lemma point_add_field: "on_field p \<Longrightarrow> on_field q \<Longrightarrow> on_field (point_add p q)"
  by (cases "(p, q)" rule: point_add.cases) (auto simp: Let_def)

lemma point_mul_loop_field: "on_field r \<Longrightarrow> on_field a \<Longrightarrow> on_field (point_mul_loop r a k)"
proof (induction r a k rule: point_mul_loop.induct)
  case (1 r a k)
  then show ?case by (subst point_mul_loop.simps) (auto simp: point_add_field)
qed

lemma secp_G_field: "on_field secp_G"
  by (simp add: secp_G_def secp_P_def)

text \<open>Scalar multiplication stays in the field: every coordinate of a point it returns is reduced, whatever the scalar.\<close>

lemma point_mul_field:
  assumes "on_field p"
  shows "on_field (point_mul p k)"
  using assms by (simp add: point_mul_def point_mul_loop_field)

text \<open>An abscissa with \<open>x\<^sup>3 + 7 = 1\<close> modulo the prime.\<close>

definition sample_x :: int where
  "sample_x = 0x1fe1e5ef3fceb5c135ab7741333ce5a6e80d68167653f6b2b24bcbcfaaaff507"

lemma sample_cube: "sample_x ^ 3 + 7 = 1 + 0x7e981a97e9841c3d8eb3f876b44d07696569c1efc3844d09312ca6d1f023858ac54545ce11db028636b181887561d4a773993f7f615022c29bfc580dd3fd33 * secp_P"
  by (simp add: secp_P_def sample_x_def power3_eq_cube)

lemma sample_lift: "lift_x sample_x = Some (sample_x, secp_P - 1)"
proof -
  have x: "\<not> secp_P \<le> sample_x" "(powmod sample_x 3 secp_P + 7) mod secp_P = 1 mod secp_P"
    unfolding powmod_eq mod_add_left_eq sample_cube mod_mult_self1 by (simp_all add: secp_P_def sample_x_def)
  have one: "powmod (1 mod secp_P) n secp_P = 1" for n
    by (simp add: powmod_eq secp_P_def)
  have two: "powmod 1 2 secp_P = 1 mod secp_P" by (simp add: powmod_eq)
  show ?thesis
    unfolding lift_x_def Let_def x(2) one two using x(1) by simp
qed

section \<open>Correctness of proofs\<close>

text \<open>
  The contract of a valid proof: an admissible event whose id is the digest of its own serialisation, signed over exactly
  that digest by the key it names, which is the pinned one, and whose kind and schema make it a verdict.
\<close>

definition field_text :: "ucd \<Rightarrow> pydict \<Rightarrow> string \<Rightarrow> ustr option" where
  "field_text u ev k = map_option (py_str u) (map_of ev (U k))"

definition proof_admissible :: "ucd \<Rightarrow> pydict \<Rightarrow> bool" where
  "proof_admissible u ev \<longleftrightarrow>
     (\<exists>s. dget_default ev ''content'' (PyStr []) = PyStr s \<and> length s \<le> 65536) \<and>
     (\<exists>ts. py_or (dget_default ev ''tags'' (PyList [])) (PyList []) = PyList ts \<and> length ts \<le> 256 \<and>
           length (py_str u (PyList ts)) \<le> 65536) \<and>
     (\<forall>k \<in> {''id'', ''pubkey'', ''created_at'', ''kind'', ''content'', ''sig''}. dget ev k \<noteq> PyNone \<and> dget ev k \<noteq> PyStr [])"

definition authentic_proof :: "ucd \<Rightarrow> py \<Rightarrow> ustr \<Rightarrow> bool" where
  "authentic_proof u event pin \<longleftrightarrow>
     (\<exists>ev serial pre i pkt sgt pk sg kind c v s.
        event = PyDict ev \<and> proof_admissible u ev \<and>
        nostr_serial u event = Inr serial \<and> utf8 (dumps_compact serial) = Inr pre \<and>
        field_text u ev ''id'' = Some i \<and> u_lower u i = hex_of (sha256 pre) \<and> fromhex i = Inr (sha256 pre) \<and>
        field_text u ev ''pubkey'' = Some pkt \<and> fromhex pkt = Inr pk \<and>
        field_text u ev ''sig'' = Some sgt \<and> fromhex sgt = Inr sg \<and>
        schnorr_verify (sha256 pre) pk sg \<and>
        u_lower u (strip u pin) \<noteq> [] \<and> u_lower u (strip u pkt) = u_lower u (strip u pin) \<and>
        map_of ev (U ''kind'') = Some kind \<and> py_int u kind = Inr proof_kind \<and>
        map_of ev (U ''content'') = Some (PyStr c) \<and> json_loads c = Inr v \<and>
        py_get v ''schema'' = Inr (PyStr s) \<and> startswith s schema_prefix)"

lemma schema_prefix_nonempty: "startswith s schema_prefix \<Longrightarrow> s \<noteq> []"
  by (auto simp: schema_prefix_def startswith_def U_def)

lemma verify_proof_valid_dict:
  "pr_valid (verify_proof u (PyDict ev) pin) \<longleftrightarrow>
     proof_admissible u ev \<and> (\<exists>c. proof_run_checks u (u_lower u (strip u pin)) ev = Inr c \<and> all_checks c)"
proof (cases "proof_admissible u ev")
  case True
  then have "verify_proof u (PyDict ev) pin =
    (case proof_run_checks u (u_lower u (strip u pin)) ev of
       Inl e \<Rightarrow> proof_fail (MalformedEvent e)
     | Inr c \<Rightarrow>
         \<lparr> pr_valid = all_checks c, pr_checks = c,
           pr_error = (if signature_valid c \<and> issued_by_invinoveritas c \<and> \<not> is_proof_event c then Some NotAProof else None),
           pr_payload = Some (try_default (bnd (as_str TypeError (dget_default ev ''content'' (PyStr []))) json_loads) PyNone) \<rparr>)"
    unfolding verify_proof_def proof_admissible_def Let_def case_Str_iff case_List_iff py_in_blank by force
  with True show ?thesis by (simp add: proof_fail_def split: sum.splits)
next
  case False
  then show ?thesis
    unfolding verify_proof_def proof_admissible_def Let_def case_Str_iff case_List_iff py_in_blank
    by (force simp: proof_fail_def)
qed

lemma verify_proof_not_dict: "\<not> is_dict event \<Longrightarrow> \<not> pr_valid (verify_proof u event pin)"
  by (cases event) (simp_all add: verify_proof_def proof_fail_def)

lemma schema_read:
  assumes "case try_default (bnd (json_loads ct) (\<lambda>v. py_get_default v ''schema'' (PyStr []))) (PyStr [])
      of PyStr s \<Rightarrow> startswith s schema_prefix | _ \<Rightarrow> False"
  obtains v s where "json_loads ct = Inr v" "py_get v ''schema'' = Inr (PyStr s)" "startswith s schema_prefix"
proof -
  from assms obtain s where s: "try_default (bnd (json_loads ct) (\<lambda>v. py_get_default v ''schema'' (PyStr []))) (PyStr []) = PyStr s"
    "startswith s schema_prefix"
    by (auto simp: case_Str_iff)
  then have "s \<noteq> []" by (simp add: schema_prefix_nonempty)
  with s(1) obtain v where v: "json_loads ct = Inr v" "py_get_default v ''schema'' (PyStr []) = Inr (PyStr s)"
    by (auto simp: try_default_def split: sum.splits)
  then have "py_get v ''schema'' = Inr (PyStr s)"
    using \<open>s \<noteq> []\<close> by (cases v) (auto simp: py_get_def dget_default_def split: option.splits)
  with v s(2) show ?thesis by (intro that)
qed

lemma schema_found:
  "json_loads ct = Inr v \<Longrightarrow> py_get v ''schema'' = Inr (PyStr s) \<Longrightarrow>
    bnd (json_loads ct) (\<lambda>v. py_get_default v ''schema'' (PyStr [])) = Inr (PyStr s)"
  by (cases v) (auto simp: py_get_def dget_default_def split: option.splits)

lemma proof_checks_authentic:
  assumes u: "ucd_ascii u" and a: "proof_admissible u ev"
  shows "(\<exists>c. proof_run_checks u (u_lower u (strip u pin)) ev = Inr c \<and> all_checks c) \<longleftrightarrow> authentic_proof u (PyDict ev) pin"
    (is "?l \<longleftrightarrow> ?r")
proof
  assume ?l
  then obtain c where c: "proof_run_checks u (u_lower u (strip u pin)) ev = Inr c" "all_checks c" by blast
  then obtain eid idv pk content kind where f:
    "nostr_event_id u (PyDict ev) = Inr eid" "map_of ev (U ''id'') = Some idv" "map_of ev (U ''pubkey'') = Some pk"
    "map_of ev (U ''content'') = Some content" "map_of ev (U ''kind'') = Some kind" "py_int u kind = Inr proof_kind"
    "u_lower u eid = u_lower u (py_str u idv)" "event_schnorr u ev = Inr True"
    "u_lower u (strip u pin) \<noteq> []" "u_lower u (strip u (py_str u pk)) = u_lower u (strip u pin)"
    and sch: "case try_default (bnd (json_loads (py_str u content)) (\<lambda>v. py_get_default v ''schema'' (PyStr []))) (PyStr [])
      of PyStr s \<Rightarrow> startswith s schema_prefix | _ \<Rightarrow> False"
    unfolding proof_run_checks_def Let_def all_checks_def try_default_def
    by (auto split: option.splits sum.splits)
  obtain serial pre where s: "nostr_serial u (PyDict ev) = Inr serial" "utf8 (dumps_compact serial) = Inr pre" "eid = hex_of (sha256 pre)"
    using f(1) by (auto simp: nostr_event_id_def sha256_text_def sha256_hex_def)
  obtain ct where ct: "content = PyStr ct" using a f(4) by (auto simp: proof_admissible_def dget_default_def)
  obtain i pkb sv sg where sig: "fromhex (py_str u idv) = Inr i" "fromhex (py_str u pk) = Inr pkb"
      "map_of ev (U ''sig'') = Some sv" "fromhex (py_str u sv) = Inr sg" "schnorr_verify i pkb sg"
    using f(2,3,8) by (auto simp: event_schnorr_def split: option.splits)
  have low: "u_lower u eid = eid" using u s(3) by (simp add: ucd_lower_hex)
  have i: "i = sha256 pre" using fromhex_digest [OF u sig(1)] f(7) low s(3) by simp
  obtain v sc where v: "json_loads ct = Inr v" "py_get v ''schema'' = Inr (PyStr sc)" "startswith sc schema_prefix"
    using sch unfolding ct py_str_Str by (rule schema_read)
  show ?r
    unfolding authentic_proof_def field_text_def
    using a s f(2-6,9,10) f(7) [symmetric] low sig i v ct by auto
next
  assume ?r
  then obtain serial pre i pkt sgt pk sg kind c v s where
    e: "nostr_serial u (PyDict ev) = Inr serial" "utf8 (dumps_compact serial) = Inr pre" and
    i: "map_of ev (U ''id'') = Some i" "u_lower u (py_str u i) = hex_of (sha256 pre)" "fromhex (py_str u i) = Inr (sha256 pre)" and
    p: "map_of ev (U ''pubkey'') = Some pkt" "fromhex (py_str u pkt) = Inr pk" and
    g: "map_of ev (U ''sig'') = Some sgt" "fromhex (py_str u sgt) = Inr sg" "schnorr_verify (sha256 pre) pk sg" and
    n: "u_lower u (strip u pin) \<noteq> []" "u_lower u (strip u (py_str u pkt)) = u_lower u (strip u pin)" and
    k: "map_of ev (U ''kind'') = Some kind" "py_int u kind = Inr proof_kind" and
    c: "map_of ev (U ''content'') = Some (PyStr c)" "json_loads c = Inr v" "py_get v ''schema'' = Inr (PyStr s)" "startswith s schema_prefix"
    unfolding authentic_proof_def field_text_def map_option_eq_Some py.inject by metis
  have "nostr_event_id u (PyDict ev) = Inr (hex_of (sha256 pre))"
    using e by (simp add: nostr_event_id_def sha256_text_def sha256_hex_def)
  moreover have "event_schnorr u ev = Inr True"
    using i p g by (simp add: event_schnorr_def)
  ultimately show ?l
    using i p n k c schema_found [OF c(2,3)]
    by (simp add: proof_run_checks_def all_checks_def try_default_def ucd_lower_hex [OF u])
qed

text \<open>C2. \<^verbatim>\<open>verify_proof\<close> decides the contract: a proof is reported valid exactly when it is authentic. In particular the signature that is
  accepted is over the recomputed digest, although the code verifies it over the bytes of the claimed id, in either letter case.\<close>

theorem verify_proof_refines:
  assumes "ucd_ascii u"
  shows "pr_valid (verify_proof u event pin) \<longleftrightarrow> authentic_proof u event pin"
proof (cases "is_dict event")
  case True
  then obtain ev where e: "event = PyDict ev" by (cases event) auto
  have "authentic_proof u (PyDict ev) pin \<Longrightarrow> proof_admissible u ev" by (auto simp: authentic_proof_def)
  then show ?thesis using proof_checks_authentic [OF assms, of ev pin] e by (auto simp: verify_proof_valid_dict)
next
  case False
  then show ?thesis using verify_proof_not_dict by (auto simp: authentic_proof_def)
qed

theorem verify_proof_refines_witness:
  "pr_valid (verify_proof sample_ucd (PyDict []) published_pubkey) \<longleftrightarrow> authentic_proof sample_ucd (PyDict []) published_pubkey"
  by (rule verify_proof_refines [OF sample_ucd_ascii])

text \<open>A signature whose \<open>r\<close> is not a field element or whose \<open>s\<close> is not below the group order is rejected for every message and key,
  so no signature has a second encoding with \<open>s\<close> shifted by the order.\<close>

lemma schnorr_rejects_out_of_range:
  assumes "length r = 32" "secp_P \<le> int_of_be r \<or> secp_N \<le> int_of_be s"
  shows "\<not> schnorr_verify m pk (r @ s)"
  using assms by (auto simp: schnorr_verify_def Let_def split: option.splits)








end
