(* ===== verification/Verifier.thy ===== *)
theory Verifier
  imports Bip340
begin

text \<open>
  \<^verbatim>\<open>verifier.py\<close> and \<^verbatim>\<open>run_conformance.py\<close>: the five reported invariants of a fixture and the conformance bar. A suite is a record
  with its verdict (\<open>None\<close> is the \<^verbatim>\<open>None\<close> of \<^verbatim>\<open>not_assessable\<close>) and its reason code; the human-readable detail text is left out, except that
  building it can raise. The suites are kept in the order the code inserts them, which decides \<^verbatim>\<open>failure_reason\<close>.
\<close>

section \<open>The verifier\<close>

record suite =
  s_pass :: "bool option"
  s_code :: "string option"

record verdict =
  overall_pass :: bool
  failure_reason :: "string option"
  suites :: "(string \<times> suite) list"
  envelope_hash :: ustr

definition event_signature_valid :: "ucd \<Rightarrow> py \<Rightarrow> bool" where
  "event_signature_valid u ev =
     try_default
       (bnd (nostr_event_id u ev) (\<lambda>eid.
        bnd (py_item ev ''id'') (\<lambda>i.
          if \<not> py_eq (PyStr eid) i then Inr False
          else
            bnd (py_fromhex i) (\<lambda>m.
            bnd (bnd (py_item ev ''pubkey'') py_fromhex) (\<lambda>pk.
            bnd (bnd (py_item ev ''sig'') py_fromhex) (\<lambda>sg. Inr (schnorr_verify m pk sg))))))) False"

text \<open>\<^verbatim>\<open>_suite(ok, code, detail)\<close>.\<close>

definition mk_suite :: "bool \<Rightarrow> string option \<Rightarrow> suite" where
  "mk_suite ok code = \<lparr> s_pass = Some ok, s_code = code \<rparr>"

definition not_assessable :: suite where
  "not_assessable = \<lparr> s_pass = None, s_code = Some ''not_assessable'' \<rparr>"

definition envelope_suite :: "py \<Rightarrow> (ustr \<times> suite) res" where
  "envelope_suite ce =
     bnd (py_item ce ''canonical_bytes_utf8'') (\<lambda>cb.
     bnd (bnd (as_str AttributeError cb) sha256_text) (\<lambda>h.
     bnd (py_item ce ''expected_envelope_hash'') (\<lambda>want.
     bnd (py_sliceable want) (\<lambda>_.
       let ok = py_eq (PyStr h) want
       in Inr (h, mk_suite ok (if ok then None else Some ''envelope_hash_mismatch''))))))"

definition chain_suite :: "ustr \<Rightarrow> py \<Rightarrow> py \<Rightarrow> suite res" where
  "chain_suite h pre term =
     bnd (and_r (bnd (py_item pre ''envelope_hash'') (\<lambda>v. Inr (py_eq v (PyStr h))))
         (and_r (bnd (py_item term ''executed_envelope_hash'') (\<lambda>v. Inr (py_eq v (PyStr h))))
                (bnd (py_item pre ''action_ref'') (\<lambda>a. bnd (py_item term ''action_ref'') (\<lambda>b. Inr (py_eq a b))))))
       (\<lambda>ok. Inr (mk_suite ok (if ok then None else Some ''chain_join_failed'')))"

text \<open>The artifact hash the signed content binds, \<^verbatim>\<open>None\<close> when the content cannot be read.\<close>

definition bound_hash :: "py \<Rightarrow> py" where
  "bound_hash ev =
     try_default
       (bnd (py_item ev ''content'') (\<lambda>content.
        bnd (bnd (as_str TypeError content) json_loads) (\<lambda>v. py_get v ''artifact_hash''))) PyNone"

definition admission_code :: "ucd \<Rightarrow> ustr \<Rightarrow> py \<Rightarrow> py \<Rightarrow> py \<Rightarrow> string option res" where
  "admission_code u h ev actor trust =
     (if \<not> event_signature_valid u ev then Inr (Some ''admission_signature_invalid'')
      else
        if \<not> py_eq (bound_hash ev) (PyStr h) then Inr (Some ''verdict_binding_failed'')
        else
          bnd (py_item ev ''pubkey'') (\<lambda>pk.
          if py_eq pk actor then Inr (Some ''admission_not_independent'')
          else bnd (py_contains trust pk) (\<lambda>known.
            Inr (if known then None else Some ''key_different_but_identity_unproven''))))"

definition anchor_suites :: "py \<Rightarrow> py \<Rightarrow> (suite \<times> suite) res" where
  "anchor_suites anc ev =
     (if anc = PyNone then Inr (mk_suite False (Some ''ordering_unanchored''), not_assessable)
      else
        bnd (py_item anc ''commitment_digest'') (\<lambda>cd.
        bnd (py_item ev ''id'') (\<lambda>i.
        if \<not> py_eq cd i then Inr (mk_suite False (Some ''anchor_commitment_mismatch''), not_assessable)
        else
          bnd (py_get anc ''precedence'') (\<lambda>prec.
          if prec = PyBool False then Inr (mk_suite True None, mk_suite False (Some ''existence_only_anchor''))
          else
            bnd (bnd (py_item anc ''accepted_anchor_point'') (\<lambda>p. py_item p ''block_time'')) (\<lambda>bt.
            bnd (py_item anc ''terminal_outcome_time'') (\<lambda>ot.
            bnd (py_ge bt ot) (\<lambda>late.
              Inr (mk_suite True None,
                   if late then mk_suite False (Some ''late_commitment'') else mk_suite True None))))))))"

definition first_fail :: "(string \<times> suite) list \<Rightarrow> string option" where
  "first_fail ss = (case filter (\<lambda>x. s_pass (snd x) = Some False) ss of [] \<Rightarrow> None | x # _ \<Rightarrow> s_code (snd x))"

definition verify_fixture :: "ucd \<Rightarrow> py \<Rightarrow> verdict res" where
  "verify_fixture u fx =
     bnd (py_item fx ''canonical_envelope'') (\<lambda>ce.
     bnd (envelope_suite ce) (\<lambda>(h, env).
     bnd (py_item fx ''chain'') (\<lambda>ch.
     bnd (py_item ch ''pre_action'') (\<lambda>pre.
     bnd (py_item ch ''terminal'') (\<lambda>term.
     bnd (chain_suite h pre term) (\<lambda>chn.
     bnd (py_item fx ''admission'') (\<lambda>adm.
     bnd (py_item adm ''verdict_event'') (\<lambda>ev.
     bnd (bnd (py_item fx ''trust_policy'') (\<lambda>t. py_item t ''independent_verifier_pubkeys'')) (\<lambda>trust.
     bnd (py_item pre ''actor_pubkey'') (\<lambda>actor.
     bnd (admission_code u h ev actor trust) (\<lambda>code.
     bnd (py_get fx ''anchor'') (\<lambda>anc.
     bnd (anchor_suites anc ev) (\<lambda>(ex, prec).
       let ss = [(''canonical_envelope'', env), (''chain_invariant'', chn),
                 (''admission_invariant'', mk_suite (code = None) code),
                 (''anchoring_existence'', ex), (''anchoring_precedence'', prec)]
       in Inr \<lparr> overall_pass = list_all (\<lambda>x. s_pass (snd x) = Some True) ss,
                failure_reason = first_fail ss, suites = ss, envelope_hash = h \<rparr>)))))))))))))"

text \<open>\<^verbatim>\<open>main\<close>: the exit code over the parsed fixture files.\<close>

definition verifier_main :: "ucd \<Rightarrow> py list \<Rightarrow> nat res" where
  "verifier_main u fxs =
     (if fxs = [] then Inr 2
      else bnd (map_r (verify_fixture u) fxs) (\<lambda>rs. Inr (if list_all overall_pass rs then 0 else 1)))"

section \<open>The conformance bar\<close>

datatype bar_failure =
    WrongOverall bool bool
  | WrongReason "string option"
  | WrongCount nat

definition opt_code :: "string option \<Rightarrow> py" where
  "opt_code c = (case c of None \<Rightarrow> PyNone | Some s \<Rightarrow> S s)"

definition check_bar :: "ucd \<Rightarrow> py \<Rightarrow> bar_failure option res" where
  "check_bar u fx =
     bnd (verify_fixture u fx) (\<lambda>r.
     bnd (py_item fx ''expected_overall'') (\<lambda>eo.
     bnd (py_get fx ''expected_failure_reason'') (\<lambda>exp_reason.
       let exp_pass = py_eq eo (S ''pass'');
           broken = filter (\<lambda>x. s_pass (snd x) = Some False) (suites r)
       in Inr
            (if overall_pass r \<noteq> exp_pass then Some (WrongOverall (overall_pass r) exp_pass)
             else if exp_pass then None
             else if \<not> py_eq (opt_code (failure_reason r)) exp_reason then Some (WrongReason (failure_reason r))
             else if length broken \<noteq> 1 then Some (WrongCount (length broken))
             else None))))"

definition run_conformance :: "ucd \<Rightarrow> py list \<Rightarrow> nat res" where
  "run_conformance u fxs =
     bnd (map_r (check_bar u) fxs) (\<lambda>fs. Inr (if list_ex (\<lambda>f. f \<noteq> None) fs then 1 else 0))"


section \<open>Correctness\<close>

text \<open>\<^verbatim>\<open>fx[k1][k2]...\<close> where every step finds its key.\<close>

fun py_path :: "py \<Rightarrow> string list \<Rightarrow> py option" where
  "py_path v [] = Some v"
| "py_path v (k # ks) = (case py_item v k of Inl _ \<Rightarrow> None | Inr w \<Rightarrow> py_path w ks)"

text \<open>
  The abstract contract of an accepted fixture, over one recomputed envelope hash: pre-action and terminal join on it, an
  independent declared identity signed it, and the anchor binds that admission and precedes the outcome.
\<close>

definition envelope_of :: "py \<Rightarrow> ustr \<Rightarrow> bool" where
  "envelope_of fx h \<longleftrightarrow> (\<exists>s. py_path fx [''canonical_envelope'', ''canonical_bytes_utf8''] = Some (PyStr s) \<and> sha256_text s = Inr h)"

definition chain_joined :: "py \<Rightarrow> ustr \<Rightarrow> bool" where
  "chain_joined fx h \<longleftrightarrow>
     py_path fx [''canonical_envelope'', ''expected_envelope_hash''] = Some (PyStr h) \<and>
     py_path fx [''chain'', ''pre_action'', ''envelope_hash''] = Some (PyStr h) \<and>
     py_path fx [''chain'', ''terminal'', ''executed_envelope_hash''] = Some (PyStr h) \<and>
     (\<exists>a b. py_path fx [''chain'', ''pre_action'', ''action_ref''] = Some a \<and>
            py_path fx [''chain'', ''terminal'', ''action_ref''] = Some b \<and> py_eq a b)"

definition admitted :: "ucd \<Rightarrow> py \<Rightarrow> ustr \<Rightarrow> bool" where
  "admitted u fx h \<longleftrightarrow>
     (\<exists>ev pk actor trust. py_path fx [''admission'', ''verdict_event''] = Some ev \<and>
        event_signature_valid u ev \<and> bound_hash ev = PyStr h \<and> py_path ev [''pubkey''] = Some pk \<and>
        py_path fx [''chain'', ''pre_action'', ''actor_pubkey''] = Some actor \<and> \<not> py_eq pk actor \<and>
        py_path fx [''trust_policy'', ''independent_verifier_pubkeys''] = Some trust \<and> py_contains trust pk = Inr True)"

definition anchored_before :: "py \<Rightarrow> bool" where
  "anchored_before fx \<longleftrightarrow>
     (\<exists>anc cd i bt ot. py_path fx [''anchor''] = Some anc \<and> py_path anc [''commitment_digest''] = Some cd \<and>
        py_path fx [''admission'', ''verdict_event'', ''id''] = Some i \<and> py_eq cd i \<and>
        py_path anc [''precedence''] \<noteq> Some (PyBool False) \<and>
        py_path anc [''accepted_anchor_point'', ''block_time''] = Some bt \<and>
        py_path anc [''terminal_outcome_time''] = Some ot \<and> py_ge bt ot = Inr False)"

definition governed :: "ucd \<Rightarrow> py \<Rightarrow> bool" where
  "governed u fx \<longleftrightarrow> (\<exists>h. envelope_of fx h \<and> chain_joined fx h \<and> admitted u fx h) \<and> anchored_before fx"

lemma mk_suite_simps [simp]: "s_pass (mk_suite ok c) = Some ok" "s_code (mk_suite ok c) = c"
  by (simp_all add: mk_suite_def)

lemma mk_suite_eq [simp]: "(mk_suite a b = mk_suite c d) = (a = c \<and> b = d)"
  by (auto simp: mk_suite_def)

lemma not_assessable_simps [simp]: "s_pass not_assessable = None"
  by (simp add: not_assessable_def)

lemma py_item_path: "py_item v k = Inr w \<Longrightarrow> py_path v (k # ks) = py_path w ks"
  by simp

lemma py_get_path: "py_get v k = Inr w \<Longrightarrow> py_path v [k] = (if w = PyNone then py_path v [k] else Some w)"
  by (cases v) (auto simp: py_get_def dget_default_def split: option.splits)

lemma py_get_item: "py_get v k = Inr w \<Longrightarrow> w \<noteq> PyNone \<Longrightarrow> py_item v k = Inr w"
  by (cases v) (auto simp: py_get_def dget_default_def split: option.splits)

lemma py_get_None_item: "py_get v k = Inr PyNone \<Longrightarrow> py_item v k = Inl KeyError \<or> py_item v k = Inr PyNone"
  by (cases v) (auto simp: py_get_def dget_default_def split: option.splits)

lemma envelope_suite_pass:
  assumes "envelope_suite ce = Inr (h, e)"
  shows "\<exists>s. py_path ce [''canonical_bytes_utf8''] = Some (PyStr s) \<and> sha256_text s = Inr h"
    and "s_pass e = Some (py_path ce [''expected_envelope_hash''] = Some (PyStr h))"
  using assms
  by (auto simp: envelope_suite_def Let_def py_eq_Str_left)

lemma chain_suite_pass:
  assumes "chain_suite h pre term = Inr c"
  shows "s_pass c = Some (py_path pre [''envelope_hash''] = Some (PyStr h) \<and>
      py_path term [''executed_envelope_hash''] = Some (PyStr h) \<and>
      (\<exists>a b. py_path pre [''action_ref''] = Some a \<and> py_path term [''action_ref''] = Some b \<and> py_eq a b))"
  using assms
  by (auto simp: chain_suite_def and_r_def py_eq_Str_right split: if_splits)

lemma admission_code_None:
  assumes "admission_code u h ev actor trust = Inr c"
  shows "c = None \<longleftrightarrow> event_signature_valid u ev \<and> bound_hash ev = PyStr h \<and>
      (\<exists>pk. py_path ev [''pubkey''] = Some pk \<and> \<not> py_eq pk actor \<and> py_contains trust pk = Inr True)"
  using assms
  by (auto simp: admission_code_def py_eq_Str_right split: if_splits)

lemma anchor_suites_cases:
  assumes "anchor_suites anc ev = Inr (ex, prec)"
  obtains (unbound) c where "ex = mk_suite False (Some c)" "prec = not_assessable"
      "anc = PyNone \<or> (\<exists>cd i. py_path anc [''commitment_digest''] = Some cd \<and> py_path ev [''id''] = Some i \<and> \<not> py_eq cd i)"
  | (existence_only) cd i c where "ex = mk_suite True None" "prec = mk_suite False (Some c)"
      "anc \<noteq> PyNone" "py_path anc [''commitment_digest''] = Some cd" "py_path ev [''id''] = Some i" "py_eq cd i"
      "py_path anc [''precedence''] = Some (PyBool False)"
  | (ordered) cd i bt ot late where "ex = mk_suite True None"
      "prec = (if late then mk_suite False (Some ''late_commitment'') else mk_suite True None)"
      "anc \<noteq> PyNone" "py_path anc [''commitment_digest''] = Some cd" "py_path ev [''id''] = Some i" "py_eq cd i"
      "py_path anc [''precedence''] \<noteq> Some (PyBool False)"
      "py_path anc [''accepted_anchor_point'', ''block_time''] = Some bt"
      "py_path anc [''terminal_outcome_time''] = Some ot" "py_ge bt ot = Inr late"
proof (cases "anc = PyNone")
  case True
  with assms show ?thesis by (intro unbound) (auto simp: anchor_suites_def)
next
  case False
  with assms obtain cd i where ci: "py_item anc ''commitment_digest'' = Inr cd" "py_item ev ''id'' = Inr i"
    by (auto simp: anchor_suites_def)
  show ?thesis
  proof (cases "py_eq cd i")
    case False
    with assms ci \<open>anc \<noteq> PyNone\<close> show ?thesis by (intro unbound) (auto simp: anchor_suites_def)
  next
    case True
    with assms ci \<open>anc \<noteq> PyNone\<close> obtain p where p: "py_get anc ''precedence'' = Inr p"
      by (auto simp: anchor_suites_def)
    show ?thesis
    proof (cases "p = PyBool False")
      case t: True
      have "py_item anc ''precedence'' = Inr (PyBool False)" using py_get_item [OF p] t by simp
      with assms ci True p t \<open>anc \<noteq> PyNone\<close> show ?thesis
        by (intro existence_only) (auto simp: anchor_suites_def)
    next
      case f: False
      have "py_path anc [''precedence''] \<noteq> Some (PyBool False)"
        using py_get_item [OF p] py_get_None_item [of anc "''precedence''"] p f by (cases "p = PyNone") auto
      with assms ci True p f \<open>anc \<noteq> PyNone\<close> show ?thesis
        by (auto simp: anchor_suites_def intro!: ordered split: if_splits)
    qed
  qed
qed

text \<open>Every run that returns has run all five suites on the parts of the fixture.\<close>

lemma verify_fixture_parts:
  assumes "verify_fixture u fx = Inr r"
  obtains ce h env ch pre tm chn adm ev trust actor code anc ex prec where
    "py_item fx ''canonical_envelope'' = Inr ce" "envelope_suite ce = Inr (h, env)"
    "py_item fx ''chain'' = Inr ch" "py_item ch ''pre_action'' = Inr pre" "py_item ch ''terminal'' = Inr tm"
    "chain_suite h pre tm = Inr chn" "py_item fx ''admission'' = Inr adm" "py_item adm ''verdict_event'' = Inr ev"
    "py_path fx [''trust_policy'', ''independent_verifier_pubkeys''] = Some trust"
    "py_item pre ''actor_pubkey'' = Inr actor" "admission_code u h ev actor trust = Inr code"
    "py_get fx ''anchor'' = Inr anc" "anchor_suites anc ev = Inr (ex, prec)"
    "suites r = [(''canonical_envelope'', env), (''chain_invariant'', chn),
       (''admission_invariant'', mk_suite (code = None) code), (''anchoring_existence'', ex), (''anchoring_precedence'', prec)]"
    "overall_pass r = list_all (\<lambda>x. s_pass (snd x) = Some True) (suites r)"
    "failure_reason r = first_fail (suites r)" "envelope_hash r = h"
  using assms that
  by (auto simp: verify_fixture_def Let_def simp del: py_get_Dict)

lemma anchor_pass:
  assumes a: "anchor_suites anc ev = Inr (ex, prec)" and g: "py_get fx ''anchor'' = Inr anc"
    and ev: "py_path fx [''admission'', ''verdict_event''] = Some ev"
  shows "s_pass ex = Some True \<and> s_pass prec = Some True \<longleftrightarrow> anchored_before fx"
proof -
  have id: "py_path fx [''admission'', ''verdict_event'', ''id''] = py_path ev [''id'']"
    using ev by (auto split: sum.splits)
  have anc: "py_path fx [''anchor''] = Some anc" if "anc \<noteq> PyNone"
    using py_get_item [OF g that] by simp
  have none: "\<not> anchored_before fx" if "anc = PyNone"
    using py_get_None_item [of fx "''anchor''"] g that by (auto simp: anchored_before_def)
  show ?thesis
    using a
  proof (cases rule: anchor_suites_cases)
    case (unbound c)
    then show ?thesis using none anc id by (cases "anc = PyNone") (auto simp: anchored_before_def)
  next
    case (existence_only cd i c)
    then show ?thesis using anc by (auto simp: anchored_before_def)
  next
    case (ordered cd i bt ot late)
    then show ?thesis using anc id by (auto simp: anchored_before_def)
  qed
qed

lemma overall_governed:
  assumes "verify_fixture u fx = Inr r"
  shows "overall_pass r \<longleftrightarrow> governed u fx"
  using assms
proof (cases rule: verify_fixture_parts)
  case (1 ce h env ch pre tm chn adm ev trust actor code anc ex prec)
  have env: "envelope_of fx h' \<longleftrightarrow> h' = h" for h'
    using envelope_suite_pass(1) [OF 1(2)] 1(1) by (auto simp: envelope_of_def)
  have ev: "py_path fx [''admission'', ''verdict_event''] = Some ev" using 1(7,8) by simp
  have chain: "chain_joined fx h \<longleftrightarrow> s_pass env = Some True \<and> s_pass chn = Some True"
    using envelope_suite_pass(2) [OF 1(2)] chain_suite_pass [OF 1(6)] 1(1,3,4,5) by (auto simp: chain_joined_def)
  have adm: "admitted u fx h \<longleftrightarrow> code = None"
    using admission_code_None [OF 1(11)] ev 1(3,4,9,10) by (auto simp: admitted_def)
  have anch: "anchored_before fx \<longleftrightarrow> s_pass ex = Some True \<and> s_pass prec = Some True"
    using anchor_pass [OF 1(13,12) ev] by simp
  show ?thesis
    by (simp add: 1(14,15) governed_def env chain adm anch)
qed

lemma overall_reason:
  assumes "verify_fixture u fx = Inr r"
  shows "overall_pass r \<longleftrightarrow> failure_reason r = None"
  using assms
proof (cases rule: verify_fixture_parts)
  case (1 ce h env ch pre tm chn adm ev trust actor code anc ex prec)
  obtain a where e: "env = mk_suite a (if a then None else Some ''envelope_hash_mismatch'')"
    using 1(2) by (auto simp: envelope_suite_def Let_def)
  obtain b where c: "chn = mk_suite b (if b then None else Some ''chain_join_failed'')"
    using 1(6) by (auto simp: chain_suite_def)
  have ss: "overall_pass r = (a \<and> b \<and> code = None \<and> s_pass ex = Some True \<and> s_pass prec = Some True)"
    by (simp add: 1(14,15) e c)
  have ff: "failure_reason r =
      (if \<not> a then Some ''envelope_hash_mismatch'' else if \<not> b then Some ''chain_join_failed''
       else if code \<noteq> None then code else if s_pass ex = Some False then s_code ex
       else if s_pass prec = Some False then s_code prec else None)"
    by (simp add: 1(14,16) e c first_fail_def)
  show ?thesis
    unfolding ss ff using 1(13) by (cases rule: anchor_suites_cases) simp_all
qed

lemma first_fail_single: "filter (\<lambda>x. s_pass (snd x) = Some False) ss = [x] \<Longrightarrow> first_fail ss = s_code (snd x)"
  by (simp add: first_fail_def)

subsection \<open>A sample fixture\<close>

lemma nostr_event_id_hex64: "nostr_event_id u ev = Inr h \<Longrightarrow> is_hex64 h"
  by (auto simp: nostr_event_id_def sha256_text_def)

lemma event_signature_valid_id:
  "event_signature_valid u ev \<Longrightarrow> \<exists>s. py_item ev ''id'' = Inr (PyStr s) \<and> nostr_event_id u ev = Inr s \<and> is_hex64 s"
  by (auto simp: event_signature_valid_def try_default_def py_eq_Str_left nostr_event_id_hex64 split: sum.splits if_splits)

definition sample_hash :: py where
  "sample_hash = PyStr (sha256_hex (utf8_total (U ''{}'')))"

definition sample_fixture :: py where
  "sample_fixture = PyDict
     [(U ''canonical_envelope'', PyDict [(U ''canonical_bytes_utf8'', S ''{}''), (U ''expected_envelope_hash'', sample_hash)]),
      (U ''chain'', PyDict
         [(U ''pre_action'', PyDict [(U ''envelope_hash'', sample_hash), (U ''action_ref'', S ''a1''), (U ''actor_pubkey'', S ''aa'')]),
          (U ''terminal'', PyDict [(U ''executed_envelope_hash'', sample_hash), (U ''action_ref'', S ''a1'')])]),
      (U ''admission'', PyDict [(U ''verdict_event'', PyDict [(U ''id'', S ''00''), (U ''pubkey'', S ''bb'')])]),
      (U ''trust_policy'', PyDict [(U ''independent_verifier_pubkeys'', PyList [S ''bb''])]),
      (U ''anchor'', PyDict
         [(U ''commitment_digest'', S ''00''), (U ''accepted_anchor_point'', PyDict [(U ''block_time'', PyInt 10)]),
          (U ''terminal_outcome_time'', PyInt 20)]),
      (U ''expected_overall'', S ''fail''), (U ''expected_failure_reason'', S ''admission_signature_invalid'')]"

lemma sample_signature: "\<not> event_signature_valid u (PyDict [(U ''id'', S ''00''), (U ''pubkey'', S ''bb'')])"
proof
  assume "event_signature_valid u (PyDict [(U ''id'', S ''00''), (U ''pubkey'', S ''bb'')])"
  from event_signature_valid_id [OF this] show False by (auto simp: is_hex64_def)
qed

lemma sample_verdict:
  "verify_fixture u sample_fixture = Inr
     \<lparr> overall_pass = False, failure_reason = Some ''admission_signature_invalid'',
       suites = [(''canonical_envelope'', mk_suite True None), (''chain_invariant'', mk_suite True None),
         (''admission_invariant'', mk_suite False (Some ''admission_signature_invalid'')),
         (''anchoring_existence'', mk_suite True None), (''anchoring_precedence'', mk_suite True None)],
       envelope_hash = sha256_hex (utf8_total (U ''{}'')) \<rparr>"
  by (simp add: verify_fixture_def sample_fixture_def sample_hash_def envelope_suite_def chain_suite_def admission_code_def
      sample_signature anchor_suites_def first_fail_def Let_def sha256_text_scalar py_sliceable_def lit_simps)

lemma sample_bar: "check_bar u sample_fixture = Inr None"
  by (simp add: check_bar_def sample_verdict) (simp add: sample_fixture_def lit_simps Let_def opt_code_def)

lemma sample_joined:
  "envelope_of sample_fixture (sha256_hex (utf8_total (U ''{}'')))" "chain_joined sample_fixture (sha256_hex (utf8_total (U ''{}'')))"
  by (auto simp: envelope_of_def chain_joined_def sample_fixture_def sample_hash_def sha256_text_scalar)

subsection \<open>The properties\<close>

text \<open>C1. The verifier refines the abstract contract: on every fixture it can read, the verdict is an overall pass exactly when the fixture is
  governed, that is one recomputed envelope hash is joined, admitted by an independent declared identity and anchored before the outcome.\<close>

theorem verify_fixture_refines:
  assumes "verify_fixture u fx = Inr r"
  shows "overall_pass r \<longleftrightarrow> governed u fx"
  using assms by (rule overall_governed)

theorem verify_fixture_refines_witness:
  "\<exists>r. verify_fixture sample_ucd sample_fixture = Inr r \<and> (overall_pass r \<longleftrightarrow> governed sample_ucd sample_fixture)"
  by (intro exI conjI, rule sample_verdict, rule verify_fixture_refines [OF sample_verdict])

text \<open>A passing verdict carries no failure reason and a failing one carries one: \<^verbatim>\<open>failure_reason\<close> alone tells the verdict.\<close>

lemma verdict_reason:
  assumes "verify_fixture u fx = Inr r"
  shows "overall_pass r \<longleftrightarrow> failure_reason r = None"
  using assms by (rule overall_reason)


text \<open>C38. Precedence is left unassessed exactly where existence has failed: one broken join, not two.\<close>

theorem precedence_assessed_iff_existence:
  assumes "verify_fixture u fx = Inr r"
  shows "\<exists>ex prec. map_of (suites r) ''anchoring_existence'' = Some ex \<and>
    map_of (suites r) ''anchoring_precedence'' = Some prec \<and>
    (s_pass prec = None \<longleftrightarrow> s_pass ex = Some False)"
  using assms
proof (cases rule: verify_fixture_parts)
  case (1 ce h env ch pre tm chn adm ev trust actor code anc ex prec)
  show ?thesis
    using 1(13) by (cases rule: anchor_suites_cases) (auto simp: 1(14))
qed

theorem precedence_assessed_iff_existence_witness:
  "\<exists>r. verify_fixture sample_ucd sample_fixture = Inr r \<and> (\<exists>ex prec. map_of (suites r) ''anchoring_existence'' = Some ex \<and>
    map_of (suites r) ''anchoring_precedence'' = Some prec \<and> (s_pass prec = None \<longleftrightarrow> s_pass ex = Some False))"
  by (rule exI, rule conjI, rule sample_verdict, rule precedence_assessed_iff_existence [OF sample_verdict])

text \<open>C10. The conformance bar: a fixture passes the harness exactly as its label says. One labelled \<^verbatim>\<open>pass\<close> is governed; one labelled otherwise is
  not, it breaks exactly one join, and the reason reported is both the code of that join and the declared \<^verbatim>\<open>expected_failure_reason\<close>.\<close>

theorem conformance_bar:
  assumes "check_bar u fx = Inr None" "verify_fixture u fx = Inr r"
  shows "if py_path fx [''expected_overall''] = Some (S ''pass'') then governed u fx
    else \<not> governed u fx \<and>
      (\<exists>name s. filter (\<lambda>x. s_pass (snd x) = Some False) (suites r) = [(name, s)] \<and>
        s_code s = failure_reason r \<and> py_path fx [''expected_failure_reason''] = Some (opt_code (failure_reason r)))"
proof -
  from assms obtain eo er where eo: "py_item fx ''expected_overall'' = Inr eo"
    and er: "py_get fx ''expected_failure_reason'' = Inr er"
    by (auto simp: check_bar_def)
  let ?broken = "filter (\<lambda>x. s_pass (snd x) = Some False) (suites r)"
  have g: "overall_pass r \<longleftrightarrow> governed u fx" by (rule overall_governed [OF assms(2)])
  have n: "overall_pass r \<longleftrightarrow> failure_reason r = None" by (rule overall_reason [OF assms(2)])
  have ff: "failure_reason r = first_fail (suites r)"
    using assms(2) by (cases rule: verify_fixture_parts)
  have p: "py_path fx [''expected_overall''] = Some eo" using eo by simp
  have c: "if eo = S ''pass'' then overall_pass r
     else \<not> overall_pass r \<and> py_eq (opt_code (failure_reason r)) er \<and> length ?broken = 1"
    using assms eo er by (auto simp: check_bar_def Let_def py_eq_Str_right split: if_splits)
  show ?thesis
  proof (cases "eo = S ''pass''")
    case True
    then show ?thesis using c g p by simp
  next
    case False
    with c have f: "\<not> overall_pass r" "py_eq (opt_code (failure_reason r)) er" "length ?broken = 1" by simp_all
    then obtain code where code: "failure_reason r = Some code" using n by auto
    with f(2) have "er = S code" by (simp add: opt_code_def py_eq_Str_left)
    then have "py_path fx [''expected_failure_reason''] = Some (opt_code (failure_reason r))"
      using py_get_item [OF er] code by (simp add: opt_code_def)
    moreover obtain x where "?broken = [x]" using f(3) by (auto simp: length_Suc_conv)
    ultimately show ?thesis
      using False f(1) g p ff first_fail_single [of "suites r" x] by (cases x) auto
  qed
qed

theorem conformance_bar_witness:
  "\<not> governed sample_ucd sample_fixture"
proof -
  have "py_path sample_fixture [''expected_overall''] \<noteq> Some (S ''pass'')"
    by (simp add: sample_fixture_def lit_simps)
  then show ?thesis using conformance_bar [OF sample_bar sample_verdict, of sample_ucd] by argo
qed

text \<open>Two fixtures whose pre-action records name one envelope hash have the same canonical bytes, or a collision is in hand.\<close>

lemma envelope_binding:
  assumes "envelope_of fx h" "chain_joined fx h" "envelope_of fx' h'" "chain_joined fx' h'"
    and "py_path fx [''chain'', ''pre_action'', ''envelope_hash''] = py_path fx' [''chain'', ''pre_action'', ''envelope_hash'']"
  shows "\<exists>s t a b. py_path fx [''canonical_envelope'', ''canonical_bytes_utf8''] = Some (PyStr s) \<and>
    py_path fx' [''canonical_envelope'', ''canonical_bytes_utf8''] = Some (PyStr t) \<and>
    utf8 s = Inr a \<and> utf8 t = Inr b \<and> (s = t \<or> collision a b)"
proof -
  from assms have "h = h'" by (auto simp: chain_joined_def)
  with assms(1,3) obtain s t where st: "py_path fx [''canonical_envelope'', ''canonical_bytes_utf8''] = Some (PyStr s)"
    "py_path fx' [''canonical_envelope'', ''canonical_bytes_utf8''] = Some (PyStr t)"
    "sha256_text s = Inr h" "sha256_text t = Inr h"
    unfolding envelope_of_def by blast
  then obtain a b where "utf8 s = Inr a" "utf8 t = Inr b" "sha256_hex a = sha256_hex b"
    by (auto simp: sha256_text_def)
  with st show ?thesis using sha256_hex_eq [of a b] utf8_inj by blast
qed


end
