(* ===== verification/Report.thy ===== *)
theory Report
  imports PyVal
begin

text \<open>
  Report lines of the checkers: every check is one of three results, and the exit code of a run is 1 if any check failed, else 2
  if any could not be established, else 0. The human-readable detail of a line is left out; its name is kept.
\<close>

datatype status = PASS | FAIL | CANNOT_ESTABLISH

type_synonym lines = "(status \<times> string) list"

definition pass_if :: "bool \<Rightarrow> string \<Rightarrow> status \<times> string" where
  "pass_if b name = (if b then PASS else FAIL, name)"

definition exit_of :: "lines \<Rightarrow> nat" where
  "exit_of ls = (if list_ex (\<lambda>l. fst l = FAIL) ls then 1 else if list_ex (\<lambda>l. fst l = CANNOT_ESTABLISH) ls then 2 else 0)"

lemma exit_of_append: "exit_of (xs @ ys) = 0 \<longleftrightarrow> exit_of xs = 0 \<and> exit_of ys = 0"
  by (auto simp: exit_of_def)

lemma exit_of_Cons [simp]: "exit_of (l # ls) = 0 \<longleftrightarrow> fst l = PASS \<and> exit_of ls = 0"
  by (cases "fst l") (auto simp: exit_of_def)

lemma exit_of_Nil [simp]: "exit_of [] = 0"
  by (simp add: exit_of_def)

lemma pass_if_simps [simp]: "fst (pass_if b n) = PASS \<longleftrightarrow> b" "snd (pass_if b n) = n" "fst (pass_if b n) \<noteq> CANNOT_ESTABLISH"
  by (auto simp: pass_if_def)

end
