(* ===== verification/Chains.thy ===== *)
theory Chains
  imports Commit Report
begin

text \<open>
  Hash-chained logs: \<^verbatim>\<open>tools/session_chain_check.py\<close> (internal consistency of a session history and its comparison with heads held by
  others) and \<^verbatim>\<open>examples/ledger-chain-continuity/check_chain_continuity.py\<close> (continuity of a ledger window). Both use one chain rule; the locale
  of hash chains is interpreted on it, so a head commits to the history behind it. Reasons are a datatype in place of the
  message texts, with the values the texts mention.
\<close>

section \<open>Chain hashes\<close>

text \<open>\<^verbatim>\<open>sha256(JSON(record, sort_keys, compact))\<close>, and \<^verbatim>\<open>sha256(f"{content_hash}|{prev_head_hash}")\<close>.\<close>

definition content_hash :: "py \<Rightarrow> ustr res" where
  "content_hash record = sha256_text (dumps_sorted record)"

definition head_hash :: "ucd \<Rightarrow> py \<Rightarrow> py \<Rightarrow> ustr res" where
  "head_hash u c_hash prev_head = sha256_text (py_str u c_hash @ [124] @ py_str u prev_head)"

section \<open>Session chains\<close>

datatype chain_reason =
    NotConsecutive nat py py | ContentAltered py | BadLink py | BadHead py
  | TruncatedLog py py | HeadDiffers py | NotAttached py py | PrecedesSegment py | EmptyLog | NoComparableHead

text \<open>The body of the loop over the entries: \<open>before\<close> is \<^verbatim>\<open>entries[i - 1]\<close> for \<open>i > 0\<close>.\<close>

definition chain_step :: "ucd \<Rightarrow> nat \<Rightarrow> py option \<Rightarrow> py \<Rightarrow> py \<Rightarrow> (chain_reason list \<times> py) res" where
  "chain_step u i before prev e =
     bnd (py_item e ''chain'') (\<lambda>c.
     bnd (case before of
            None \<Rightarrow> Inr []
          | Some b \<Rightarrow>
              bnd (py_item e ''entry'') (\<lambda>n. bnd (py_item b ''entry'') (\<lambda>m. bnd (py_add m 1) (\<lambda>m1.
                Inr (if py_eq n m1 then [] else [NotConsecutive i m n]))))) (\<lambda>w1.
     bnd (py_item e ''record'') (\<lambda>r.
     bnd (content_hash r) (\<lambda>h.
     bnd (py_item c ''content_hash'') (\<lambda>ch.
     bnd (if py_eq (PyStr h) ch then Inr [] else bnd (py_item e ''entry'') (\<lambda>n. Inr [ContentAltered n])) (\<lambda>w2.
     bnd (py_item c ''prev_head_hash'') (\<lambda>ph.
     bnd (if py_eq ph prev then Inr [] else bnd (py_item e ''entry'') (\<lambda>n. Inr [BadLink n])) (\<lambda>w3.
     bnd (head_hash u ch ph) (\<lambda>hh.
     bnd (py_item c ''head_hash'') (\<lambda>head.
     bnd (if py_eq (PyStr hh) head then Inr [] else bnd (py_item e ''entry'') (\<lambda>n. Inr [BadHead n])) (\<lambda>w4.
       Inr (w1 @ w2 @ w3 @ w4, head))))))))))))"

fun chain_loop :: "ucd \<Rightarrow> nat \<Rightarrow> py option \<Rightarrow> py \<Rightarrow> py list \<Rightarrow> chain_reason list res" where
  "chain_loop u i before prev [] = Inr []"
| "chain_loop u i before prev (e # es) =
     bnd (chain_step u i before prev e) (\<lambda>(w, head). bnd (chain_loop u (Suc i) (Some e) head es) (\<lambda>ws. Inr (w @ ws)))"

text \<open>A dictionary keyed by entry numbers: a later equal key replaces an earlier one.\<close>

definition key_lookup :: "(py \<times> py) list \<Rightarrow> py \<Rightarrow> py option res" where
  "key_lookup kvs k =
     (if hashable k then Inr (map_option snd (find (\<lambda>kv. py_eq k (fst kv)) (rev kvs))) else Inl TypeError)"

definition entry_head :: "py \<Rightarrow> (py \<times> py) res" where
  "entry_head e =
     bnd (py_item e ''entry'') (\<lambda>n.
     bnd (bnd (py_item e ''chain'') (\<lambda>c. py_item c ''head_hash'')) (\<lambda>h.
       if hashable n then Inr (n, h) else Inl TypeError))"

text \<open>The body of the loop over the external heads: the reason it adds, and whether the segment is anchored below.\<close>

definition head_step :: "(py \<times> py) list \<Rightarrow> py \<Rightarrow> py \<Rightarrow> py \<Rightarrow> chain_reason list \<times> bool \<Rightarrow> py \<Rightarrow> (chain_reason list \<times> bool) res" where
  "head_step by_entry first final seg_prev st h =
     bnd (py_item h ''entry'') (\<lambda>n.
     bnd (py_item h ''head_hash'') (\<lambda>hh.
     bnd (py_lt final n) (\<lambda>beyond.
       if beyond then Inr (fst st @ [TruncatedLog n final], snd st)
       else
         bnd (key_lookup by_entry n) (\<lambda>found.
           if (case found of Some v \<Rightarrow> \<not> py_eq v hh | None \<Rightarrow> False) then Inr (fst st @ [HeadDiffers n], snd st)
           else
             bnd (py_add first (- 1)) (\<lambda>below.
               if py_eq n below then
                 (if py_eq hh seg_prev then Inr (fst st, True) else Inr (fst st @ [NotAttached n first], snd st))
               else if found = None then Inr (fst st @ [PrecedesSegment n], snd st)
               else Inr st)))))"

fun fatal_reason :: "chain_reason \<Rightarrow> bool" where
  "fatal_reason (TruncatedLog n l) = True"
| "fatal_reason (HeadDiffers n) = True"
| "fatal_reason (NotAttached n f) = True"
| "fatal_reason _ = False"

definition compare_heads :: "(py \<times> py) list \<Rightarrow> py \<Rightarrow> py \<Rightarrow> py \<Rightarrow> py list \<Rightarrow> (status \<times> chain_reason list) res" where
  "compare_heads by_entry first final seg_prev heads =
     bnd (fold_r (head_step by_entry first final seg_prev) ([], False) heads) (\<lambda>(why, anchored).
     if list_ex fatal_reason why then Inr (FAIL, why)
     else
       bnd (filter_r (\<lambda>h. bnd (py_item h ''entry'') (\<lambda>n. bnd (key_lookup by_entry n) (\<lambda>f. Inr (f \<noteq> None)))) heads) (\<lambda>comparable.
       if comparable = [] then Inr (CANNOT_ESTABLISH, why @ [NoComparableHead])
       else bnd (if anchored then Inr () else py_sliceable seg_prev) (\<lambda>_. Inr (PASS, why))))"

definition session_check :: "ucd \<Rightarrow> py list \<Rightarrow> py list \<Rightarrow> (status \<times> chain_reason list) res" where
  "session_check u entries external_heads =
     (if entries = [] then Inr (CANNOT_ESTABLISH, [EmptyLog])
      else
        bnd (bnd (py_item (hd entries) ''chain'') (\<lambda>c. py_item c ''prev_head_hash'')) (\<lambda>seg_prev.
        bnd (chain_loop u 0 None seg_prev entries) (\<lambda>why.
        if why \<noteq> [] then Inr (FAIL, why)
        else
          bnd (map_r entry_head entries) (\<lambda>by_entry.
            compare_heads by_entry (fst (hd by_entry)) (fst (last by_entry)) seg_prev external_heads))))"

fun chain_exit :: "status \<Rightarrow> nat" where
  "chain_exit PASS = 0"
| "chain_exit FAIL = 1"
| "chain_exit CANNOT_ESTABLISH = 2"

definition session_main :: "ucd \<Rightarrow> py list \<Rightarrow> py list \<Rightarrow> nat res" where
  "session_main u entries heads = bnd (session_check u entries heads) (\<lambda>(res, why). Inr (chain_exit res))"

section \<open>Ledger continuity\<close>

record link_report =
  l_entry :: py
  l_content_hash_ok :: bool
  l_prev_link_ok :: bool
  l_head_hash_ok :: bool

definition l_sound :: "link_report \<Rightarrow> bool" where
  "l_sound r \<longleftrightarrow> l_content_hash_ok r \<and> l_prev_link_ok r \<and> l_head_hash_ok r"

definition ledger_step :: "ucd \<Rightarrow> py \<Rightarrow> py \<Rightarrow> (link_report \<times> py) res" where
  "ledger_step u prev_ok_head e =
     bnd (py_item e ''chain'') (\<lambda>chain.
     bnd (bnd (py_item e ''record'') content_hash) (\<lambda>h.
     bnd (py_item chain ''content_hash'') (\<lambda>ch.
     bnd (if prev_ok_head = PyNone then Inr True
          else bnd (py_item chain ''prev_head_hash'') (\<lambda>ph. Inr (py_eq ph prev_ok_head))) (\<lambda>linked.
     bnd (py_item chain ''prev_head_hash'') (\<lambda>ph.
     bnd (head_hash u ch ph) (\<lambda>hh.
     bnd (py_item chain ''head_hash'') (\<lambda>head.
     bnd (py_item e ''entry'') (\<lambda>n.
       Inr (\<lparr> l_entry = n, l_content_hash_ok = py_eq (PyStr h) ch, l_prev_link_ok = linked,
              l_head_hash_ok = py_eq (PyStr hh) head \<rparr>, head)))))))))"

fun ledger_loop :: "ucd \<Rightarrow> py \<Rightarrow> py list \<Rightarrow> link_report list res" where
  "ledger_loop u prev [] = Inr []"
| "ledger_loop u prev (e # es) = bnd (ledger_step u prev e) (\<lambda>(r, head). bnd (ledger_loop u head es) (\<lambda>rs. Inr (r # rs)))"

definition check_sequence :: "ucd \<Rightarrow> py list \<Rightarrow> (link_report list \<times> bool) res" where
  "check_sequence u entries = bnd (ledger_loop u PyNone entries) (\<lambda>rs. Inr (rs, list_all l_sound rs))"

text \<open>\<^verbatim>\<open>main\<close> on the entries in their order: the sequence is continuous, and without its second entry the seam is caught.\<close>

definition continuity_main :: "ucd \<Rightarrow> py list \<Rightarrow> nat res" where
  "continuity_main u entries =
     (if entries = [] then Inr 2
      else
        bnd (check_sequence u entries) (\<lambda>(rs, continuous).
        if length entries < 3 then Inr 2
        else
          bnd (check_sequence u (take 1 entries @ drop 2 entries)) (\<lambda>(ss, _).
            let caught = \<not> l_sound (ss ! 1) \<and> \<not> l_prev_link_ok (ss ! 1)
            in Inr (if continuous \<and> caught then 0 else 1))))"

section \<open>Heads commit to histories\<close>
definition chead_text :: "ustr \<Rightarrow> py \<Rightarrow> ustr" where
  "chead_text p r = sha256_hex (utf8_total (dumps_sorted r)) @ [124] @ p"

definition chead :: "ustr \<Rightarrow> py \<Rightarrow> ustr" where
  "chead p r = sha256_hex (utf8_total (chead_text p r))"

definition chain_record :: "py \<Rightarrow> bool" where
  "chain_record r \<longleftrightarrow> json_plain r \<and> scalar_str (dumps_sorted r)"



lemma chead_scalar: "scalar_str (chead p r)"
  by (simp add: chead_def hex64_scalar)


definition entry_head_hash :: "py \<Rightarrow> py res" where
  "entry_head_hash e = bnd (py_item e ''chain'') (\<lambda>c. py_item c ''head_hash'')"

definition entry_prev_hash :: "py \<Rightarrow> py res" where
  "entry_prev_hash e = bnd (py_item e ''chain'') (\<lambda>c. py_item c ''prev_head_hash'')"

text \<open>The record, the link and the head of one entry agree, on top of the head \<open>p\<close>.\<close>

definition linked :: "ustr \<Rightarrow> py \<Rightarrow> py \<Rightarrow> bool" where
  "linked p e r \<longleftrightarrow> py_item e ''record'' = Inr r \<and> scalar_str (dumps_sorted r) \<and> scalar_str p \<and>
     (\<exists>c. py_item e ''chain'' = Inr c \<and> py_item c ''content_hash'' = Inr (PyStr (sha256_hex (utf8_total (dumps_sorted r)))) \<and>
        py_item c ''prev_head_hash'' = Inr (PyStr p) \<and> py_item c ''head_hash'' = Inr (PyStr (chead p r)))"

fun linked_all :: "ustr \<Rightarrow> py list \<Rightarrow> py list \<Rightarrow> bool" where
  "linked_all p [] [] \<longleftrightarrow> True"
| "linked_all p (e # es) (r # rs) \<longleftrightarrow> linked p e r \<and> linked_all (chead p r) es rs"
| "linked_all p _ _ \<longleftrightarrow> False"

lemma content_hash_Inr: "content_hash r = Inr h \<longleftrightarrow> scalar_str (dumps_sorted r) \<and> h = sha256_hex (utf8_total (dumps_sorted r))"
  by (auto simp: content_hash_def sha256_text_def utf8_def)

lemma head_hash_Inr:
  "head_hash u (PyStr (sha256_hex (utf8_total (dumps_sorted r)))) (PyStr p) = Inr h \<longleftrightarrow> scalar_str p \<and> h = chead p r"
  by (auto simp: head_hash_def sha256_text_def utf8_def chead_def chead_text_def hex64_scalar)

lemma chain_step_linked:
  assumes "chain_step u i b (PyStr p) e = Inr ([], head)"
  shows "\<exists>r. linked p e r \<and> head = PyStr (chead p r)"
  using assms
  by (auto simp: chain_step_def linked_def entry_prev_hash_def entry_head_hash_def py_eq_Str_left py_eq_Str_right
      content_hash_Inr head_hash_Inr split: if_splits)

lemma chain_loop_linked:
  "chain_loop u i b (PyStr p) es = Inr [] \<Longrightarrow> \<exists>rs. linked_all p es rs"
proof (induction es arbitrary: i b p)
  case Nil
  have "linked_all p [] []" by simp
  then show ?case by blast
next
  case (Cons e es)
  then obtain head where h: "chain_step u i b (PyStr p) e = Inr ([], head)" "chain_loop u (Suc i) (Some e) head es = Inr []"
    by auto
  from chain_step_linked [OF h(1)] obtain r where r: "linked p e r" "head = PyStr (chead p r)" by blast
  from Cons.IH [OF h(2) [unfolded r(2)]] obtain rs where "linked_all (chead p r) es rs" by blast
  with r have "linked_all p (e # es) (r # rs)" by simp
  then show ?case by blast
qed



lemma session_parts:
  assumes "session_check u es hs = Inr (res, why)" "res \<noteq> FAIL" "es \<noteq> []"
  obtains seg_prev by_entry where "entry_prev_hash (hd es) = Inr seg_prev" "chain_loop u 0 None seg_prev es = Inr []"
    "map_r entry_head es = Inr by_entry"
    "compare_heads by_entry (fst (hd by_entry)) (fst (last by_entry)) seg_prev hs = Inr (res, why)"
proof -
  from assms(1,3) obtain sp w where s: "entry_prev_hash (hd es) = Inr sp" "chain_loop u 0 None sp es = Inr w"
    and r: "(if w \<noteq> [] then Inr (FAIL, w) else bnd (map_r entry_head es) (\<lambda>by_entry.
       compare_heads by_entry (fst (hd by_entry)) (fst (last by_entry)) sp hs)) = Inr (res, why)"
    unfolding session_check_def entry_prev_hash_def by (auto simp: bnd_eq_Inr)
  from r assms(2) have w: "w = []" by (cases w) auto
  with r obtain be where "map_r entry_head es = Inr be" "compare_heads be (fst (hd be)) (fst (last be)) sp hs = Inr (res, why)"
    by auto
  with s w that show ?thesis by blast
qed


lemma session_linked:
  assumes "session_check u es hs = Inr (res, why)" "res \<noteq> FAIL" "es \<noteq> []" "entry_prev_hash (hd es) = Inr (PyStr p)"
  obtains rs where "linked_all p es rs" "scalar_str p"
proof -
  from session_parts [OF assms(1-3)] assms(4) have "chain_loop u 0 None (PyStr p) es = Inr []"
    by (metis sum.inject(2))
  from chain_loop_linked [OF this] obtain rs where rs: "linked_all p es rs" by blast
  then have "scalar_str p" using assms(3) by (cases es; cases rs) (auto simp: linked_def)
  with rs that show ?thesis by blast
qed

text \<open>What an external head must satisfy for the log not to be refuted.\<close>

definition head_fits :: "(py \<times> py) list \<Rightarrow> py \<Rightarrow> py \<Rightarrow> bool" where
  "head_fits by_entry final h \<longleftrightarrow>
     (\<exists>n hh f. py_item h ''entry'' = Inr n \<and> py_item h ''head_hash'' = Inr hh \<and> py_lt final n = Inr False \<and>
        key_lookup by_entry n = Inr f \<and> (\<forall>v. f = Some v \<longrightarrow> py_eq v hh))"

lemma head_step_fits:
  assumes "head_step be first final sp st h = Inr st'" "\<not> list_ex fatal_reason (fst st')"
  shows "\<not> list_ex fatal_reason (fst st) \<and> head_fits be final h"
proof -
  obtain ws anc where st: "st = (ws, anc)" by (cases st)
  from assms(1) obtain n hh b where n: "py_item h ''entry'' = Inr n" "py_item h ''head_hash'' = Inr hh" "py_lt final n = Inr b"
    unfolding head_step_def bnd_eq_Inr by blast
  have b: "b = False" using assms by (auto simp: head_step_def n)
  with assms(1) obtain f where f: "key_lookup be n = Inr f"
    by (auto simp: head_step_def n)
  have v: "\<forall>v. f = Some v \<longrightarrow> py_eq v hh" 
    using assms by (auto simp: head_step_def n f b split: if_splits)
  have "\<not> list_ex fatal_reason (fst st)"
    using assms v by (auto simp: head_step_def n f b st split: if_splits option.splits)
  with n f v b show ?thesis unfolding head_fits_def by blast
qed

lemma head_fold_fits:
  assumes "fold_r (head_step be first final sp) st hs = Inr st'" "\<not> list_ex fatal_reason (fst st')"
  shows "\<not> list_ex fatal_reason (fst st) \<and> (\<forall>h \<in> set hs. head_fits be final h)"
  using assms
proof (induction hs arbitrary: st)
  case (Cons h hs)
  then obtain s1 where s: "head_step be first final sp st h = Inr s1" "fold_r (head_step be first final sp) s1 hs = Inr st'" by auto
  from Cons.IH [OF s(2) Cons.prems(2)] head_step_fits [OF s(1)] show ?case by auto
qed simp

lemma ledger_step_linked:
  assumes "linked p e r" "prev = PyNone \<or> prev = PyStr p" "py_item e ''entry'' = Inr n"
  shows "ledger_step u prev e = Inr (\<lparr> l_entry = n, l_content_hash_ok = True, l_prev_link_ok = True, l_head_hash_ok = True \<rparr>, PyStr (chead p r))"
proof -
  from assms(1) obtain c where c: "py_item e ''record'' = Inr r" "scalar_str (dumps_sorted r)" "scalar_str p"
    "py_item e ''chain'' = Inr c" "py_item c ''content_hash'' = Inr (PyStr (sha256_hex (utf8_total (dumps_sorted r))))"
    "py_item c ''prev_head_hash'' = Inr (PyStr p)" "py_item c ''head_hash'' = Inr (PyStr (chead p r))"
    by (auto simp: linked_def)
  have h: "content_hash r = Inr (sha256_hex (utf8_total (dumps_sorted r)))" using c(2) by (simp add: content_hash_Inr)
  have hh: "head_hash u (PyStr (sha256_hex (utf8_total (dumps_sorted r)))) (PyStr p) = Inr (chead p r)" using c(3) by (simp add: head_hash_Inr)
  show ?thesis
    unfolding ledger_step_def c bnd_Inr h hh assms(3) using assms(2) by (auto simp: py_eq_Str_left)
qed

lemma ledger_loop_linked:
  "linked_all p es rs \<Longrightarrow> prev = PyNone \<or> prev = PyStr p \<Longrightarrow> \<forall>e \<in> set es. \<exists>n. py_item e ''entry'' = Inr n \<Longrightarrow>
    \<exists>ls. ledger_loop u prev es = Inr ls \<and> list_all l_sound ls"
proof (induction p es rs arbitrary: prev rule: linked_all.induct)
  case (2 p e es r rs)
  then obtain n where n: "py_item e ''entry'' = Inr n" by auto
  from "2.IH" [of "PyStr (chead p r)"] "2.prems" obtain ls where "ledger_loop u (PyStr (chead p r)) es = Inr ls" "list_all l_sound ls" by auto
  with ledger_step_linked [OF _ "2.prems"(2) n, of r u] "2.prems"(1) show ?case by (auto simp: l_sound_def [of "\<lparr> l_entry = n, l_content_hash_ok = True, l_prev_link_ok = True, l_head_hash_ok = True \<rparr>"])
qed auto

definition end_head :: "py \<Rightarrow> py list \<Rightarrow> py" where
  "end_head p xs = (if xs = [] then p else projr (entry_head_hash (last xs)))"

lemma ledger_step_head: "ledger_step u p e = Inr (r, h) \<Longrightarrow> entry_head_hash e = Inr h"
  by (auto simp: ledger_step_def entry_head_hash_def)

lemma ledger_loop_append:
  "ledger_loop u p (xs @ ys) = Inr rs \<Longrightarrow>
    \<exists>r1 r2. rs = r1 @ r2 \<and> length r1 = length xs \<and> ledger_loop u (end_head p xs) ys = Inr r2"
proof (induction xs arbitrary: p rs)
  case (Cons x xs)
  then obtain r h rs' where s: "ledger_step u p x = Inr (r, h)" "ledger_loop u h (xs @ ys) = Inr rs'" "rs = r # rs'" by auto
  from Cons.IH [OF s(2)] obtain r1 r2 where r: "rs' = r1 @ r2" "length r1 = length xs" "ledger_loop u (end_head h xs) ys = Inr r2" by blast
  have "end_head p (x # xs) = end_head h xs" using ledger_step_head [OF s(1)] by (simp add: end_head_def)
  with s(3) r show ?case by (intro exI [of _ "r # r1"] exI [of _ r2]) simp
qed (simp add: end_head_def)

lemma ledger_step_sound:
  "ledger_step u p e = Inr (r, h) \<Longrightarrow> l_sound r \<Longrightarrow> \<exists>s. h = PyStr s"
  by (auto simp: ledger_step_def l_sound_def py_eq_Str_left)

lemma ledger_step_link:
  "ledger_step u p e = Inr (r, h) \<Longrightarrow> p \<noteq> PyNone \<Longrightarrow> \<exists>ph. entry_prev_hash e = Inr ph \<and> l_prev_link_ok r = py_eq ph p"
  by (auto simp: ledger_step_def entry_prev_hash_def)

section \<open>Samples\<close>

definition sample_rec :: py where
  "sample_rec = PyDict [(U ''v'', PyInt 1)]"

definition sample_entry :: "int \<Rightarrow> ustr \<Rightarrow> py" where
  "sample_entry n p = PyDict [(U ''entry'', PyInt n), (U ''record'', sample_rec),
     (U ''chain'', PyDict [(U ''content_hash'', PyStr (sha256_hex (utf8_total (dumps_sorted sample_rec)))),
        (U ''prev_head_hash'', PyStr p), (U ''head_hash'', PyStr (chead p sample_rec))])]"


lemma sample_rec_ok: "chain_record sample_rec"
  using scalar_dumps [of sample_rec True] by (simp add: chain_record_def sample_rec_def nat_dec.simps)



lemma sample_ledger_step:
  assumes "scalar_str p"
  shows "ledger_step u prev (sample_entry n p) =
     Inr (\<lparr> l_entry = PyInt n, l_content_hash_ok = True, l_prev_link_ok = (prev = PyNone \<or> prev = PyStr p), l_head_hash_ok = True \<rparr>,
          PyStr (chead p sample_rec))"
proof -
  have h: "content_hash sample_rec = Inr (sha256_hex (utf8_total (dumps_sorted sample_rec)))"
    using sample_rec_ok by (simp add: content_hash_Inr chain_record_def)
  have hh: "head_hash u (PyStr (sha256_hex (utf8_total (dumps_sorted sample_rec)))) (PyStr p) = Inr (chead p sample_rec)"
    using assms by (simp add: head_hash_Inr)
  show ?thesis
    unfolding ledger_step_def sample_entry_def by (simp add: h hh py_eq_Str_left)
qed

section \<open>The properties\<close>



text \<open>External heads decide the result: a log that is not refuted fits every external head supplied (none beyond its end, none with
  another hash for an entry it holds), and it passes exactly when some external head is for one of its entries. In particular
  it never passes without one, so a truncated tail cannot pass.\<close>

lemma session_external_heads:
  assumes "session_check u es hs = Inr (res, why)" "res \<noteq> FAIL" "es \<noteq> []"
  shows "\<exists>be. map_r entry_head es = Inr be \<and> (\<forall>h \<in> set hs. head_fits be (fst (last be)) h) \<and>
    (res = PASS \<longleftrightarrow> (\<exists>h \<in> set hs. \<exists>n v. py_item h ''entry'' = Inr n \<and> key_lookup be n = Inr (Some v)))"
proof -
  from session_parts [OF assms] obtain sp be where be: "map_r entry_head es = Inr be"
    "compare_heads be (fst (hd be)) (fst (last be)) sp hs = Inr (res, why)" by blast
  from be(2) obtain w anc where f: "fold_r (head_step be (fst (hd be)) (fst (last be)) sp) ([], False) hs = Inr (w, anc)"
    and r: "(if list_ex fatal_reason w then Inr (FAIL, w)
     else bnd (filter_r (\<lambda>h. bnd (py_item h ''entry'') (\<lambda>n. bnd (key_lookup be n) (\<lambda>f. Inr (f \<noteq> None)))) hs) (\<lambda>comparable.
       if comparable = [] then Inr (CANNOT_ESTABLISH, w @ [NoComparableHead])
       else bnd (if anc then Inr () else py_sliceable sp) (\<lambda>_. Inr (PASS, w)))) = Inr (res, why)"
    unfolding compare_heads_def by (auto simp: bnd_eq_Inr)
  from r assms(2) have nf: "\<not> list_ex fatal_reason w" by (auto split: if_splits)
  from head_fold_fits [OF f] nf have fit: "\<forall>h \<in> set hs. head_fits be (fst (last be)) h" by simp
  let ?c = "\<lambda>h. \<exists>n v. py_item h ''entry'' = Inr n \<and> key_lookup be n = Inr (Some v)"
  have c: "bnd (py_item h ''entry'') (\<lambda>n. bnd (key_lookup be n) (\<lambda>f. Inr (f \<noteq> None))) = Inr (?c h)" if "h \<in> set hs" for h
    using bspec [OF fit that] by (auto simp: head_fits_def)
  have "filter_r (\<lambda>h. bnd (py_item h ''entry'') (\<lambda>n. bnd (key_lookup be n) (\<lambda>f. Inr (f \<noteq> None)))) hs = Inr (filter ?c hs)"
    using c by (intro filter_r_values) blast
  with r nf have "res = PASS \<longleftrightarrow> filter ?c hs \<noteq> []" by (auto split: if_splits)
  with be(1) fit show ?thesis by (auto simp: filter_empty_conv)
qed

text \<open>The two checkers agree: a session log that is not refuted is a continuous ledger.\<close>

lemma session_continuous:
  assumes "session_check u es hs = Inr (res, why)" "res \<noteq> FAIL" "es \<noteq> []" "entry_prev_hash (hd es) = Inr (PyStr p)"
  shows "\<exists>ls. check_sequence u es = Inr (ls, True)"
proof -
  obtain rs where rs: "linked_all p es rs" using session_linked [OF assms] .
  from session_parts [OF assms(1-3)] obtain be where be: "map_r entry_head es = Inr be" by blast
  have "\<exists>n. py_item e ''entry'' = Inr n" if "e \<in> set es" for e
    using map_r_raises [OF be that] by (auto simp: entry_head_def)
  with ledger_loop_linked [OF rs, of PyNone u] show ?thesis by (auto simp: check_sequence_def)
qed

text \<open>An omitted entry is caught at the seam: leaving one entry out of a continuous sequence breaks the link of the entry behind it,
  unless the heads before and after the omitted entry are equal.\<close>

lemma omission_detected:
  assumes "check_sequence u (xs @ a # b # c # ys) = Inr (rs, True)" "check_sequence u (xs @ a # c # ys) = Inr (ss, ok)"
  shows "entry_head_hash a = entry_head_hash b \<or> \<not> ok \<and> \<not> l_prev_link_ok (ss ! Suc (length xs))"
proof (cases "entry_head_hash a = entry_head_hash b")
  case differ: False
  from assms(1) have l: "ledger_loop u PyNone (xs @ a # b # c # ys) = Inr rs" "list_all l_sound rs"
    by (auto simp: check_sequence_def)
  from assms(2) have m: "ledger_loop u PyNone (xs @ a # c # ys) = Inr ss" "ok = list_all l_sound ss"
    by (auto simp: check_sequence_def)
  from ledger_loop_append [OF l(1)] obtain r1 r2 where r: "rs = r1 @ r2" "ledger_loop u (end_head PyNone xs) (a # b # c # ys) = Inr r2" by blast
  then obtain ra rb rc r3 ha hb hc where s: "ledger_step u (end_head PyNone xs) a = Inr (ra, ha)" "ledger_step u ha b = Inr (rb, hb)"
    "ledger_step u hb c = Inr (rc, hc)" "r2 = ra # rb # rc # r3"
    by auto
  have snd: "l_sound ra" "l_sound rb" "l_sound rc" using l(2) r(1) s(4) by auto
  obtain sa sb where h: "ha = PyStr sa" "hb = PyStr sb" using ledger_step_sound s(1,2) snd(1,2) by meson
  obtain ph where ph: "entry_prev_hash c = Inr ph" "py_eq ph hb"
    using ledger_step_link [OF s(3)] h(2) snd(3) by (auto simp: l_sound_def)
  have ne: "sa \<noteq> sb" using differ ledger_step_head [OF s(1)] ledger_step_head [OF s(2)] h by auto
  from ledger_loop_append [OF m(1)] obtain t1 t2 where t: "ss = t1 @ t2" "length t1 = length xs" "ledger_loop u (end_head PyNone xs) (a # c # ys) = Inr t2" by blast
  with s(1) obtain tc t3 where tc: "\<exists>h. ledger_step u ha c = Inr (tc, h)" "t2 = ra # tc # t3" by auto
  then obtain ph' where "entry_prev_hash c = Inr ph'" "l_prev_link_ok tc = py_eq ph' ha"
    using ledger_step_link h(1) by blast
  with ph h ne have "\<not> l_prev_link_ok tc" by (auto simp: py_eq_Str_right)
  then show ?thesis using t(1,2) tc(2) m(2) by (auto simp: nth_append l_sound_def)
qed simp

lemma omission_detected_instance:
  "\<exists>a b c ss ok. check_sequence sample_ucd ([] @ [a, c]) = Inr (ss, ok) \<and>
    (entry_head_hash a = entry_head_hash b \<or> \<not> ok \<and> \<not> l_prev_link_ok (ss ! Suc (length ([] :: py list))))"
proof -
  define p1 where "p1 = chead (U ''g'') sample_rec"
  define p2 where "p2 = chead p1 sample_rec"
  have s: "scalar_str p1" "scalar_str p2" by (simp_all add: p1_def p2_def chead_scalar)
  let ?a = "sample_entry 1 (U ''g'')" and ?b = "sample_entry 2 p1" and ?c = "sample_entry 3 p2"
  have "\<exists>rs. check_sequence sample_ucd ([] @ ?a # ?b # ?c # []) = Inr (rs, True)"
    using s by (simp add: check_sequence_def sample_ledger_step l_sound_def p1_def [symmetric] p2_def [symmetric])
  moreover obtain ss ok where o: "check_sequence sample_ucd ([] @ ?a # ?c # []) = Inr (ss, ok)"
    using s by (simp add: check_sequence_def sample_ledger_step)
  ultimately show ?thesis using omission_detected [OF _ o, of ?b] by blast
qed

end
