(* ===== verification/Ed25519.thy ===== *)
theory Ed25519
  imports Commit
begin

text \<open>
  \<^verbatim>\<open>tools/_ed25519.py\<close>: Ed25519 verification (RFC 8032, 5.1.7) in extended coordinates, with the rejection of small-order and
  mixed-order points. Scalar multiplication is the square-and-multiply loop of the prelude over point addition.
\<close>

unbundle bit_operations_syntax

section \<open>The curve\<close>

definition ed_p :: int where
  "ed_p = 2 ^ 255 - 19"

definition ed_L :: int where
  "ed_L = 2 ^ 252 + 27742317777372353535851937790883648493"

definition ed_d :: int where
  "ed_d = - 121665 * powmod 121666 (nat (ed_p - 2)) ed_p mod ed_p"

definition ed_I :: int where
  "ed_I = powmod 2 (nat ((ed_p - 1) div 4)) ed_p"

definition xrecover :: "int \<Rightarrow> int res" where
  "xrecover y =
     (let xx = (y * y - 1) * powmod (ed_d * y * y + 1) (nat (ed_p - 2)) ed_p;
          x = powmod xx (nat ((ed_p + 3) div 8)) ed_p;
          x' = (if (x * x - xx) mod ed_p \<noteq> 0 then x * ed_I mod ed_p else x)
      in if (x' * x' - xx) mod ed_p \<noteq> 0 then Inl ValueError else Inr x')"

text \<open>Extended coordinates.\<close>

type_synonym ext_point = "int \<times> int \<times> int \<times> int"

definition ed_By :: int where
  "ed_By = 4 * powmod 5 (nat (ed_p - 2)) ed_p mod ed_p"

text \<open>The base point, computed when the module is loaded.\<close>

definition ed_B :: "ext_point res" where
  "ed_B =
     bnd (xrecover ed_By) (\<lambda>x.
       let x' = (if x mod 2 = 1 then ed_p - x else x) in Inr (x', ed_By, 1, x' * ed_By mod ed_p))"

definition ed_add :: "ext_point \<Rightarrow> ext_point \<Rightarrow> ext_point" where
  "ed_add P Q =
     (let (x1, y1, z1, t1) = P; (x2, y2, z2, t2) = Q;
          a = (y1 - x1) * (y2 - x2) mod ed_p;
          b = (y1 + x1) * (y2 + x2) mod ed_p;
          c = 2 * t1 * t2 * ed_d mod ed_p;
          dd = 2 * z1 * z2 mod ed_p;
          e = b - a; f = dd - c; g = dd + c; h = b + a
      in (e * f mod ed_p, g * h mod ed_p, f * g mod ed_p, e * h mod ed_p))"

definition ed_O :: ext_point where
  "ed_O = (0, 1, 1, 0)"

text \<open>The loop of \<^verbatim>\<open>_mul\<close> is the one of \<^verbatim>\<open>pow\<close> over point addition.\<close>

definition ed_mul :: "nat \<Rightarrow> ext_point \<Rightarrow> ext_point" where
  "ed_mul s P = sq_mult ed_add ed_O P s"

definition ed_eq :: "ext_point \<Rightarrow> ext_point \<Rightarrow> bool" where
  "ed_eq P Q \<longleftrightarrow>
     (let (x1, y1, z1, t1) = P; (x2, y2, z2, t2) = Q
      in (x1 * z2 - x2 * z1) mod ed_p = 0 \<and> (y1 * z2 - y2 * z1) mod ed_p = 0)"

definition ed_decode :: "bytes \<Rightarrow> ext_point res" where
  "ed_decode b =
     (if length b \<noteq> 32 then Inl ValueError
      else
        let y = int_of_le b AND (push_bit 255 1 - 1)
        in if ed_p \<le> y then Inl ValueError
           else
             bnd (xrecover y) (\<lambda>x.
               let sign = uint (drop_bit 7 (b ! 31))
               in if x = 0 \<and> sign \<noteq> 0 then Inl ValueError
                  else
                    let x' = (if x mod 2 \<noteq> sign then ed_p - x else x)
                    in Inr (x', y, 1, x' * y mod ed_p)))"

definition is_small_order :: "ext_point \<Rightarrow> bool" where
  "is_small_order P \<longleftrightarrow> ed_eq (ed_mul 8 P) ed_O"

definition is_torsion_free :: "ext_point \<Rightarrow> bool" where
  "is_torsion_free P \<longleftrightarrow> ed_eq (ed_mul (nat ed_L) P) ed_O"

definition is_mixed_order_key :: "bytes \<Rightarrow> bool" where
  "is_mixed_order_key public_key =
     try_default (bnd (ed_decode public_key) (\<lambda>P. Inr (\<not> is_small_order P \<and> \<not> is_torsion_free P))) False"

text \<open>\<^verbatim>\<open>i.to_bytes(n, "little")\<close>.\<close>

fun le_bytes :: "nat \<Rightarrow> int \<Rightarrow> bytes" where
  "le_bytes 0 i = []"
| "le_bytes (Suc n) i = word_of_int i # le_bytes n (i div 256)"

definition to_bytes_le :: "nat \<Rightarrow> int \<Rightarrow> bytes res" where
  "to_bytes_le n i = (if 0 \<le> i \<and> i < 256 ^ n then Inr (le_bytes n i) else Inl OverflowError)"

definition ed_encode :: "ext_point \<Rightarrow> bytes res" where
  "ed_encode P =
     (let (X, Y, Z, T) = P; zi = powmod Z (nat (ed_p - 2)) ed_p; x = X * zi mod ed_p; y = Y * zi mod ed_p
      in to_bytes_le 32 (y OR push_bit 255 (x AND 1)))"

definition is_small_order_key :: "bytes \<Rightarrow> bool" where
  "is_small_order_key public_key = try_default (bnd (ed_decode public_key) (\<lambda>P. Inr (is_small_order P))) False"

definition ed_verify :: "bytes \<Rightarrow> bytes \<Rightarrow> bytes \<Rightarrow> bool" where
  "ed_verify public_key message signature =
     try_default
       (if length signature \<noteq> 64 then Inr False
        else
          bnd (ed_decode public_key) (\<lambda>A.
          bnd (ed_decode (take 32 signature)) (\<lambda>R.
            if is_small_order A \<or> is_small_order R then Inr False
            else if \<not> is_torsion_free A \<or> \<not> is_torsion_free R then Inr False
            else
              let s = int_of_le (drop 32 signature)
              in if ed_L \<le> s then Inr False
                 else
                   let h = int_of_le (sha512 (take 32 signature @ public_key @ message)) mod ed_L
                   in bnd ed_B (\<lambda>B. Inr (ed_eq (ed_mul (nat s) B) (ed_add R (ed_mul (nat h) A))))))) False"

section \<open>Encoding\<close>

lemma int_of_le_Cons [simp]: "int_of_le (b # bs) = 256 * int_of_le bs + uint b"
  by (simp add: int_of_le_def)

lemma int_of_le_Nil [simp]: "int_of_le [] = 0"
  by (simp add: int_of_le_def)

lemma int_of_le_bounds: "0 \<le> int_of_le bs \<and> int_of_le bs < 256 ^ length bs"
  using int_of_be_bounds [of "rev bs"] by (simp add: int_of_le_def)

lemma le_bytes_int_of_le: "le_bytes (length bs) (int_of_le bs) = bs"
proof (induction bs)
  case (Cons b bs)
  have "word_of_int (256 * int_of_le bs + uint b) = b"
    by (rule word_uint_eqI, subst uint_word_of_int) (use uint_byte_bounds [of b] in simp)
  moreover have "(256 * int_of_le bs + uint b) div 256 = int_of_le bs"
    using uint_byte_bounds [of b] by simp
  ultimately show ?case using Cons by simp
qed simp

lemma ed_p_pos [simp]: "0 < ed_p" "ed_p < 2 ^ 255" "odd ed_p" "1 < ed_p"
  by (simp_all add: ed_p_def)

lemma xrecover_range:
  assumes "xrecover y = Inr x"
  shows "0 \<le> x \<and> x < ed_p"
proof -
  define xx where "xx = (y * y - 1) * powmod (ed_d * y * y + 1) (nat (ed_p - 2)) ed_p"
  define z where "z = powmod xx (nat ((ed_p + 3) div 8)) ed_p"
  define w where "w = (if (z * z - xx) mod ed_p \<noteq> 0 then z * ed_I mod ed_p else z)"
  have "xrecover y = (if (w * w - xx) mod ed_p \<noteq> 0 then Inl ValueError else Inr w)"
    unfolding xrecover_def Let_def xx_def z_def w_def by (rule refl)
  with assms have "x = w" by (simp only: sum.simps split: if_splits)
  moreover have "0 \<le> z" "z < ed_p" unfolding z_def powmod_eq by simp_all
  ultimately show ?thesis unfolding w_def by (simp only: pos_mod_sign pos_mod_bound ed_p_pos split: if_split) simp
qed

lemma int_of_le_append: "int_of_le (xs @ ys) = int_of_le xs + 256 ^ length xs * int_of_le ys"
  by (induction xs) (simp_all add: algebra_simps)

lemma int_of_le_split:
  assumes "length b = 32"
  shows "int_of_le b = int_of_le b mod 2 ^ 255 + 2 ^ 255 * uint (drop_bit 7 (b ! 31))"
proof -
  obtain xs c where b: "b = xs @ [c]" "length xs = 31"
    using assms by (cases b rule: rev_cases) auto
  define lo hi where "lo = uint c mod 2 ^ 7" and "hi = uint (drop_bit 7 c)"
  have c: "uint c = lo + 2 ^ 7 * hi" "0 \<le> lo" "lo \<le> 127"
    using pos_mod_bound [of 128 "uint c"] by (simp_all add: lo_def hi_def drop_bit_eq_div uint_div_distrib)
  have "int_of_le b = 2 ^ 255 * hi + (int_of_le xs + 2 ^ 248 * lo)"
    using b c(1) by (simp add: int_of_le_append)
  moreover have "0 \<le> int_of_le xs \<and> int_of_le xs < 2 ^ 248"
    using int_of_le_bounds [of xs] b by simp
  ultimately have "int_of_le b div 2 ^ 255 = hi"
    using c(2,3) by (intro int_div_pos_eq) (assumption, simp_all)
  then show ?thesis
    using mod_mult_div_eq [of "int_of_le b" "2 ^ 255"] b by (simp only: hi_def nth_append) simp
qed

lemma sign_bit: "uint (drop_bit 7 (c :: byte)) \<in> {0, 1}"
proof -
  have "uint (drop_bit 7 c) = uint c div 128" by (simp add: drop_bit_eq_div uint_div_distrib)
  then show ?thesis using uint_byte_bounds [of c] by auto
qed

lemma mask_255: "i AND (push_bit 255 1 - 1) = (i :: int) mod 2 ^ 255"
  using take_bit_eq_mask [of 255 i] by (simp add: mask_eq_exp_minus_1 take_bit_eq_mod)

lemma or_top_bit: "0 \<le> y \<Longrightarrow> y < 2 ^ 255 \<Longrightarrow> y OR push_bit 255 s = y + 2 ^ 255 * (s :: int)"
  using concat_bit_eq [of 255 y s] concat_bit_def [of 255 y s] by (simp add: take_bit_int_eq_self push_bit_eq_mult)

lemma ed_decode_parts:
  assumes "ed_decode b = Inr P"
  obtains x where "length b = 32" "0 \<le> x" "x < ed_p" "x mod 2 = uint (drop_bit 7 (b ! 31))"
    "0 \<le> int_of_le b mod 2 ^ 255" "int_of_le b mod 2 ^ 255 < ed_p"
    "P = (x, int_of_le b mod 2 ^ 255, 1, x * (int_of_le b mod 2 ^ 255) mod ed_p)"
proof -
  define y where "y = int_of_le b mod 2 ^ 255"
  define sg where "sg = uint (drop_bit 7 (b ! 31))"
  have l: "length b = 32" and yp: "y < ed_p"
    using assms unfolding ed_decode_def Let_def mask_255 y_def [symmetric] by (auto split: if_splits)
  have "ed_decode b = bnd (xrecover y) (\<lambda>x. if x = 0 \<and> sg \<noteq> 0 then Inl ValueError
      else let x' = (if x mod 2 \<noteq> sg then ed_p - x else x) in Inr (x', y, 1, x' * y mod ed_p))"
    using l yp unfolding ed_decode_def Let_def mask_255 y_def [symmetric] sg_def [symmetric] by simp
  with assms obtain x where x0: "xrecover y = Inr x" "(if x = 0 \<and> sg \<noteq> 0 then Inl ValueError
      else let x' = (if x mod 2 \<noteq> sg then ed_p - x else x) in Inr (x', y, 1, x' * y mod ed_p)) = Inr P"
    by (simp only: bnd_eq_Inr) blast
  define x' where "x' = (if x mod 2 \<noteq> sg then ed_p - x else x)"
  have x: "xrecover y = Inr x" "\<not> (x = 0 \<and> sg \<noteq> 0)"
    "x' = (if x mod 2 \<noteq> sg then ed_p - x else x)" "P = (x', y, 1, x' * y mod ed_p)"
    using x0 unfolding Let_def x'_def [symmetric] by (cases "x = 0 \<and> sg \<noteq> 0"; simp add: x'_def)+
  have r: "0 \<le> x" "x < ed_p" using xrecover_range [OF x(1)] by auto
  have "ed_p mod 2 = 1" using ed_p_pos(3) by presburger
  moreover have s: "sg = 0 \<or> sg = 1" using sign_bit [of "b ! 31"] by (simp add: sg_def)
  ultimately have par: "x' mod 2 = sg" unfolding x(3) by presburger
  have "x \<noteq> 0" if "x mod 2 \<noteq> sg" using that x(2) s by auto
  then have "0 \<le> x'" "x' < ed_p" using r unfolding x(3) by (cases "x mod 2 \<noteq> sg"; simp)+
  moreover have "0 \<le> y" unfolding y_def by simp
  ultimately show ?thesis using that [of x'] l yp par x(4) unfolding y_def sg_def by blast
qed

lemma sample_identity: "ed_decode (1 # replicate 31 0) = Inr ed_O"
proof -
  have z: "int_of_le (replicate n 0) = 0" for n by (induction n) simp_all
  have "powmod 0 (nat ((ed_p + 3) div 8)) ed_p = 0" by (simp add: powmod_eq ed_p_def)
  then have x: "xrecover 1 = Inr 0" by (simp add: xrecover_def)
  have p: "\<not> ed_p \<le> 1" by (simp add: ed_p_def)
  have v: "int_of_le (1 # replicate 31 0) mod 2 ^ 255 = 1" by (simp add: z)
  have s: "(1 # replicate 31 0) ! 31 = (0 :: byte)" by simp
  show ?thesis
    unfolding ed_decode_def Let_def mask_255 v s using x p by (simp add: ed_O_def)
qed

text \<open>The multiples of the identity, in whatever scaling of the coordinates.\<close>

definition is_neutral :: "ext_point \<Rightarrow> bool" where
  "is_neutral P \<longleftrightarrow> (\<exists>k. P = (0, k, k, 0))"

lemma ed_add_neutral: "is_neutral P \<Longrightarrow> is_neutral Q \<Longrightarrow> is_neutral (ed_add P Q)"
  unfolding is_neutral_def
proof (elim exE)
  fix k l assume e: "P = (0, k, k, 0)" "Q = (0, l, l, 0)"
  have "ed_add P Q = (0, 4 * (k * l) * (k * l) mod ed_p, 4 * (k * l) * (k * l) mod ed_p, 0)"
  proof -
    have 1: "2 * k * l mod ed_p * (2 * (k * l mod ed_p)) mod ed_p = 4 * (k * l) * (k * l) mod ed_p"
    proof -
      have "2 * k * l mod ed_p * (2 * (k * l mod ed_p)) mod ed_p = 2 * k * l * 2 * (k * l mod ed_p) mod ed_p"
        by (simp only: mod_mult_left_eq mult.assoc)
      also have "\<dots> = 2 * k * l * 2 * (k * l) mod ed_p" by (rule mod_mult_right_eq)
      finally show ?thesis by (simp add: algebra_simps)
    qed
    have 2: "2 * k * l mod ed_p * (2 * k * l mod ed_p) mod ed_p = 4 * (k * l) * (k * l) mod ed_p"
      by (simp only: mod_mult_eq) (simp add: algebra_simps)
    have 3: "ed_add P Q = (0, 2 * k * l mod ed_p * (2 * (k * l mod ed_p)) mod ed_p, 2 * k * l mod ed_p * (2 * k * l mod ed_p) mod ed_p, 0)"
      unfolding e ed_add_def prod.case Let_def by simp
    show ?thesis unfolding 3 1 2 ..
  qed
  then show "\<exists>m. ed_add P Q = (0, m, m, 0)" by blast
qed

lemma sample_weak: "is_small_order_key (1 # replicate 31 0)"
proof -
  have "is_neutral (ed_mul 8 ed_O)"
    unfolding ed_mul_def by (rule sq_mult_closed [of is_neutral], erule (1) ed_add_neutral) (auto simp: is_neutral_def ed_O_def)
  then show ?thesis
    by (auto simp: is_small_order_key_def sample_identity is_small_order_def is_neutral_def ed_O_def ed_eq_def)
qed

text \<open>C34. Decoding is canonical: a byte string that decodes is the encoding of the point it decodes to, so no point has two accepted
  encodings.\<close>

theorem ed_encode_decode:
  assumes "ed_decode b = Inr P"
  shows "ed_encode P = Inr b"
  using assms
proof (rule ed_decode_parts)
  fix x
  let ?y = "int_of_le b mod 2 ^ 255"
  assume a: "length b = 32" "0 \<le> x" "x < ed_p" "x mod 2 = uint (drop_bit 7 (b ! 31))" "0 \<le> ?y" "?y < ed_p"
    "P = (x, ?y, 1, x * ?y mod ed_p)"
  have one: "powmod 1 n ed_p = 1" for n by (simp add: powmod_eq)
  have "?y < 2 ^ 255" by simp
  then have "?y OR push_bit 255 (x AND 1) = int_of_le b"
    using int_of_le_split [OF a(1)] a(4,5) by (simp only: or_top_bit and_one_eq)
  then have "ed_encode P = to_bytes_le 32 (int_of_le b)"
    using a by (simp add: ed_encode_def one)
  also have "\<dots> = Inr b"
    using int_of_le_bounds [of b] le_bytes_int_of_le [of b] a(1) by (simp add: to_bytes_le_def)
  finally show ?thesis .
qed

theorem ed_encode_decode_witness: "ed_encode ed_O = Inr (1 # replicate 31 0)"
  by (rule ed_encode_decode [OF sample_identity])

text \<open>C31. A key of small order, or of mixed order, verifies no signature over any message.\<close>

theorem ed_verify_rejects_weak_keys:
  assumes "is_small_order_key pk \<or> is_mixed_order_key pk"
  shows "\<not> ed_verify pk message signature"
  using assms
  by (auto simp: ed_verify_def is_small_order_key_def is_mixed_order_key_def try_default_def Let_def split: sum.splits)

theorem ed_verify_rejects_weak_keys_witness: "\<not> ed_verify (1 # replicate 31 0) [] (1 # replicate 63 0)"
  using ed_verify_rejects_weak_keys [of "1 # replicate 31 0"] sample_weak by blast

end
