(* ===== verification/Markers.thy ===== *)
theory Markers
  imports Bip340 Ed25519 Report
begin

text \<open>
  The marker checkers of \<^verbatim>\<open>tools/\<close>: issuer profiles and their two signature envelopes (\<^verbatim>\<open>issuer_profile.py\<close>), the vantage limitation
  (\<^verbatim>\<open>vantage_limitation_check.py\<close>), related claims (\<^verbatim>\<open>related_claims_check.py\<close>) and chains of decision references
  (\<^verbatim>\<open>proof_chain_check.py\<close>). Files are arguments; the note table shipped with the tools is an argument too.
\<close>

section \<open>Issuer profiles\<close>

datatype profile_error =
    NotJson | WrongSchema | BadEnvelope | BadKeys | LabelsNotJws | BadLabels | NoPreimageMember | BadArtifactTypes | BadNotes

definition envelopes :: "py list" where
  "envelopes = [S ''nip01-schnorr'', S ''jws-eddsa'']"

definition default_profile :: "py \<Rightarrow> py res" where
  "default_profile notes =
     bnd (py_item notes ''irreversible_artifact_types'') (\<lambda>types.
     bnd (py_item notes ''policies'') (\<lambda>policies.
       Inr (PyDict
         [(U ''schema'', S ''trace-issuer-profile.v1''), (U ''issuer'', S ''invinoveritas''), (U ''envelope'', S ''nip01-schnorr''),
          (U ''keys'', PyList [PyStr published_pubkey]),
          (U ''nip01'', PyDict [(U ''kinds'', PyList [PyInt 30078]), (U ''schema_prefix'', S ''invinoveritas.'')]),
          (U ''preimage_member'', S ''decision_ref_preimage_fields''),
          (U ''irreversible_artifact_types'', types), (U ''notes_by_policy'', policies)])))"

definition key_text :: "py \<Rightarrow> bool" where
  "key_text k = (case k of PyStr s \<Rightarrow> length s = 64 | _ \<Rightarrow> False)"

definition lower_text :: "ucd \<Rightarrow> py \<Rightarrow> ustr" where
  "lower_text u v = (case v of PyStr s \<Rightarrow> u_lower u s | _ \<Rightarrow> [])"

text \<open>\<^verbatim>\<open>load_profile\<close> on the bytes of a profile file; a \<^verbatim>\<open>ProfileError\<close> is on the left.\<close>

definition load_profile :: "ucd \<Rightarrow> bytes \<Rightarrow> profile_error + pydict" where
  "load_profile u raw =
     (case json_loads_bytes raw of
        Inl _ \<Rightarrow> Inl NotJson
      | Inr (PyDict p) \<Rightarrow>
          if dget p ''schema'' \<noteq> S ''trace-issuer-profile.v1'' then Inl WrongSchema
          else if \<not> py_in (dget p ''envelope'') envelopes then Inl BadEnvelope
          else
            (case dget p ''keys'' of
               PyList keys \<Rightarrow>
                 if \<not> (keys \<noteq> [] \<and> list_all key_text keys) then Inl BadKeys
                 else
                   let labels = dget p ''kid_labels'';
                       known = map (lower_text u) keys
                   in if labels \<noteq> PyNone \<and> dget p ''envelope'' \<noteq> S ''jws-eddsa'' then Inl LabelsNotJws
                      else if labels \<noteq> PyNone \<and>
                        \<not> (case labels of
                             PyDict ls \<Rightarrow> list_all (\<lambda>ab. is_str (snd ab) \<and> lower_text u (snd ab) \<in> set known) ls
                           | _ \<Rightarrow> False) then Inl BadLabels
                      else if \<not> (is_str (dget p ''preimage_member'') \<and> dget p ''preimage_member'' \<noteq> PyStr []) then Inl NoPreimageMember
                      else if \<not> is_list (dget p ''irreversible_artifact_types'') then Inl BadArtifactTypes
                      else if \<not> is_dict (dget p ''notes_by_policy'') then Inl BadNotes
                      else Inr p
             | _ \<Rightarrow> Inl BadKeys)
      | Inr _ \<Rightarrow> Inl WrongSchema)"

text \<open>\<^verbatim>\<open>envelope_label\<close> reads the envelope of a profile that is given.\<close>

definition envelope_label :: "py option \<Rightarrow> unit res" where
  "envelope_label profile = (case profile of None \<Rightarrow> Inr () | Some p \<Rightarrow> bnd (py_item p ''envelope'') (\<lambda>_. Inr ()))"

definition b64url :: "ustr \<Rightarrow> bytes res" where
  "b64url s = urlsafe_b64decode (s @ replicate ((4 - length s mod 4) mod 4) 61)"

datatype env_why = NoReason | NotEvent | FailedChecks "string list" | NotJws | WrongAlg | UnknownKid | BadSignature | Malformed exn

record env_result =
  ev_valid :: bool
  ev_payload :: py
  ev_why :: env_why

definition env_reject :: "env_why \<Rightarrow> env_result" where
  "env_reject w = \<lparr> ev_valid = False, ev_payload = PyNone, ev_why = w \<rparr>"

definition dict_or_none :: "py \<Rightarrow> py" where
  "dict_or_none v = (if is_dict v then v else PyNone)"

text \<open>The NIP-01 branch.\<close>

definition verify_nip01 :: "ucd \<Rightarrow> ustr list \<Rightarrow> py \<Rightarrow> pydict \<Rightarrow> env_result res" where
  "verify_nip01 u keys profile ev =
     bnd (nostr_event_id u (PyDict ev)) (\<lambda>eid.
     bnd (py_item (PyDict ev) ''id'') (\<lambda>i.
     bnd (py_item (PyDict ev) ''pubkey'') (\<lambda>pk.
     bnd (py_item (PyDict ev) ''content'') (\<lambda>content.
       let id_ok = (u_lower u eid = u_lower u (py_str u i));
           sig_ok = try_default (event_schnorr u ev) False;
           key_ok = u_lower u (strip u (py_str u pk)) \<in> set keys;
           payload = try_default (json_loads (py_str u content)) PyNone
       in
       bnd (py_get profile ''nip01'') (\<lambda>nip0.
       let nip = py_or nip0 (PyDict []) in
       bnd (bnd (py_item (PyDict ev) ''kind'') (py_int u)) (\<lambda>kind.
       bnd (py_get_default nip ''kinds'' (PyList [PyInt kind])) (\<lambda>kinds.
       bnd (py_contains kinds (PyInt kind)) (\<lambda>kind_ok.
       bnd (py_get nip ''schema_prefix'') (\<lambda>prefix.
       let schema = (case payload of PyDict d \<Rightarrow> dget_default d ''schema'' (PyStr []) | _ \<Rightarrow> PyStr []) in
       bnd (if \<not> kind_ok then Inr False
            else if prefix = PyNone then Inr True
            else case schema of
                PyStr s \<Rightarrow> bnd (as_str TypeError prefix) (\<lambda>pre. Inr (startswith s pre))
              | _ \<Rightarrow> Inr False) (\<lambda>shape_ok.
         let valid = (id_ok \<and> sig_ok \<and> key_ok \<and> shape_ok)
         in Inr \<lparr> ev_valid = valid, ev_payload = dict_or_none payload,
                  ev_why = (if valid then NoReason
                    else FailedChecks (map fst (filter (\<lambda>x. \<not> snd x)
                      [(''id'', id_ok), (''sig'', sig_ok), (''key'', key_ok), (''kind/schema'', shape_ok)]))) \<rparr>))))))))))"

text \<open>The JWS branch, on a record whose three members are strings.\<close>

definition verify_jws :: "ucd \<Rightarrow> ustr list \<Rightarrow> py \<Rightarrow> ustr \<Rightarrow> ustr \<Rightarrow> ustr \<Rightarrow> env_result res" where
  "verify_jws u keys profile protected payload signature =
     bnd (bnd (b64url protected) json_loads_bytes) (\<lambda>header.
     bnd (py_get header ''alg'') (\<lambda>alg.
     if \<not> py_eq alg (S ''EdDSA'') then Inr (env_reject WrongAlg)
     else
       bnd (py_get_default header ''kid'' (PyStr [])) (\<lambda>kid0.
       let kid = py_str u kid0 in
       bnd (py_get profile ''kid_labels'') (\<lambda>labels0.
       let labels = py_or labels0 (PyDict []) in
       bnd (py_contains labels (PyStr kid)) (\<lambda>labelled.
       bnd (if labelled
            then (case labels of PyDict ls \<Rightarrow> bnd (as_str AttributeError (the (map_of ls kid))) (\<lambda>k. Inr (u_lower u k)) | _ \<Rightarrow> Inl TypeError)
            else Inr (u_lower u kid)) (\<lambda>kid'.
       if kid' \<notin> set keys then Inr (env_reject UnknownKid)
       else
         bnd (ascii_encode (protected @ [46] @ payload)) (\<lambda>signing_input.
         bnd (fromhex kid') (\<lambda>key.
         bnd (b64url signature) (\<lambda>sg.
         if \<not> ed_verify key signing_input sg then Inr (env_reject BadSignature)
         else
           bnd (bnd (b64url payload) json_loads_bytes) (\<lambda>p.
             Inr \<lparr> ev_valid = is_dict p, ev_payload = dict_or_none p, ev_why = NoReason \<rparr>))))))))))"

definition verify_envelope :: "ucd \<Rightarrow> py \<Rightarrow> py \<Rightarrow> env_result res" where
  "verify_envelope u record profile =
     bnd (py_item profile ''envelope'') (\<lambda>env.
     bnd (py_item profile ''keys'') (\<lambda>ks.
     bnd (case ks of PyList l \<Rightarrow> map_r (\<lambda>k. bnd (as_str AttributeError k) (\<lambda>s. Inr (u_lower u s))) l | _ \<Rightarrow> Inl TypeError) (\<lambda>keys.
       let body =
         (if env = S ''nip01-schnorr'' then
            (case record of
               PyDict ev \<Rightarrow>
                 if list_ex (\<lambda>k. py_in (dget ev k) [PyNone, PyStr []])
                      [''id'', ''pubkey'', ''created_at'', ''kind'', ''content'', ''sig'']
                 then Inr (env_reject NotEvent) else verify_nip01 u keys profile ev
             | _ \<Rightarrow> Inr (env_reject NotEvent))
          else
            (case record of
               PyDict d \<Rightarrow>
                 (case (dget d ''protected'', dget d ''payload'', dget d ''signature'') of
                    (PyStr a, PyStr b, PyStr c) \<Rightarrow> verify_jws u keys profile a b c
                  | _ \<Rightarrow> Inr (env_reject NotJws))
             | _ \<Rightarrow> Inr (env_reject NotJws)))
       in Inr (case body of Inl e \<Rightarrow> env_reject (Malformed e) | Inr r \<Rightarrow> r))))"

text \<open>\<^verbatim>\<open>_verify\<close>: without a profile the proof verifier, else the envelope of the profile. The verdict, and the payload or \<^verbatim>\<open>None\<close>.\<close>

definition verify_with :: "ucd \<Rightarrow> py \<Rightarrow> py option \<Rightarrow> (bool \<times> py) res" where
  "verify_with u record profile =
     (case profile of
        None \<Rightarrow>
          (let v = verify_proof u record published_pubkey
           in Inr (pr_valid v, case pr_payload v of None \<Rightarrow> PyNone | Some p \<Rightarrow> p))
      | Some p \<Rightarrow> bnd (verify_envelope u record p) (\<lambda>v. Inr (ev_valid v, ev_payload v)))"

section \<open>The vantage limitation\<close>

text \<open>\<^verbatim>\<open>d.get(k)\<close> with a key that is a value.\<close>

definition py_get_key :: "py \<Rightarrow> py \<Rightarrow> py res" where
  "py_get_key v k = (case v of PyDict d \<Rightarrow> dget_key d k | _ \<Rightarrow> Inl AttributeError)"

definition vantage_profile :: "py \<Rightarrow> py option \<Rightarrow> py res" where
  "vantage_profile notes profile =
     (case profile of
        Some p \<Rightarrow> Inr p
      | None \<Rightarrow>
          bnd (py_item notes ''irreversible_artifact_types'') (\<lambda>types.
          bnd (py_item notes ''policies'') (\<lambda>policies.
            Inr (PyDict [(U ''irreversible_artifact_types'', types), (U ''preimage_member'', S ''decision_ref_preimage_fields''),
                         (U ''notes_by_policy'', policies)]))))"

definition vantage_note_lines :: "py \<Rightarrow> py \<Rightarrow> py \<Rightarrow> py \<Rightarrow> lines res" where
  "vantage_note_lines prof pv sc presented =
     bnd (bnd (py_item prof ''notes_by_policy'') (\<lambda>notes. py_get_key notes pv)) (\<lambda>table.
     if table = PyNone then Inr [(CANNOT_ESTABLISH, ''exact wording'')]
     else
       bnd (py_get_key table sc) (\<lambda>expected.
         Inr (if expected = PyNone then [(FAIL, ''source_class has a defined note'')]
              else [pass_if (py_eq presented expected) ''note == NOTE[policy][source_class]''])))"

definition vantage_check :: "ucd \<Rightarrow> py \<Rightarrow> py \<Rightarrow> py option \<Rightarrow> lines res" where
  "vantage_check u notes event profile =
     bnd (verify_with u event profile) (\<lambda>(valid, payload).
     bnd (vantage_profile notes profile) (\<lambda>prof.
     bnd (envelope_label profile) (\<lambda>_.
     let p = py_or payload (PyDict []) in
     bnd (py_get p ''policy_version'') (\<lambda>pv.
     bnd (py_get p ''source_class'') (\<lambda>sc.
     bnd (py_get p ''artifact_type'') (\<lambda>at.
     bnd (py_get p ''vantage_limitation'') (\<lambda>presented.
     bnd (bnd (py_item prof ''irreversible_artifact_types'') (\<lambda>types. py_contains types at)) (\<lambda>irreversible.
     bnd (bnd (py_item prof ''preimage_member'') (py_get_key p)) (\<lambda>declared.
     bnd (py_contains (py_or declared (PyList [])) (S ''vantage_limitation'')) (\<lambda>bound.
       let head = [pass_if valid ''proof valid'', pass_if bound ''vantage_limitation is inside the preimage'']
       in if \<not> irreversible then Inr (head @ [pass_if (presented = PyNone) ''note must be absent''])
          else
            bnd (vantage_note_lines prof pv sc presented) (\<lambda>ls.
              Inr (head @ [pass_if (presented \<noteq> PyNone) ''note must be present''] @ ls))))))))))))"

text \<open>The exit code over all the events: a failure outweighs what cannot be established.\<close>

definition worst_of :: "nat \<Rightarrow> lines \<Rightarrow> nat" where
  "worst_of worst ls = (case exit_of ls of 0 \<Rightarrow> worst | Suc 0 \<Rightarrow> 1 | _ \<Rightarrow> if worst = 0 then 2 else worst)"

definition vantage_main :: "ucd \<Rightarrow> py \<Rightarrow> py option \<Rightarrow> py list \<Rightarrow> nat res" where
  "vantage_main u notes profile events =
     (if events = [] then Inr 2
      else bnd (map_r (\<lambda>e. vantage_check u notes e profile) events) (\<lambda>rs. Inr (foldl worst_of 0 rs)))"

section \<open>Related claims\<close>

definition allowed_keys :: "ustr list" where
  "allowed_keys = map U [''artifact_hash'', ''verdict'', ''verified_at'', ''policy_version'', ''decision_ref'']"

definition claim_results :: "py list" where
  "claim_results = [S ''not_supplied'', S ''missing_proof'', S ''unverifiable_proof'', S ''matched'', S ''mismatched'']"

definition known_comparison_versions :: "py list" where
  "known_comparison_versions = [S ''related-claims-eq-v1'']"

definition new_fields :: "string list" where
  "new_fields = [''related_claims_hash'', ''related_claims_result'', ''related_claims_comparison_version'']"

definition claim_value_ok :: "py \<Rightarrow> bool" where
  "claim_value_ok v =
     (case v of
        PyStr s \<Rightarrow> list_all (\<lambda>c. 32 \<le> c \<and> c < 127) s
      | PyInt i \<Rightarrow> \<bar>i\<bar> \<le> 2 ^ 53 - 1
      | _ \<Rightarrow> False)"

definition jcs_dumps :: "pydict \<Rightarrow> bytes res" where
  "jcs_dumps claims = (if list_all (\<lambda>kv. claim_value_ok (snd kv)) claims then utf8 (dumps_sorted (PyDict claims)) else Inl ValueError)"

definition claim_restated :: "pydict \<Rightarrow> ustr \<times> py \<Rightarrow> bool" where
  "claim_restated inner kv =
     (case map_of inner (fst kv) of None \<Rightarrow> False | Some w \<Rightarrow> py_eq w (snd kv) \<and> type_tag w = type_tag (snd kv))"

definition expected_result :: "pydict \<Rightarrow> pydict \<Rightarrow> string" where
  "expected_result claims inner = (if list_all (claim_restated inner) claims then ''matched'' else ''mismatched'')"

text \<open>From the comparison of hashes on, with the claims a non-empty object inside the grammar.\<close>

definition claims_hash_lines :: "pydict \<Rightarrow> pydict \<Rightarrow> lines res" where
  "claims_hash_lines claims op =
     (case jcs_dumps claims of
        Inl e \<Rightarrow> if is_value_error e then Inr [(CANNOT_ESTABLISH, ''claims hash'')] else Inl e
      | Inr b \<Rightarrow> Inr [pass_if (py_eq (PyStr (U ''sha256:'' @ sha256_hex b)) (dget op ''related_claims_hash'')) ''claims hash''])"

definition inner_missing :: "bool \<Rightarrow> string \<Rightarrow> lines" where
  "inner_missing complete name = (if complete then [(FAIL, ''referenced proof is in the set'')] else [(CANNOT_ESTABLISH, name)])"

definition claims_result_lines :: "ucd \<Rightarrow> bool \<Rightarrow> pydict \<Rightarrow> py option \<Rightarrow> py option \<Rightarrow> pydict \<Rightarrow> lines res" where
  "claims_result_lines u complete op inner inner_profile claims =
     (let result = dget op ''related_claims_result'' in
      if result = S ''missing_proof'' then Inr [pass_if (dget op ''related_decision_ref'' = PyNone) ''missing_proof: no reference'']
      else if result = S ''unverifiable_proof'' then
        (let l = pass_if (dget op ''related_decision_ref'' = PyNone) ''unverifiable_proof: no reference''
         in case inner of
              None \<Rightarrow> Inr (l # inner_missing complete ''the referenced proof fails'')
            | Some ev \<Rightarrow> bnd (verify_with u ev inner_profile) (\<lambda>(valid, _). Inr [l, pass_if (\<not> valid) ''the inner event fails'']))
      else if result \<noteq> S ''matched'' \<and> result \<noteq> S ''mismatched'' then Inr [(FAIL, ''not a comparison outcome'')]
      else
        (case inner of
           None \<Rightarrow> Inr (inner_missing complete ''recompute the comparison'')
         | Some ev \<Rightarrow>
             bnd (verify_with u ev inner_profile) (\<lambda>(valid, payload).
             bnd (envelope_label inner_profile) (\<lambda>_.
             (case py_or payload (PyDict []) of
                PyDict ip \<Rightarrow>
                  Inr [pass_if valid ''inner proof valid'',
                       pass_if (py_eq (dget op ''related_decision_ref'') (dget ip ''decision_ref'')) ''referenced proof identity'',
                       pass_if (S (expected_result claims ip) = result) ''recomputed comparison'']
              | _ \<Rightarrow> Inl AttributeError)))))"

definition related_body :: "ucd \<Rightarrow> bool \<Rightarrow> pydict \<Rightarrow> py option \<Rightarrow> py \<Rightarrow> py option \<Rightarrow> lines res" where
  "related_body u complete op inner claims inner_profile =
     (let result = dget op ''related_claims_result'';
          state = pass_if (py_in result claim_results) ''result is a defined state''
      in
      if claims = PyNone then
        Inr [state, pass_if (result = S ''not_supplied'' \<and> dget op ''related_claims_hash'' = PyNone) ''not_supplied with no hash'']
      else
        (case claims of
           PyDict cs \<Rightarrow>
             if list_ex (\<lambda>kv. fst kv \<notin> set allowed_keys) cs \<or> cs = [] then Inr [state, (FAIL, ''claims grammar'')]
             else
               bnd (claims_hash_lines cs op) (\<lambda>hash.
               let cv = dget op ''related_claims_comparison_version''
               in if \<not> py_in cv known_comparison_versions
                  then Inr ([state, (PASS, ''claims grammar'')] @ hash @ [(CANNOT_ESTABLISH, ''comparison version'')])
                  else
                    bnd (claims_result_lines u complete op inner inner_profile cs) (\<lambda>ls.
                      Inr ([state, (PASS, ''claims grammar'')] @ hash @ [(PASS, ''comparison version'')] @ ls)))
         | _ \<Rightarrow> Inr [state, (FAIL, ''claims grammar'')]))"

definition related_check :: "ucd \<Rightarrow> bool \<Rightarrow> py \<Rightarrow> py option \<Rightarrow> py \<Rightarrow> py option \<Rightarrow> py option \<Rightarrow> lines res" where
  "related_check u complete outer inner claims profile inner_profile0 =
     (let inner_profile = (case inner_profile0 of None \<Rightarrow> profile | Some _ \<Rightarrow> inner_profile0) in
      bnd (case profile of None \<Rightarrow> Inr (S ''decision_ref_preimage_fields'') | Some p \<Rightarrow> py_item p ''preimage_member'') (\<lambda>member.
      bnd (verify_with u outer profile) (\<lambda>(valid, payload).
      bnd (envelope_label profile) (\<lambda>_.
      (case py_or payload (PyDict []) of
         PyDict op \<Rightarrow>
           bnd (dget_key op member) (\<lambda>declared0.
           bnd (all_r (\<lambda>f. py_contains (py_or declared0 (PyList [])) (S f)) new_fields) (\<lambda>declared.
             let first = pass_if valid ''outer proof valid''
             in if \<not> declared then Inr [first, (CANNOT_ESTABLISH, ''outer proof declares the fields'')]
                else
                  bnd (related_body u complete op inner claims inner_profile) (\<lambda>ls.
                    Inr ([first, (PASS, ''outer proof declares the fields'')] @ ls))))
       | _ \<Rightarrow> Inl AttributeError)))))"

definition related_main :: "ucd \<Rightarrow> bool \<Rightarrow> py \<Rightarrow> py option \<Rightarrow> py \<Rightarrow> py option \<Rightarrow> py option \<Rightarrow> nat res" where
  "related_main u complete outer inner claims profile inner_profile =
     bnd (related_check u complete outer inner claims profile inner_profile) (\<lambda>ls. Inr (exit_of ls))"

section \<open>Profiles that load\<close>

lemma keys_lowered: "list_all key_text keys \<Longrightarrow> \<exists>l. map_r (\<lambda>k. bnd (as_str AttributeError k) (\<lambda>s. Inr (u_lower u s))) keys = Inr l"
  by (induction keys) (auto simp: key_text_def as_str_def split: py.splits)

lemma load_profile_keys:
  assumes "load_profile u raw = Inr p"
  shows "\<exists>keys. dget p ''keys'' = PyList keys \<and> list_all key_text keys \<and> dget p ''envelope'' \<noteq> PyNone"
proof -
  obtain d where d: "json_loads_bytes raw = Inr (PyDict d)"
    using assms by (auto simp: load_profile_def split: sum.splits py.splits)
  have e: "dget d ''envelope'' \<noteq> PyNone" if "py_in (dget d ''envelope'') envelopes"
    using that by (auto simp: envelopes_def py_in_def)
  show ?thesis
    using assms e by (auto simp: load_profile_def d Let_def split: py.splits if_splits)
qed

text \<open>A profile that loads never makes the envelope check raise: whatever the record is, the check returns a verdict, and a record that is not an
  object is refused with the reason of its envelope.\<close>

lemma loaded_profile_never_raises:
  "case load_profile u raw of
     Inl _ \<Rightarrow> True
   | Inr p \<Rightarrow>
       (\<exists>r. verify_envelope u ev (PyDict p) = Inr r) \<and>
       (is_dict ev \<or> verify_envelope u ev (PyDict p) =
          Inr (env_reject (if dget p ''envelope'' = S ''nip01-schnorr'' then NotEvent else NotJws)))"
proof (cases "load_profile u raw")
  case (Inr p)
  obtain keys where k: "dget p ''keys'' = PyList keys" "list_all key_text keys" "dget p ''envelope'' \<noteq> PyNone"
    using load_profile_keys [OF Inr] by blast
  obtain l where l: "map_r (\<lambda>k. bnd (as_str AttributeError k) (\<lambda>s. Inr (u_lower u s))) keys = Inr l"
    using keys_lowered [OF k(2)] by blast
  have i: "py_item (PyDict p) ''envelope'' = Inr (dget p ''envelope'')" "py_item (PyDict p) ''keys'' = Inr (PyList keys)"
    using k dget_item [of p "''keys''"] dget_item [of p "''envelope''"] by simp_all
  show ?thesis
    unfolding verify_envelope_def i bnd_Inr py.case l Let_def Inr sum.case by (cases ev) simp_all
qed simp

end
