(* ===== verification/ProofChain.thy ===== *)
theory ProofChain
  imports Markers
begin

text \<open>
  \<^verbatim>\<open>tools/proof_chain_check.py\<close>: a claim sentence with a fixed grammar, parsed as a whole, and its comparison field by field with the
  referenced proof. The regular expression is a list of literal texts and slots; slots are matched greedily with backtracking,
  longest candidate first, as \<^verbatim>\<open>re\<close> does.
\<close>

section \<open>The claim grammar\<close>

definition token_char :: "nat \<Rightarrow> bool" where
  "token_char c \<longleftrightarrow> (65 \<le> c \<and> c \<le> 90) \<or> (97 \<le> c \<and> c \<le> 122) \<or> (48 \<le> c \<and> c \<le> 57) \<or> c = 95 \<or> c = 45"

text \<open>Non-empty segments of token characters between single dots; \<open>open\<close> says that a segment has begun.\<close>

fun token_from :: "bool \<Rightarrow> ustr \<Rightarrow> bool" where
  "token_from opened [] = opened"
| "token_from opened (c # s) = (if token_char c then token_from True s else c = 46 \<and> opened \<and> token_from False s)"

datatype slot = Hex64Slot | DigitSlot | TokenSlot

fun slot_char :: "slot \<Rightarrow> nat \<Rightarrow> bool" where
  "slot_char Hex64Slot c = is_lower_hex c"
| "slot_char DigitSlot c = (48 \<le> c \<and> c \<le> 57)"
| "slot_char TokenSlot c = (token_char c \<or> c = 46)"

fun slot_ok :: "slot \<Rightarrow> ustr \<Rightarrow> bool" where
  "slot_ok Hex64Slot s = is_hex64 s"
| "slot_ok DigitSlot s = (s \<noteq> [] \<and> list_all (slot_char DigitSlot) s)"
| "slot_ok TokenSlot s = token_from False s"

datatype piece = Lit ustr | Slot slot

text \<open>The first success of \<open>k\<close> behind a candidate of length at most \<open>n\<close>, longest first.\<close>

fun longest_first :: "(ustr \<Rightarrow> bool) \<Rightarrow> (ustr \<Rightarrow> ustr list option) \<Rightarrow> ustr \<Rightarrow> nat \<Rightarrow> ustr list option" where
  "longest_first ok k s n =
     (case (if ok (take n s) then k (drop n s) else None) of
        Some gs \<Rightarrow> Some (take n s # gs)
      | None \<Rightarrow> (case n of 0 \<Rightarrow> None | Suc m \<Rightarrow> longest_first ok k s m))"

declare longest_first.simps [simp del]

fun fullmatch :: "piece list \<Rightarrow> ustr \<Rightarrow> ustr list option" where
  "fullmatch [] s = (if s = [] then Some [] else None)"
| "fullmatch (Lit l # ps) s = (if startswith s l then fullmatch ps (drop (length l) s) else None)"
| "fullmatch (Slot sl # ps) s = longest_first (slot_ok sl) (fullmatch ps) s (length (takeWhile (slot_char sl) s))"

definition claim_pieces :: "piece list" where
  "claim_pieces =
     [Lit (U ''CLAIM: the referenced verdict (decision_ref sha256:''), Slot Hex64Slot,
      Lit (U '', nostr event id ''), Slot Hex64Slot,
      Lit (U '') recorded artifact_hash ''), Slot Hex64Slot,
      Lit (U '', verdict ''), Slot TokenSlot,
      Lit (U '', verified_at ''), Slot DigitSlot,
      Lit (U '', policy_version ''), Slot TokenSlot,
      Lit (U ''. This review covers ONLY whether the claim restates those fields of the referenced proof exactly. It does not assess the correctness of the referenced artifact.'')]"

definition claim_fields :: "string list" where
  "claim_fields = [''decision_ref'', ''event_id'', ''artifact_hash'', ''verdict'', ''verified_at'', ''policy_version'']"

text \<open>The captured fields in the order of \<^verbatim>\<open>CLAIM_FIELDS\<close>; the first group includes its \<^verbatim>\<open>sha256:\<close> prefix.\<close>

definition parse_claim :: "py \<Rightarrow> ustr list option" where
  "parse_claim summary =
     (case summary of
        PyStr s \<Rightarrow> map_option (\<lambda>gs. (U ''sha256:'' @ hd gs) # tl gs) (fullmatch claim_pieces s)
      | _ \<Rightarrow> None)"

section \<open>Comparison\<close>

definition claim_expected :: "ucd \<Rightarrow> pydict \<Rightarrow> py \<Rightarrow> py list" where
  "claim_expected u inner inner_event_id =
     [dget inner ''decision_ref'', inner_event_id, dget inner ''artifact_hash'', dget inner ''verdict'',
      PyStr (py_str u (dget inner ''verified_at'')), dget inner ''policy_version'']"

definition compare_claim :: "ucd \<Rightarrow> pydict \<Rightarrow> pydict \<Rightarrow> py \<Rightarrow> lines" where
  "compare_claim u outer inner inner_event_id =
     (case parse_claim (dget outer ''disclosed_summary'') of
        None \<Rightarrow> [(CANNOT_ESTABLISH, ''claim parses'')]
      | Some claim \<Rightarrow>
          map (\<lambda>(f, got, want). pass_if (py_eq (PyStr got) want) f) (zip claim_fields (zip claim (claim_expected u inner inner_event_id))))"

definition check_label :: "pydict \<Rightarrow> status \<times> string" where
  "check_label payload =
     (let derived = (if dget payload ''related_decision_ref'' \<noteq> PyNone then S ''bound_to_verified_decision_ref'' else S ''caller_asserted_unverified'')
      in pass_if (py_eq (dget payload ''context_provenance'') derived) ''context_provenance consistent'')"

definition check_chain :: "ucd \<Rightarrow> py \<Rightarrow> py \<Rightarrow> lines res" where
  "check_chain u outer_event inner_event =
     (let ov = verify_proof u outer_event published_pubkey; iv = verify_proof u inner_event published_pubkey;
          head = [pass_if (pr_valid ov) ''outer proof valid'', pass_if (pr_valid iv) ''inner proof valid'']
      in case (pr_payload ov, pr_payload iv) of
           (Some (PyDict op), Some (PyDict ip)) \<Rightarrow>
             (let ref = dget op ''related_decision_ref''
              in if ref = PyNone then
                   Inr (head @ [(CANNOT_ESTABLISH, ''outer carries a related_decision_ref''), check_label op])
                 else
                   bnd (py_get inner_event ''id'') (\<lambda>i.
                     Inr (head @ [pass_if (py_eq ref (dget ip ''decision_ref'')) ''related_decision_ref == decision_ref'', check_label op] @
                          compare_claim u op ip i)))
         | _ \<Rightarrow> Inr (head @ [(CANNOT_ESTABLISH, ''payloads readable'')]))"

definition chain_main :: "ucd \<Rightarrow> py \<Rightarrow> py \<Rightarrow> nat res" where
  "chain_main u outer inner = bnd (check_chain u outer inner) (\<lambda>ls. Inr (exit_of ls))"

section \<open>The sentence is determined by its fields\<close>

fun render :: "piece list \<Rightarrow> ustr list \<Rightarrow> ustr option" where
  "render [] [] = Some []"
| "render (Lit l # ps) gs = map_option (\<lambda>s. l @ s) (render ps gs)"
| "render (Slot sl # ps) (g # gs) = (if slot_ok sl g then map_option (\<lambda>s. g @ s) (render ps gs) else None)"
| "render _ _ = None"

lemma longest_first_sound:
  "longest_first ok k s n = Some gs \<Longrightarrow> \<exists>m hs. gs = take m s # hs \<and> ok (take m s) \<and> k (drop m s) = Some hs"
proof (induction n)
  case 0
  then have "ok (take 0 s) \<and> (\<exists>hs. k (drop 0 s) = Some hs \<and> gs = take 0 s # hs)"
    by (auto simp: longest_first.simps split: option.splits if_splits)
  then show ?case by blast
next
  case (Suc n)
  then show ?case by (subst (asm) longest_first.simps) (auto split: option.splits if_splits)
qed

lemma fullmatch_render: "fullmatch ps s = Some gs \<Longrightarrow> render ps gs = Some s"
proof (induction ps s arbitrary: gs rule: fullmatch.induct)
  case (2 l ps s)
  then show ?case by (auto simp: startswith_def split: if_splits) (metis append_take_drop_id)
next
  case (3 sl ps s)
  from longest_first_sound [OF "3.prems" [unfolded fullmatch.simps]] obtain m hs
    where m: "gs = take m s # hs" "slot_ok sl (take m s)" "fullmatch ps (drop m s) = Some hs" by blast
  with "3.IH" [OF m(3)] show ?case by simp
qed (auto split: if_splits)

text \<open>
  A slot ends where the literal behind it begins: either that literal opens with a character no slot text has, or a token is
  followed by a dot and a character outside tokens.
\<close>

definition delimits :: "slot \<Rightarrow> ustr \<Rightarrow> bool" where
  "delimits sl l \<longleftrightarrow>
     (l \<noteq> [] \<and> \<not> slot_char sl (hd l)) \<or>
     (sl = TokenSlot \<and> (\<exists>c r. l = 46 # c # r \<and> \<not> slot_char TokenSlot c))"

fun delimited :: "piece list \<Rightarrow> bool" where
  "delimited [] = True"
| "delimited (Lit l # ps) = delimited ps"
| "delimited (Slot sl # Lit l # ps) = (delimits sl l \<and> delimited ps)"
| "delimited (Slot sl # ps) = False"

lemma token_chars: "token_from b s \<Longrightarrow> list_all (slot_char TokenSlot) s"
  by (induction b s rule: token_from.induct) (auto split: if_splits)

lemma slot_chars: "slot_ok sl s \<Longrightarrow> list_all (slot_char sl) s"
proof (cases sl)
  case TokenSlot
  then show "slot_ok sl s \<Longrightarrow> list_all (slot_char sl) s" using token_chars [of False s] by simp
qed (auto simp: is_hex64_def list_all_iff)

lemma token_no_final_dot: "\<not> token_from b (s @ [46])"
  by (induction b s rule: token_from.induct) (auto simp: token_char_def)

lemma takeWhile_slot: "list_all P g \<Longrightarrow> \<not> P c \<Longrightarrow> takeWhile P (g @ c # r) = g"
  by (induction g) auto

lemma delimits_shorter:
  assumes "delimits sl l" "slot_ok sl g" "slot_ok sl g'" "g @ l @ r = g' @ l @ r'" "length g \<le> length g'"
  shows "g = g'"
  using assms(1)
  unfolding delimits_def
proof (elim disjE conjE exE)
  assume l: "l \<noteq> []" "\<not> slot_char sl (hd l)"
  then obtain c l' where "l = c # l'" by (cases l) auto
  with l assms(4) takeWhile_slot [OF slot_chars [OF assms(2)], of c "l' @ r"] takeWhile_slot [OF slot_chars [OF assms(3)], of c "l' @ r'"]
  show ?thesis by simp
next
  fix c l' assume l: "sl = TokenSlot" "l = 46 # c # l'" "\<not> slot_char TokenSlot c"
  obtain h where h: "g' = g @ h" using assms(4,5) by (metis append_eq_append_conv_if append_take_drop_id)
  with assms(4) l have e: "46 # c # l' @ r = h @ 46 # c # l' @ r'" by simp
  show ?thesis
  proof (cases h)
    case (Cons x h')
    with e have h': "x = 46" "c # l' @ r = h' @ 46 # c # l' @ r'" by auto
    show ?thesis
    proof (cases h')
      case Nil
      then show ?thesis using assms(3) l h Cons h'(1) token_no_final_dot by simp
    next
      case (Cons y h'')
      with h' have "y = c" by simp
      then have "c \<in> set g'" using h \<open>h = x # h'\<close> Cons by simp
      then show ?thesis using slot_chars [OF assms(3)] l by (auto simp: list_all_iff)
    qed
  qed (use h in simp)
qed

lemma delimits_unique:
  assumes "delimits sl l" "slot_ok sl g" "slot_ok sl g'" "g @ l @ r = g' @ l @ r'"
  shows "g = g'"
proof (cases "length g \<le> length g'")
  case True
  then show ?thesis using delimits_shorter assms by blast
next
  case False
  then show ?thesis using delimits_shorter [OF assms(1,3,2) assms(4) [symmetric]] by simp
qed

lemma longest_first_complete:
  assumes "ok (take m s)" "k (drop m s) = Some hs" "m \<le> n" "\<forall>j. ok (take j s) \<longrightarrow> k (drop j s) \<noteq> None \<longrightarrow> take j s = take m s"
  shows "longest_first ok k s n = Some (take m s # hs)"
  using assms(3)
proof (induction n)
  case 0
  then show ?case using assms(1,2) by (simp add: longest_first.simps)
next
  case (Suc n)
  show ?case
  proof (cases "ok (take (Suc n) s) \<and> k (drop (Suc n) s) \<noteq> None")
    case True
    then have t: "take (Suc n) s = take m s" using assms(4) by blast
    then have "drop (Suc n) s = drop m s" by (metis append_take_drop_id same_append_eq)
    then show ?thesis using t assms(1,2) by (subst longest_first.simps) simp
  next
    case False
    then have "m \<noteq> Suc n" using assms(1,2) by auto
    with Suc have "longest_first ok k s n = Some (take m s # hs)" by simp
    then show ?thesis using False by (subst longest_first.simps) auto
  qed
qed

lemma fullmatch_Lit: "fullmatch (Lit l # ps) s \<noteq> None \<Longrightarrow> \<exists>r. s = l @ r"
  by (auto simp: startswith_def split: if_splits) (metis append_take_drop_id)

lemma fullmatch_complete: "delimited ps \<Longrightarrow> render ps gs = Some s \<Longrightarrow> fullmatch ps s = Some gs"
proof (induction ps arbitrary: gs s rule: delimited.induct)
  case (2 l ps)
  then show ?case by (auto simp: startswith_def)
next
  case (3 sl l ps)
  then obtain g gs' s' where g: "gs = g # gs'" "slot_ok sl g" "render ps gs' = Some s'" "s = g @ l @ s'"
    by (cases gs) (auto split: if_splits)
  have m: "fullmatch (Lit l # ps) (l @ s') = Some gs'" using "3.IH" "3.prems"(1) g(3) by (simp add: startswith_def)
  have "take j s = g" if j: "slot_ok sl (take j s)" "fullmatch (Lit l # ps) (drop j s) \<noteq> None" for j
  proof -
    from fullmatch_Lit [OF j(2)] obtain r where "drop j s = l @ r" by blast
    then have "take j s @ l @ r = g @ l @ s'" using g(4) by (metis append_take_drop_id)
    moreover have "delimits sl l" using "3.prems"(1) by simp
    ultimately show ?thesis using delimits_unique [OF _ j(1) g(2)] by blast
  qed
  moreover have "length g \<le> length (takeWhile (slot_char sl) s)"
    using slot_chars [OF g(2)] g(4) by (simp add: takeWhile_append2 list_all_iff)
  ultimately show ?case
    using longest_first_complete [of "slot_ok sl" "length g" s "fullmatch (Lit l # ps)" gs'] m g(1,2,4) by simp
qed (auto split: if_splits elim: render.elims)

lemma claim_delimited: "delimited claim_pieces"
  by (simp add: claim_pieces_def delimits_def U_def is_lower_hex_def token_char_def)

lemma fullmatch_iff: "fullmatch claim_pieces s = Some gs \<longleftrightarrow> render claim_pieces gs = Some s"
  using fullmatch_render fullmatch_complete [OF claim_delimited] by blast

lemma render_length: "render ps gs = Some s \<Longrightarrow> length gs = length (filter (\<lambda>p. case p of Slot _ \<Rightarrow> True | _ \<Rightarrow> False) ps)"
  by (induction ps gs arbitrary: s rule: render.induct) (auto split: if_splits)

lemma render_claim: "render claim_pieces gs = Some s \<Longrightarrow> \<exists>d e a v t p. gs = [d, e, a, v, t, p]"
  by (drule render_length) (auto simp: claim_pieces_def eval_nat_numeral length_Suc_conv)

section \<open>What a report shows\<close>

definition restates :: "ucd \<Rightarrow> pydict \<Rightarrow> py \<Rightarrow> ustr list \<Rightarrow> bool" where
  "restates u inner i gs \<longleftrightarrow>
     (\<exists>d e a v t p. gs = [d, e, a, v, t, p] \<and> dget inner ''decision_ref'' = PyStr (U ''sha256:'' @ d) \<and> i = PyStr e \<and>
        dget inner ''artifact_hash'' = PyStr a \<and> dget inner ''verdict'' = PyStr v \<and> t = py_str u (dget inner ''verified_at'') \<and>
        dget inner ''policy_version'' = PyStr p)"

lemma compare_claim_parsed:
  assumes "dget outer ''disclosed_summary'' = PyStr s" "fullmatch claim_pieces s = Some gs"
  shows "exit_of (compare_claim u outer inner i) = 0 \<longleftrightarrow> restates u inner i gs"
proof -
  from render_claim [OF fullmatch_render [OF assms(2)]] obtain d e a v t p where gs: "gs = [d, e, a, v, t, p]" by blast
  show ?thesis
    unfolding compare_claim_def parse_claim_def restates_def
    by (auto simp: assms gs claim_fields_def claim_expected_def py_eq_Str_left)
qed

lemma compare_claim_unparsed:
  assumes "parse_claim (dget outer ''disclosed_summary'') = None"
  shows "compare_claim u outer inner i = [(CANNOT_ESTABLISH, ''claim parses'')]"
  by (simp add: compare_claim_def assms)

lemma compare_claim_exact:
  "exit_of (compare_claim u outer inner i) = 0 \<longleftrightarrow>
     (\<exists>gs s. restates u inner i gs \<and> render claim_pieces gs = Some s \<and> dget outer ''disclosed_summary'' = PyStr s)"
proof (cases "\<exists>s gs. dget outer ''disclosed_summary'' = PyStr s \<and> fullmatch claim_pieces s = Some gs")
  case True
  then obtain s gs where s: "dget outer ''disclosed_summary'' = PyStr s" "fullmatch claim_pieces s = Some gs" by blast
  then have "\<forall>hs. render claim_pieces hs = Some s \<longrightarrow> hs = gs" using fullmatch_iff by (metis option.inject)
  then show ?thesis using compare_claim_parsed [OF s] s fullmatch_iff by (metis py.inject(4))
next
  case False
  then have "parse_claim (dget outer ''disclosed_summary'') = None"
    by (auto simp: parse_claim_def split: py.splits)
  then have "exit_of (compare_claim u outer inner i) \<noteq> 0" by (simp add: compare_claim_unparsed)
  then show ?thesis using False fullmatch_iff by blast
qed

text \<open>C35. Round trip of the claim grammar: a list of fields that the grammar can print is read back from the printed sentence unchanged, and a
  sentence that is read is printed back.\<close>

theorem claim_roundtrip:
  "parse_claim (PyStr s) = Some (f # fs) \<longleftrightarrow> (\<exists>d. f = U ''sha256:'' @ d \<and> render claim_pieces (d # fs) = Some s)"
proof -
  have "map_option (\<lambda>gs. (U ''sha256:'' @ hd gs) # tl gs) r = Some (f # fs) \<longleftrightarrow> (\<exists>d. f = U ''sha256:'' @ d \<and> r = Some (d # fs))"
    if "\<forall>gs. r = Some gs \<longrightarrow> gs \<noteq> []" for r
    using that by (cases r) (auto simp: neq_Nil_conv)
  moreover have "\<forall>gs. fullmatch claim_pieces s = Some gs \<longrightarrow> gs \<noteq> []"
    using fullmatch_render render_claim by blast
  moreover have "parse_claim (PyStr s) = map_option (\<lambda>gs. (U ''sha256:'' @ hd gs) # tl gs) (fullmatch claim_pieces s)"
    by (simp add: parse_claim_def)
  ultimately show ?thesis unfolding fullmatch_iff [symmetric] by simp
qed

lemma check_label_bound:
  "dget op ''related_decision_ref'' \<noteq> PyNone \<Longrightarrow>
     fst (check_label op) = PASS \<longleftrightarrow> dget op ''context_provenance'' = S ''bound_to_verified_decision_ref''"
  by (simp add: check_label_def py_eq_Str_right)

lemma check_chain_dicts:
  assumes "pr_payload (verify_proof u outer published_pubkey) = Some (PyDict op)"
    "pr_payload (verify_proof u inner published_pubkey) = Some (PyDict ip)"
  shows "chain_main u outer inner = Inr 0 \<longleftrightarrow>
     pr_valid (verify_proof u outer published_pubkey) \<and> pr_valid (verify_proof u inner published_pubkey) \<and>
     dget op ''related_decision_ref'' \<noteq> PyNone \<and> py_eq (dget op ''related_decision_ref'') (dget ip ''decision_ref'') \<and>
     fst (check_label op) = PASS \<and> (\<exists>i. py_get inner ''id'' = Inr i \<and> exit_of (compare_claim u op ip i) = 0)"
  unfolding chain_main_def check_chain_def Let_def assms
  by (cases "dget op ''related_decision_ref'' = PyNone") (auto simp: exit_of_append)

lemma check_chain_unreadable:
  assumes "\<nexists>op ip. pr_payload (verify_proof u outer published_pubkey) = Some (PyDict op) \<and>
    pr_payload (verify_proof u inner published_pubkey) = Some (PyDict ip)"
  shows "chain_main u outer inner \<noteq> Inr 0"
  using assms unfolding chain_main_def check_chain_def Let_def
  by (auto simp: exit_of_def split: option.splits py.splits)

text \<open>C12. The chain checker exits with 0 exactly when both proofs verify under the pinned key, the outer one carries a reference equal to
  the inner decision reference and the label derived from it, and the disclosed summary is the sentence that restates the inner proof.\<close>

theorem chain_accepts:
  "chain_main u outer inner = Inr 0 \<longleftrightarrow>
     (\<exists>op ip i gs s.
        pr_valid (verify_proof u outer published_pubkey) \<and> pr_payload (verify_proof u outer published_pubkey) = Some (PyDict op) \<and>
        pr_valid (verify_proof u inner published_pubkey) \<and> pr_payload (verify_proof u inner published_pubkey) = Some (PyDict ip) \<and>
        dget op ''related_decision_ref'' \<noteq> PyNone \<and> py_eq (dget op ''related_decision_ref'') (dget ip ''decision_ref'') \<and>
        dget op ''context_provenance'' = S ''bound_to_verified_decision_ref'' \<and>
        py_get inner ''id'' = Inr i \<and> restates u ip i gs \<and> render claim_pieces gs = Some s \<and> dget op ''disclosed_summary'' = PyStr s)"
proof (cases "\<exists>op ip. pr_payload (verify_proof u outer published_pubkey) = Some (PyDict op) \<and>
    pr_payload (verify_proof u inner published_pubkey) = Some (PyDict ip)")
  case True
  then obtain op ip where p: "pr_payload (verify_proof u outer published_pubkey) = Some (PyDict op)"
    "pr_payload (verify_proof u inner published_pubkey) = Some (PyDict ip)" by blast
  show ?thesis
    unfolding check_chain_dicts [OF p] compare_claim_exact p using check_label_bound [of op] by auto
next
  case False
  then show ?thesis using check_chain_unreadable [OF False] by blast
qed

end
