(* ===== verification/Merkle.thy ===== *)
theory Merkle
  imports Commit
begin

text \<open>
  Merkle trees as the checkers build them: leaves are hashed, neighbours are joined level by level, an odd node at the end of a level is
  promoted. The functions are parametrised by the encodings of a leaf and of an inner node; the locale states what makes a root
  binding, and every log of the program is an interpretation of it.
\<close>

fun join_level :: "('a \<Rightarrow> 'a \<Rightarrow> 'a) \<Rightarrow> 'a list \<Rightarrow> 'a list" where
  "join_level f (x # y # r) = f x y # join_level f r"
| "join_level f xs = xs"

lemma length_join_level: "length (join_level f xs) = (length xs + 1) div 2"
  by (induction f xs rule: join_level.induct) auto

function join_loop :: "('a \<Rightarrow> 'a \<Rightarrow> 'a) \<Rightarrow> 'a list \<Rightarrow> 'a list" where
  "join_loop f xs = (if 1 < length xs then join_loop f (join_level f xs) else xs)"
  by pat_completeness auto
termination
  by (relation "measure (\<lambda>(f, xs). length xs)") (auto simp: length_join_level)

declare join_loop.simps [simp del]

datatype 'k mtree = Tip 'k | Join "'k mtree" "'k mtree"

fun mhash :: "('k \<Rightarrow> bytes) \<Rightarrow> (bytes \<Rightarrow> bytes \<Rightarrow> bytes) \<Rightarrow> 'k mtree \<Rightarrow> bytes" where
  "mhash L N (Tip k) = sha256 (L k)"
| "mhash L N (Join l r) = sha256 (N (mhash L N l) (mhash L N r))"

text \<open>The inputs hashed for a tree.\<close>

fun mpre :: "('k \<Rightarrow> bytes) \<Rightarrow> (bytes \<Rightarrow> bytes \<Rightarrow> bytes) \<Rightarrow> 'k mtree \<Rightarrow> bytes set" where
  "mpre L N (Tip k) = {L k}"
| "mpre L N (Join l r) = insert (N (mhash L N l) (mhash L N r)) (mpre L N l \<union> mpre L N r)"

fun flat :: "'k mtree \<Rightarrow> 'k list" where
  "flat (Tip k) = [k]"
| "flat (Join l r) = flat l @ flat r"

fun level_inputs :: "(bytes \<Rightarrow> bytes \<Rightarrow> bytes) \<Rightarrow> bytes list \<Rightarrow> bytes set" where
  "level_inputs N (x # y # r) = insert (N x y) (level_inputs N r)"
| "level_inputs N xs = {}"

function loop_inputs :: "(bytes \<Rightarrow> bytes \<Rightarrow> bytes) \<Rightarrow> bytes list \<Rightarrow> bytes set" where
  "loop_inputs N level =
     (if 1 < length level then level_inputs N level \<union> loop_inputs N (join_level (\<lambda>l r. sha256 (N l r)) level) else {})"
  by pat_completeness auto
termination
  by (relation "measure (\<lambda>(N, level). length level)") (auto simp: length_join_level)

declare loop_inputs.simps [simp del]

text \<open>The root over given leaves, and the inputs hashed to compute it.\<close>

definition merkle_root :: "('k \<Rightarrow> bytes) \<Rightarrow> (bytes \<Rightarrow> bytes \<Rightarrow> bytes) \<Rightarrow> 'k list \<Rightarrow> bytes" where
  "merkle_root L N ks = hd (join_loop (\<lambda>l r. sha256 (N l r)) (map (\<lambda>k. sha256 (L k)) ks))"

definition root_inputs :: "('k \<Rightarrow> bytes) \<Rightarrow> (bytes \<Rightarrow> bytes \<Rightarrow> bytes) \<Rightarrow> 'k list \<Rightarrow> bytes set" where
  "root_inputs L N ks = L ` set ks \<union> loop_inputs N (map (\<lambda>k. sha256 (L k)) ks)"

lemma length_mhash [simp]: "length (mhash L N t) = 32"
  by (cases t) simp_all

lemma tree_level_hash: "map (mhash L N) (join_level Join ts) = join_level (\<lambda>l r. sha256 (N l r)) (map (mhash L N) ts)"
  by (induction "Join :: 'a mtree \<Rightarrow> _" ts rule: join_level.induct) auto

lemma tree_level_flat: "concat (map flat (join_level Join ts)) = concat (map flat ts)"
  by (induction "Join :: 'a mtree \<Rightarrow> _" ts rule: join_level.induct) auto

lemma tree_level_pre:
  "\<Union> (mpre L N ` set (join_level Join ts)) \<subseteq> \<Union> (mpre L N ` set ts) \<union> level_inputs N (map (mhash L N) ts)"
  by (induction "Join :: 'a mtree \<Rightarrow> _" ts rule: join_level.induct) auto

lemma join_loop_tree:
  assumes "ts \<noteq> []"
  shows "\<exists>t. join_loop (\<lambda>l r. sha256 (N l r)) (map (mhash L N) ts) = [mhash L N t] \<and> flat t = concat (map flat ts) \<and>
    mpre L N t \<subseteq> \<Union> (mpre L N ` set ts) \<union> loop_inputs N (map (mhash L N) ts)"
  using assms
proof (induction "length ts" arbitrary: ts rule: less_induct)
  case less
  show ?case
  proof (cases "1 < length ts")
    case True
    let ?ts = "join_level Join ts"
    have "length ?ts < length ts" "?ts \<noteq> []"
      using True length_join_level [of Join ts] by (auto simp flip: length_greater_0_conv)
    from less.hyps [OF this] obtain t where t: "join_loop (\<lambda>l r. sha256 (N l r)) (map (mhash L N) ?ts) = [mhash L N t]"
      "flat t = concat (map flat ?ts)" "mpre L N t \<subseteq> \<Union> (mpre L N ` set ?ts) \<union> loop_inputs N (map (mhash L N) ?ts)" by blast
    have "join_loop (\<lambda>l r. sha256 (N l r)) (map (mhash L N) ts) = [mhash L N t]"
      using True t(1) by (simp add: join_loop.simps [of _ "map (mhash L N) ts"] tree_level_hash)
    moreover have "loop_inputs N (map (mhash L N) ts) = level_inputs N (map (mhash L N) ts) \<union> loop_inputs N (map (mhash L N) ?ts)"
      using True by (simp add: loop_inputs.simps [of _ "map (mhash L N) ts"] tree_level_hash)
    ultimately show ?thesis
      using t(2,3) tree_level_pre [of L N ts] by (intro exI [of _ t]) (auto simp: tree_level_flat)
  next
    case False
    with less.prems obtain t where "ts = [t]" by (cases ts) auto
    then show ?thesis by (intro exI [of _ t]) (simp add: join_loop.simps)
  qed
qed

lemma root_tree:
  assumes "ks \<noteq> []"
  shows "\<exists>t. merkle_root L N ks = mhash L N t \<and> flat t = ks \<and> mpre L N t \<subseteq> root_inputs L N ks"
proof -
  have 1: "concat (map flat (map Tip ks)) = ks" by (induction ks) auto
  have 2: "map (mhash L N) (map Tip ks) = map (\<lambda>k. sha256 (L k)) ks" by simp
  have 3: "\<Union> (mpre L N ` set (map Tip ks)) = L ` set ks" by auto
  have "map Tip ks \<noteq> []" using assms by simp
  from join_loop_tree [OF this, of N L, unfolded 1 2 3] show ?thesis
    by (auto simp: merkle_root_def root_inputs_def)
qed

lemma length_merkle_root: "ks \<noteq> [] \<Longrightarrow> length (merkle_root L N ks) = 32"
  using root_tree [of ks L N] by auto

section \<open>Inclusion paths\<close>

text \<open>One step of a path joins the hash so far with a sibling, on its right or on its left.\<close>

definition step_input :: "(bytes \<Rightarrow> bytes \<Rightarrow> bytes) \<Rightarrow> bytes \<Rightarrow> bool \<times> bytes \<Rightarrow> bytes" where
  "step_input N h p = (if fst p then N h (snd p) else N (snd p) h)"

fun climb :: "(bytes \<Rightarrow> bytes \<Rightarrow> bytes) \<Rightarrow> bytes \<Rightarrow> (bool \<times> bytes) list \<Rightarrow> bytes" where
  "climb N h [] = h"
| "climb N h (p # ps) = climb N (sha256 (step_input N h p)) ps"

fun path_inputs :: "(bytes \<Rightarrow> bytes \<Rightarrow> bytes) \<Rightarrow> bytes \<Rightarrow> (bool \<times> bytes) list \<Rightarrow> bytes set" where
  "path_inputs N h [] = {}"
| "path_inputs N h (p # ps) = insert (step_input N h p) (path_inputs N (sha256 (step_input N h p)) ps)"

lemma climb_snoc: "climb N h (ps @ [p]) = sha256 (step_input N (climb N h ps) p)"
  by (induction N h ps rule: climb.induct) auto

lemma path_inputs_snoc: "path_inputs N h (ps @ [p]) = insert (step_input N (climb N h ps) p) (path_inputs N h ps)"
  by (induction N h ps rule: path_inputs.induct) auto

lemma length_climb: "length h = 32 \<Longrightarrow> length (climb N h ps) = 32"
  by (induction N h ps rule: climb.induct) auto

section \<open>Binding roots\<close>

locale merkle =
  fixes L :: "'k \<Rightarrow> bytes" and N :: "bytes \<Rightarrow> bytes \<Rightarrow> bytes" and ok :: "'k \<Rightarrow> bool"
  assumes leaf_inj: "ok k \<Longrightarrow> ok k' \<Longrightarrow> L k = L k' \<Longrightarrow> k = k'"
    and leaf_node: "L k \<noteq> N l r"
    and node_inj: "N l r = N l' r' \<Longrightarrow> length l = length l' \<or> length r = length r' \<Longrightarrow> l = l' \<and> r = r'"
begin

lemma mhash_binds:
  assumes "mhash L N t = mhash L N t'" "\<forall>k \<in> set (flat t). ok k" "\<forall>k \<in> set (flat t'). ok k"
  shows "t = t' \<or> (\<exists>a \<in> mpre L N t. \<exists>b \<in> mpre L N t'. collision a b)"
  using assms
proof (induction t arbitrary: t')
  case (Tip k)
  show ?case
  proof (cases t')
    case t: (Tip k')
    show ?thesis
    proof (cases "L k = L k'")
      case True
      then show ?thesis using Tip.prems t leaf_inj by simp
    next
      case False
      then show ?thesis using Tip.prems(1) t by (simp add: collision_def)
    qed
  next
    case (Join l r)
    then show ?thesis using Tip.prems(1) leaf_node by (simp add: collision_def)
  qed
next
  case (Join l r)
  show ?case
  proof (cases t')
    case (Tip k)
    then show ?thesis using Join.prems(1) leaf_node [of k, symmetric] by (simp add: collision_def)
  next
    case t: (Join l' r')
    show ?thesis
    proof (cases "N (mhash L N l) (mhash L N r) = N (mhash L N l') (mhash L N r')")
      case True
      then have h: "mhash L N l = mhash L N l'" "mhash L N r = mhash L N r'" using node_inj by (metis length_mhash)+
      have l: "l = l' \<or> (\<exists>a \<in> mpre L N l. \<exists>b \<in> mpre L N l'. collision a b)"
        using Join.IH(1) [OF h(1)] Join.prems(2,3) t by simp
      have r: "r = r' \<or> (\<exists>a \<in> mpre L N r. \<exists>b \<in> mpre L N r'. collision a b)"
        using Join.IH(2) [OF h(2)] Join.prems(2,3) t by simp
      from l r show ?thesis unfolding t mpre.simps by blast
    next
      case False
      then have "collision (N (mhash L N l) (mhash L N r)) (N (mhash L N l') (mhash L N r'))"
        using Join.prems(1) t by (simp add: collision_def)
      then show ?thesis unfolding t mpre.simps by blast
    qed
  qed
qed

text \<open>Equal roots are over equal leaves in the same order.\<close>

lemma root_binds:
  assumes "ks \<noteq> []" "ks' \<noteq> []" "merkle_root L N ks = merkle_root L N ks'" "\<forall>k \<in> set ks. ok k" "\<forall>k \<in> set ks'. ok k"
  shows "ks = ks' \<or> (\<exists>a \<in> root_inputs L N ks. \<exists>b \<in> root_inputs L N ks'. collision a b)"
proof -
  obtain t where t: "merkle_root L N ks = mhash L N t" "flat t = ks" "mpre L N t \<subseteq> root_inputs L N ks"
    using root_tree [OF assms(1)] by blast
  obtain t' where t': "merkle_root L N ks' = mhash L N t'" "flat t' = ks'" "mpre L N t' \<subseteq> root_inputs L N ks'"
    using root_tree [OF assms(2)] by blast
  have "mhash L N t = mhash L N t'" using assms(3) t(1) t'(1) by simp
  from mhash_binds [OF this] assms(4,5) t(2) t'(2) have "t = t' \<or> (\<exists>a \<in> mpre L N t. \<exists>b \<in> mpre L N t'. collision a b)" by blast
  with t(2,3) t'(2,3) show ?thesis by blast
qed

lemma climb_sound:
  assumes "climb N (sha256 (L k)) ps = mhash L N t" "ok k" "\<forall>k \<in> set (flat t). ok k"
  shows "k \<in> set (flat t) \<or> (\<exists>a \<in> insert (L k) (path_inputs N (sha256 (L k)) ps). \<exists>b \<in> mpre L N t. collision a b)"
  using assms(1,3)
proof (induction ps arbitrary: t rule: rev_induct)
  case Nil
  show ?case
  proof (cases t)
    case (Tip k')
    then show ?thesis using Nil assms(2) leaf_inj by (cases "L k = L k'") (auto simp: collision_def)
  next
    case (Join l r)
    then show ?thesis using Nil leaf_node by (auto simp: collision_def)
  qed
next
  case (snoc p ps)
  let ?h = "climb N (sha256 (L k)) ps"
  have hl: "length ?h = 32" by (rule length_climb) simp
  have e: "sha256 (step_input N ?h p) = mhash L N t" using snoc.prems(1) by (simp add: climb_snoc)
  show ?case
  proof (cases t)
    case (Tip k')
    have "step_input N ?h p \<noteq> L k'" using leaf_node by (auto simp: step_input_def) metis+
    then show ?thesis using e Tip by (auto simp: path_inputs_snoc collision_def)
  next
    case (Join l r)
    show ?thesis
    proof (cases "step_input N ?h p = N (mhash L N l) (mhash L N r)")
      case True
      then have "?h = mhash L N l \<or> ?h = mhash L N r"
        using node_inj hl unfolding step_input_def by (metis length_mhash)
      then show ?thesis
      proof
        assume "?h = mhash L N l"
        from snoc.IH [OF this] snoc.prems(2) Join show ?thesis by (auto simp: path_inputs_snoc)
      next
        assume "?h = mhash L N r"
        from snoc.IH [OF this] snoc.prems(2) Join show ?thesis by (auto simp: path_inputs_snoc)
      qed
    next
      case False
      then show ?thesis using e Join by (auto simp: path_inputs_snoc collision_def)
    qed
  qed
qed

text \<open>A path from a leaf to the root over given leaves shows that it is one of them.\<close>

lemma inclusion_sound:
  assumes "ks \<noteq> []" "climb N (sha256 (L k)) ps = merkle_root L N ks" "ok k" "\<forall>k \<in> set ks. ok k"
  shows "k \<in> set ks \<or> (\<exists>a \<in> insert (L k) (path_inputs N (sha256 (L k)) ps). \<exists>b \<in> root_inputs L N ks. collision a b)"
proof -
  obtain t where t: "merkle_root L N ks = mhash L N t" "flat t = ks" "mpre L N t \<subseteq> root_inputs L N ks"
    using root_tree [OF assms(1)] by blast
  with climb_sound [of k ps t] assms show ?thesis by auto
qed

end

end
