(* ===== verification/EvidenceSet.thy ===== *)
theory EvidenceSet
  imports Commit "HOL-Library.Multiset" Merkle
begin

text \<open>
  \<^verbatim>\<open>tools/evidence_set_check.py\<close>: evidence pinning. An evidence set lists source entries; the pinned ones are committed to by a
  Merkle root over their bound members in canonical order. \<open>validate\<close> reports every condition a set violates, \<open>resolve\<close> says
  whether the set can be recomputed from the content held, and \<open>build\<close> is the issuer side. The conditions are a set of the
  code's strings. Reading files and printing are left out: the payload and the content held are arguments.
\<close>

section \<open>Constants\<close>

definition es_version :: py where
  "es_version = S ''ao-evidence-set-v1''"

definition leaf_prefix :: bytes where
  "leaf_prefix = utf8_total (U ''ao-evidence-leaf-v2'')"

definition node_prefix :: bytes where
  "node_prefix = utf8_total (U ''ao-evidence-node-v1'')"

definition content_kinds :: "py list" where
  "content_kinds = [S ''snippet'', S ''excerpt'', S ''full_resource'']"

definition unpinned_reasons :: "py list" where
  "unpinned_reasons = [S ''no_content_returned'', S ''provider_metadata_only'']"

section \<open>Timestamps\<close>

definition days_in_month :: "nat \<Rightarrow> nat \<Rightarrow> nat" where
  "days_in_month y mo =
     [31, if y mod 4 = 0 \<and> (y mod 100 \<noteq> 0 \<or> y mod 400 = 0) then 29 else 28, 31, 30, 31, 30, 31, 31, 30, 31, 30, 31] ! (mo - 1)"

definition valid_ts :: "ucd \<Rightarrow> py \<Rightarrow> bool" where
  "valid_ts u v =
     (case v of
        PyStr s \<Rightarrow>
          if \<not> match_pat u ''####-##-##T##:##:##.###Z'' s then False
          else
            let y = num_at u s 0 4; mo = num_at u s 5 2; d = num_at u s 8 2;
                h = num_at u s 11 2; mi = num_at u s 14 2; se = num_at u s 17 2
            in if \<not> (1 \<le> mo \<and> mo \<le> 12 \<and> h \<le> 23 \<and> mi \<le> 59 \<and> se \<le> 59) then False
               else 1 \<le> d \<and> d \<le> days_in_month y mo
      | _ \<Rightarrow> False)"

section \<open>The Merkle root\<close>

text \<open>\<^verbatim>\<open>_b(e[k])\<close>.\<close>

definition field_b :: "py \<Rightarrow> string \<Rightarrow> bytes res" where
  "field_b e k = bnd (py_item e k) (\<lambda>v. bnd (as_str AttributeError v) utf8)"

text \<open>The four bound members, in their order: the sort key, and the input of the leaf.\<close>

definition sort_key_of :: "py \<Rightarrow> bytes list res" where
  "sort_key_of e = map_r (field_b e) [''url'', ''snippet_sha256'', ''content_kind'', ''retrieved_at'']"

definition leaf_pre :: "bytes list \<Rightarrow> bytes" where
  "leaf_pre fs = leaf_prefix @ concat (map (\<lambda>f. 0 # f) fs)"

definition leaf :: "py \<Rightarrow> bytes res" where
  "leaf e = bnd (sort_key_of e) (\<lambda>fs. Inr (sha256 (leaf_pre fs)))"

definition node_pre :: "bytes \<Rightarrow> bytes \<Rightarrow> bytes" where
  "node_pre left right = node_prefix @ [0] @ left @ [0] @ right"

definition node :: "bytes \<Rightarrow> bytes \<Rightarrow> bytes" where
  "node left right = sha256 (node_pre left right)"

text \<open>One pass of the loop: neighbours are joined, an odd node at the end is promoted.\<close>

fun next_level :: "bytes list \<Rightarrow> bytes list" where
  "next_level (x # y # r) = node x y # next_level r"
| "next_level xs = xs"

lemma length_next_level: "length (next_level xs) = (length xs + 1) div 2"
  by (induction xs rule: next_level.induct) auto

function merkle_loop :: "bytes list \<Rightarrow> bytes list" where
  "merkle_loop level = (if 1 < length level then merkle_loop (next_level level) else level)"
  by pat_completeness auto
termination
  by (relation "measure length") (auto simp: length_next_level)

declare merkle_loop.simps [simp del]

definition pinned_true :: "py \<Rightarrow> bool res" where
  "pinned_true e = bnd (py_get e ''pinned'') (\<lambda>v. Inr (v = PyBool True))"

definition evidence_root :: "py list \<Rightarrow> py res" where
  "evidence_root sources =
     bnd (filter_r pinned_true sources) (\<lambda>es.
     bnd (map_r (\<lambda>e. bnd (sort_key_of e) (\<lambda>k. Inr (k, e))) es) (\<lambda>ks.
     bnd (map_r leaf (map snd (sort_key fst ks))) (\<lambda>level.
       if level = [] then Inr PyNone else Inr (PyStr (hex_of (hd (merkle_loop level)))))))"

section \<open>Entries\<close>

definition opt :: "bool \<Rightarrow> string \<Rightarrow> string set" where
  "opt b c = (if b then {c} else {})"

definition bad_hex :: "py \<Rightarrow> bool" where
  "bad_hex v \<longleftrightarrow> v \<noteq> PyNone \<and> \<not> (case v of PyStr s \<Rightarrow> is_hex64 s | _ \<Rightarrow> False)"

definition has_nul :: "py \<Rightarrow> bool" where
  "has_nul v \<longleftrightarrow> (case v of PyStr s \<Rightarrow> 0 \<in> set s | _ \<Rightarrow> False)"

text \<open>The conditions an entry adds, and the members that failed their own check.\<close>

definition check_entry :: "ucd \<Rightarrow> py \<Rightarrow> string set \<times> string set" where
  "check_entry u e =
     (case e of
        PyDict d \<Rightarrow>
          (let ts_bad = \<not> valid_ts u (dget d ''retrieved_at'');
               pin_bad = \<not> is_bool (dget d ''pinned'');
               url_bad = \<not> is_str (dget d ''url'');
               s = dget d ''snippet_sha256''; ck = dget d ''content_kind''; rs = dget d ''resource_sha256'';
               conds =
                 opt ts_bad ''retrieved_at_not_canonical_form'' \<union>
                 opt pin_bad ''pinned_absent_or_not_boolean'' \<union>
                 opt url_bad ''url_absent_or_not_string'' \<union>
                 opt (list_ex (\<lambda>k. has_nul (dget d k)) [''url'', ''snippet_sha256'', ''content_kind'', ''retrieved_at''])
                   ''member_contains_nul'' \<union>
                 opt (bad_hex s) ''snippet_sha256_not_lowercase_hex64'' \<union>
                 opt (bad_hex rs) ''resource_sha256_not_lowercase_hex64'' \<union>
                 opt (ck = S ''full_resource'' \<and> rs \<noteq> PyNone) ''resource_sha256_present_for_full_resource'';
               bad =
                 opt ts_bad ''retrieved_at'' \<union> opt pin_bad ''pinned'' \<union> opt url_bad ''url'' \<union>
                 opt (bad_hex s) ''snippet_sha256'' \<union> opt (bad_hex rs) ''resource_sha256''
           in
           if pin_bad then (conds, bad \<union> {''snippet_sha256'', ''content_kind''})
           else if dget d ''pinned'' = PyBool True then
             (conds \<union> opt (s = PyNone) ''snippet_sha256_absent_when_pinned'' \<union>
                opt (\<not> py_in ck content_kinds) ''content_kind_absent_or_invalid_when_pinned'',
              bad \<union> opt (\<not> py_in ck content_kinds) ''content_kind'')
           else
             (conds \<union> opt (\<not> has_key d ''snippet_sha256'') ''snippet_sha256_member_absent'' \<union>
                opt (has_key d ''snippet_sha256'' \<and> s \<noteq> PyNone) ''snippet_sha256_present_when_unpinned'' \<union>
                opt (ck \<noteq> PyNone) ''content_kind_present_when_unpinned'' \<union>
                opt (\<not> py_in (dget d ''unpinned_reason'') unpinned_reasons) ''unpinned_reason_absent_or_invalid'',
              bad \<union> opt (\<not> has_key d ''snippet_sha256'') ''snippet_sha256''))
      | _ \<Rightarrow> ({''source_entry_not_object''}, {''*''}))"

definition same_retrieval :: "py \<Rightarrow> py \<Rightarrow> bool res" where
  "same_retrieval a b =
     bnd (or_r (bnd (py_item a ''url'') (\<lambda>x. bnd (py_item b ''url'') (\<lambda>y. Inr (\<not> py_eq x y))))
               (bnd (py_item a ''retrieved_at'') (\<lambda>x. bnd (py_item b ''retrieved_at'') (\<lambda>y. Inr (\<not> py_eq x y)))))
       (\<lambda>differ.
          if differ then Inr False
          else
            bnd (and_r (bnd (py_item a ''pinned'') (\<lambda>v. Inr (truthy v))) (bnd (py_item b ''pinned'') (\<lambda>v. Inr (truthy v)))) (\<lambda>both.
            if both then
              and_r (bnd (py_get a ''snippet_sha256'') (\<lambda>x. bnd (py_get b ''snippet_sha256'') (\<lambda>y. Inr (py_eq x y))))
                    (bnd (py_get a ''content_kind'') (\<lambda>x. bnd (py_get b ''content_kind'') (\<lambda>y. Inr (py_eq x y))))
            else Inr True))"

text \<open>The pairs \<^verbatim>\<open>x < y\<close> of the two loops, in their order.\<close>

fun pairs :: "'a list \<Rightarrow> ('a \<times> 'a) list" where
  "pairs [] = []"
| "pairs (x # xs) = map (Pair x) xs @ pairs xs"

section \<open>The set\<close>

record es_derived =
  d_source_count :: nat
  d_pinned_count :: nat
  d_fully_pinned :: bool
  d_evidence_root :: py

type_synonym es_outcome = "string set \<times> es_derived option \<times> bool"

definition count_mismatch :: "pydict \<Rightarrow> string \<Rightarrow> nat \<Rightarrow> bool" where
  "count_mismatch es k n \<longleftrightarrow> dget_default es k (PyInt (int n)) \<noteq> PyInt (int n)"

text \<open>An operand of \<^verbatim>\<open>fully_pinned\<close>: the declared count if it is an integer, the derived one if none is declared.\<close>

definition count_operand :: "pydict \<Rightarrow> string \<Rightarrow> nat option \<Rightarrow> int option" where
  "count_operand es k derived =
     (if has_key es k then (case dget es k of PyInt i \<Rightarrow> Some i | _ \<Rightarrow> None) else map_option int derived)"

definition least_bytes :: "bytes list \<Rightarrow> bytes" where
  "least_bytes bs = foldl min (hd bs) (tl bs)"

definition set_level :: "ucd \<Rightarrow> pydict \<Rightarrow> py list \<Rightarrow> (string set \<times> string set) list \<Rightarrow> string set res" where
  "set_level u es src checks =
     (let bads = map snd checks; n = length src;
          pinned_ok = list_all (\<lambda>b. ''pinned'' \<notin> b \<and> ''*'' \<notin> b) bads;
          p = length (filter (\<lambda>e. case e of PyDict d \<Rightarrow> dget d ''pinned'' = PyBool True | _ \<Rightarrow> False) src);
          root = dget es ''evidence_root'';
          counts = opt (count_mismatch es ''source_count'' n) ''source_count_mismatch'' \<union>
            (if pinned_ok then
               opt (count_mismatch es ''pinned_count'' p) ''pinned_count_mismatch'' \<union>
               opt (p = 0 \<and> root \<noteq> PyNone) ''evidence_root_present_with_no_pinned_items'' \<union>
               opt (0 < p \<and> root = PyNone) ''evidence_root_absent_with_pinned_items''
             else {});
          fully = (case (count_operand es ''source_count'' (Some n), count_operand es ''pinned_count'' (if pinned_ok then Some p else None)) of
              (Some sc, Some pc) \<Rightarrow>
                (let want = (pc = sc \<and> 0 < sc)
                 in opt (dget_default es ''fully_pinned'' (PyBool want) \<noteq> PyBool want) ''fully_pinned_mismatch'')
            | _ \<Rightarrow> {})
      in
      if list_all (\<lambda>b. ''retrieved_at'' \<notin> b \<and> ''*'' \<notin> b) bads then
        bnd (map_r (\<lambda>e. field_b e ''retrieved_at'') src) (\<lambda>ts.
        bnd (if has_key es ''retrieved_at''
             then case dget es ''retrieved_at'' of
                PyStr t \<Rightarrow> bnd (utf8 t) (\<lambda>b. Inr (b \<noteq> least_bytes ts))
              | _ \<Rightarrow> Inr True
             else Inr False) (\<lambda>not_least.
        let ok = map fst (filter (\<lambda>(e, b). b \<inter> {''url'', ''pinned'', ''snippet_sha256'', ''content_kind'', ''*''} = {}) (zip src bads))
        in bnd (map_r (\<lambda>(a, b). same_retrieval a b) (pairs ok)) (\<lambda>dups.
             Inr (counts \<union> fully \<union> opt not_least ''set_retrieved_at_not_bytewise_least'' \<union>
                  opt (list_ex id dups) ''duplicate_bound_tuple''))))
      else Inr (counts \<union> fully))"

definition validate :: "ucd \<Rightarrow> py \<Rightarrow> es_outcome res" where
  "validate u v =
     (case v of
        PyDict es \<Rightarrow>
          if \<not> is_str (dget es ''evidence_set_version'') then Inr ({''evidence_set_version_absent_or_not_string''}, None, False)
          else if dget es ''evidence_set_version'' \<noteq> es_version then Inr ({}, None, True)
          else
            (case dget es ''sources'' of
               PyNone \<Rightarrow> Inr ({''evidence_set_names_no_sources''}, None, False)
             | PyList [] \<Rightarrow> Inr ({''evidence_set_names_no_sources''}, None, False)
             | PyList src \<Rightarrow>
                 (let checks = map (check_entry u) src
                  in bnd (set_level u es src checks) (\<lambda>sl.
                     let conds = \<Union> (set (map fst checks)) \<union> sl
                     in if conds \<noteq> {} then Inr (conds, None, False)
                        else
                          bnd (evidence_root src) (\<lambda>want.
                          if dget es ''evidence_root'' \<noteq> PyNone \<and> \<not> py_eq (dget es ''evidence_root'') want
                          then Inr ({''root_not_recomputable_from_sources''}, None, False)
                          else
                            let n = length src; p = length (filter (\<lambda>e. pinned_true e = Inr True) src)
                            in Inr ({}, Some \<lparr> d_source_count = n, d_pinned_count = p, d_fully_pinned = (p = n \<and> 0 < n),
                                               d_evidence_root = want \<rparr>, False))))
             | _ \<Rightarrow> Inr ({''sources_not_array''}, None, False))
      | _ \<Rightarrow> Inr ({''evidence_set_not_object''}, None, False))"

section \<open>Resolution\<close>

datatype token = Resolved | Unknown | Halt

text \<open>The content held: digests, and the addresses some content is held for.\<close>

record held =
  hashes :: "ustr list"
  by_url :: "ustr list"

record es_report =
  r_conditions :: "string set"
  r_unsupported :: bool
  r_derived :: "es_derived option"
  r_items :: "(py \<times> string) list"

definition no_report :: es_report where
  "no_report = \<lparr> r_conditions = {}, r_unsupported = False, r_derived = None, r_items = [] \<rparr>"

text \<open>\<^verbatim>\<open>v in s\<close> for a set or a dictionary of strings.\<close>

definition in_strs :: "py \<Rightarrow> ustr list \<Rightarrow> bool res" where
  "in_strs v xs = (case v of PyStr s \<Rightarrow> Inr (s \<in> set xs) | _ \<Rightarrow> if hashable v then Inr False else Inl TypeError)"

definition resolve_item :: "held \<Rightarrow> py \<Rightarrow> (py \<times> string) res" where
  "resolve_item h e =
     bnd (py_item e ''pinned'') (\<lambda>pin.
     bnd (if truthy pin then bnd (py_item e ''snippet_sha256'') (\<lambda>s. in_strs s (hashes h)) else Inr False) (\<lambda>matches.
     bnd (py_item e ''url'') (\<lambda>url.
       if matches then Inr (url, ''content_matches'')
       else
         bnd (if truthy pin then in_strs url (by_url h) else Inr False) (\<lambda>differs.
           Inr (url, if differs then ''content_differs'' else ''content_not_held'')))))"

definition resolve :: "ucd \<Rightarrow> py \<Rightarrow> held \<Rightarrow> (token \<times> es_report) res" where
  "resolve u payload h =
     bnd (py_contains payload (S ''evidence_set'')) (\<lambda>present.
     if \<not> present then Inr (Unknown, no_report)
     else
       bnd (py_item payload ''evidence_set'') (\<lambda>es.
       bnd (validate u es) (\<lambda>(conds, d, unsupported).
         if conds \<noteq> {} then Inr (Halt, no_report \<lparr> r_conditions := conds \<rparr>)
         else if unsupported then Inr (Unknown, no_report \<lparr> r_unsupported := True \<rparr>)
         else
           (case (es, d) of
              (PyDict m, Some dd) \<Rightarrow>
                (case dget m ''sources'' of
                   PyList src \<Rightarrow>
                     bnd (map_r (resolve_item h) src) (\<lambda>items.
                       let all_match = list_all (\<lambda>i. snd i = ''content_matches'') items
                       in Inr (if d_fully_pinned dd \<and> all_match then Resolved else Unknown,
                               no_report \<lparr> r_derived := d, r_items := items \<rparr>))
                 | _ \<Rightarrow> Inl TypeError)
            | _ \<Rightarrow> Inl TypeError))))"

section \<open>The issuer side\<close>

definition min_by :: "('a \<times> bytes) list \<Rightarrow> 'a \<times> bytes" where
  "min_by xs = foldl (\<lambda>m x. if snd x < snd m then x else m) (hd xs) (tl xs)"

definition build_set :: "py list \<Rightarrow> py res" where
  "build_set entries =
     bnd (map_r (\<lambda>e. bnd (field_b e ''retrieved_at'') (\<lambda>k. Inr (e, k))) entries) (\<lambda>ks.
     if ks = [] then Inl ValueError
     else
       bnd (py_item (fst (min_by ks)) ''retrieved_at'') (\<lambda>at.
       bnd (map_r (\<lambda>e. bnd (py_item e ''pinned'') (\<lambda>v. Inr (truthy v))) entries) (\<lambda>pins.
       bnd (evidence_root entries) (\<lambda>root.
         Inr (PyDict
           [(U ''evidence_set_version'', es_version), (U ''retrieved_at'', at),
            (U ''source_count'', PyInt (int (length entries))),
            (U ''pinned_count'', PyInt (int (length (filter id pins)))),
            (U ''fully_pinned'', PyBool (list_all id pins \<and> 0 < length entries)),
            (U ''evidence_root'', root), (U ''sources'', PyList entries)])))))"

definition build :: "ucd \<Rightarrow> py list \<Rightarrow> py res" where
  "build u entries =
     bnd (build_set entries) (\<lambda>es.
     bnd (validate u es) (\<lambda>(conds, d, unsupported). if conds \<noteq> {} then Inl ValueError else Inr es))"

text \<open>The exit code of \<^verbatim>\<open>main\<close>.\<close>

fun token_exit :: "token \<Rightarrow> nat" where
  "token_exit Resolved = 0"
| "token_exit Unknown = 2"
| "token_exit Halt = 1"

definition es_main :: "ucd \<Rightarrow> py \<Rightarrow> held \<Rightarrow> nat res" where
  "es_main u payload h = bnd (resolve u payload h) (\<lambda>(t, r). Inr (token_exit t))"

section \<open>The root as a function of the bound members\<close>

lemma mset_sort_eq: "mset xs = mset ys \<Longrightarrow> sort xs = sort (ys :: 'a :: linorder list)"
  by (metis mset_sort properties_for_sort sorted_sort)

definition pinned_keys :: "py list \<Rightarrow> bytes list list res" where
  "pinned_keys src = bnd (filter_r pinned_true src) (map_r sort_key_of)"

definition root_of :: "bytes list list \<Rightarrow> py" where
  "root_of ks = (if ks = [] then PyNone else PyStr (hex_of (hd (merkle_loop (map (\<lambda>k. sha256 (leaf_pre k)) ks)))))"

lemma map_r_keyed:
  "map_r (\<lambda>e. bnd (f e) (\<lambda>k. Inr (k, e))) es = bnd (map_r f es) (\<lambda>ks. Inr (zip ks es))"
  by (induction es) (auto simp: bnd_assoc)

lemma map_r_leaf: "\<forall>x \<in> set xs. sort_key_of (snd x) = Inr (fst x) \<Longrightarrow> map_r leaf (map snd xs) = Inr (map (\<lambda>x. sha256 (leaf_pre (fst x))) xs)"
  by (induction xs) (auto simp: leaf_def)

text \<open>The root is a function of the bound members of the pinned entries alone.\<close>

lemma evidence_root_eq: "evidence_root src = bnd (pinned_keys src) (\<lambda>ks. Inr (root_of (sort ks)))"
proof (cases "pinned_keys src")
  case (Inl e)
  then show ?thesis
    by (cases "filter_r pinned_true src") (auto simp: evidence_root_def pinned_keys_def map_r_keyed)
next
  case (Inr ks)
  then obtain es where es: "filter_r pinned_true src = Inr es" "map_r sort_key_of es = Inr ks"
    by (auto simp: pinned_keys_def)
  have l: "length ks = length es" by (rule length_map_r [OF es(2)])
  have "\<forall>x \<in> set (zip ks es). sort_key_of (snd x) = Inr (fst x)"
    using es(2) by (auto simp: map_r_eq_Inr list_all2_conv_all_nth in_set_zip)
  then have "map_r leaf (map snd (sort_key fst (zip ks es))) = Inr (map (\<lambda>k. sha256 (leaf_pre k)) (map fst (sort_key fst (zip ks es))))"
    by (subst map_r_leaf) (auto simp: comp_def)
  also have "map fst (sort_key fst (zip ks es)) = sort ks"
    using l by (simp add: map_fst_sort)
  finally show ?thesis
    using Inr es l by (auto simp: evidence_root_def map_r_keyed root_of_def)
qed

lemma pinned_keys_perm:
  assumes "pinned_keys xs = Inr ks" "mset xs = mset ys"
  shows "\<exists>ks'. pinned_keys ys = Inr ks' \<and> mset ks' = mset ks"
proof -
  let ?P = "\<lambda>x. projr (pinned_true x)" and ?k = "\<lambda>x. projr (sort_key_of x)"
  from assms(1) obtain es where es: "filter_r pinned_true xs = Inr es" "map_r sort_key_of es = Inr ks"
    by (auto simp: pinned_keys_def)
  have p: "\<forall>x \<in> set xs. pinned_true x = Inr (?P x)" using filter_r_raises [OF es(1)] by force
  then have e: "es = filter ?P xs" using es(1) filter_r_values [OF p] by simp
  have k: "\<forall>x \<in> set es. sort_key_of x = Inr (?k x)" using map_r_raises [OF es(2)] by force
  then have ks: "ks = map ?k (filter ?P xs)" using es(2) e map_r_values [OF k] by simp
  have s: "set ys = set xs" using assms(2) by (metis set_mset_mset)
  have "filter_r pinned_true ys = Inr (filter ?P ys)" using p s by (intro filter_r_values) simp
  moreover have "map_r sort_key_of (filter ?P ys) = Inr (map ?k (filter ?P ys))"
    using k s e by (intro map_r_values) simp
  ultimately have "pinned_keys ys = Inr (map ?k (filter ?P ys))" by (simp add: pinned_keys_def)
  moreover have "mset (map ?k (filter ?P ys)) = mset ks" unfolding ks using assms(2) by (simp only: mset_map mset_filter)
  ultimately show ?thesis by blast
qed

section \<open>Binding\<close>

definition nul_free :: "bytes list \<Rightarrow> bool" where
  "nul_free fs \<longleftrightarrow> (\<forall>f \<in> set fs. 0 \<notin> set f)"

lemma concat_nul_inj:
  assumes "length fs = length gs" "nul_free fs" "nul_free gs" "concat (map (\<lambda>f. 0 # f) fs) = concat (map (\<lambda>f. 0 # f) gs)"
  shows "fs = gs"
  using assms
proof (induction fs gs rule: list_induct2)
  case (Cons f fs g gs)
  let ?c = "\<lambda>hs. concat (map (\<lambda>f. 0 # f) hs) :: bytes"
  have tw: "takeWhile (\<lambda>b. b \<noteq> 0) (h @ ?c hs) = h \<and> dropWhile (\<lambda>b. b \<noteq> 0) (h @ ?c hs) = ?c hs" if "0 \<notin> set h" for h hs
    using that by (cases hs; induction h) auto
  have "f @ ?c fs = g @ ?c gs" "0 \<notin> set f" "0 \<notin> set g" using Cons.prems by (auto simp: nul_free_def)
  with tw [of f fs] tw [of g gs] have "f = g" "?c fs = ?c gs" by metis+
  with Cons show ?case by (auto simp: nul_free_def)
qed simp

lemma leaf_pre_inj:
  "leaf_pre fs = leaf_pre gs \<Longrightarrow> length fs = length gs \<Longrightarrow> nul_free fs \<Longrightarrow> nul_free gs \<Longrightarrow> fs = gs"
  by (auto simp: leaf_pre_def intro: concat_nul_inj)

lemma leaf_node_differ: "leaf_pre fs \<noteq> node_pre l r"
  by (simp add: leaf_pre_def node_pre_def leaf_prefix_def node_prefix_def U_def utf8_total_def utf8_char_def)

lemma node_pre_inj: "node_pre l r = node_pre l' r' \<Longrightarrow> length l = length l' \<or> length r = length r' \<Longrightarrow> l = l' \<and> r = r'"
  by (auto simp: node_pre_def)

definition bound_key :: "bytes list \<Rightarrow> bool" where
  "bound_key k \<longleftrightarrow> length k = 4 \<and> nul_free k"

interpretation evidence: merkle leaf_pre node_pre bound_key
  proof unfold_locales
  show "bound_key k \<Longrightarrow> bound_key k' \<Longrightarrow> leaf_pre k = leaf_pre k' \<Longrightarrow> k = k'" for k k'
    by (auto simp: bound_key_def intro: leaf_pre_inj)
qed (rule leaf_node_differ, rule node_pre_inj)

lemma next_level_join: "next_level xs = join_level (\<lambda>l r. sha256 (node_pre l r)) xs"
  by (induction xs rule: next_level.induct) (auto simp: node_def)

lemma merkle_loop_join: "merkle_loop xs = join_loop (\<lambda>l r. sha256 (node_pre l r)) xs"
proof (induction xs rule: merkle_loop.induct)
  case (1 xs)
  then show ?case
    by (subst merkle_loop.simps, subst join_loop.simps) (simp add: next_level_join)
qed

lemma root_of_merkle: "ks \<noteq> [] \<Longrightarrow> root_of ks = PyStr (hex_of (merkle_root leaf_pre node_pre ks))"
  by (simp add: root_of_def merkle_root_def merkle_loop_join)

text \<open>The inputs hashed for the root over given members.\<close>

abbreviation set_inputs :: "bytes list list \<Rightarrow> bytes set" where
  "set_inputs ks \<equiv> root_inputs leaf_pre node_pre ks"

lemma root_of_binds:
  assumes "root_of ks = root_of ks'" "\<forall>k \<in> set ks. bound_key k" "\<forall>k \<in> set ks'. bound_key k"
  shows "ks = ks' \<or> (\<exists>a \<in> set_inputs ks. \<exists>b \<in> set_inputs ks'. collision a b)"
proof (cases "ks = [] \<or> ks' = []")
  case True
  with assms(1) show ?thesis by (auto simp: root_of_def split: if_splits)
next
  case False
  then have "hex_of (merkle_root leaf_pre node_pre ks) = hex_of (merkle_root leaf_pre node_pre ks')"
    using assms(1) by (simp add: root_of_merkle)
  then have "merkle_root leaf_pre node_pre ks = merkle_root leaf_pre node_pre ks'" by (metis fromhex_hex_of sum.inject(2))
  with False show ?thesis using evidence.root_binds assms(2,3) by blast
qed

lemma opt_empty [simp]: "(opt b c = {}) = (\<not> b)" "opt True c = {c}" "opt False c = {}"
  by (simp_all add: opt_def)

lemma entry_clean:
  assumes "fst (check_entry u e) = {}"
  obtains d where "e = PyDict d" "valid_ts u (dget d ''retrieved_at'')" "is_bool (dget d ''pinned'')" "is_str (dget d ''url'')"
    "\<forall>k \<in> {''url'', ''snippet_sha256'', ''content_kind'', ''retrieved_at''}. \<not> has_nul (dget d k)"
    "\<not> bad_hex (dget d ''snippet_sha256'')"
    "dget d ''pinned'' = PyBool True \<Longrightarrow> dget d ''snippet_sha256'' \<noteq> PyNone \<and> py_in (dget d ''content_kind'') content_kinds"
    "dget d ''pinned'' \<noteq> PyBool True \<Longrightarrow> dget d ''snippet_sha256'' = PyNone \<and> dget d ''content_kind'' = PyNone \<and>
       has_key d ''snippet_sha256'' \<and> py_in (dget d ''unpinned_reason'') unpinned_reasons"
    "snd (check_entry u e) \<inter> {''url'', ''pinned'', ''snippet_sha256'', ''content_kind'', ''retrieved_at'', ''*''} = {}"
proof (cases e)
  case (PyDict d)
  with assms show ?thesis
    by (intro that [of d]) (auto simp: check_entry_def Let_def split: if_splits)
qed (use assms in \<open>simp_all add: check_entry_def\<close>)

lemma validate_parts:
  assumes "validate u v = Inr ({}, Some d, unsup)"
  obtains es src want where "v = PyDict es" "dget es ''evidence_set_version'' = es_version" "unsup = False" "dget es ''sources'' = PyList src" "src \<noteq> []"
    "\<forall>e \<in> set src. fst (check_entry u e) = {}" "set_level u es src (map (check_entry u) src) = Inr {}"
    "evidence_root src = Inr want" "dget es ''evidence_root'' = PyNone \<or> py_eq (dget es ''evidence_root'') want"
    "d = \<lparr> d_source_count = length src, d_pinned_count = length (filter (\<lambda>e. pinned_true e = Inr True) src),
           d_fully_pinned = (length (filter (\<lambda>e. pinned_true e = Inr True) src) = length src \<and> 0 < length src),
           d_evidence_root = want \<rparr>"
proof (cases v)
  case (PyDict es)
  then show ?thesis
  proof (cases "dget es ''sources''")
    case (PyList src)
    with PyDict assms show ?thesis
      by (cases src) (auto simp: validate_def Let_def intro!: that [of es src] split: if_splits)
  qed (use PyDict assms in \<open>auto simp: validate_def split: if_splits\<close>)
qed (use assms in \<open>simp_all add: validate_def\<close>)

lemma field_b_nul_free:
  assumes "field_b (PyDict d) k = Inr b" "\<not> has_nul (dget d k)"
  shows "0 \<notin> set b"
  using assms utf8_total_nul by (auto simp: field_b_def has_nul_def dget_def utf8_def split: option.splits if_splits)

lemma sort_key_bound:
  assumes "fst (check_entry u e) = {}" "sort_key_of e = Inr k"
  shows "bound_key k"
  using assms(1)
proof (rule entry_clean)
  fix d assume d: "e = PyDict d" "\<forall>k \<in> {''url'', ''snippet_sha256'', ''content_kind'', ''retrieved_at''}. \<not> has_nul (dget d k)"
  with assms(2) show ?thesis
    by (auto simp: sort_key_of_def bound_key_def nul_free_def dest: field_b_nul_free)
qed

lemma pinned_keys_bound:
  assumes "pinned_keys src = Inr ks" "\<forall>e \<in> set src. fst (check_entry u e) = {}"
  shows "\<forall>k \<in> set ks. bound_key k"
proof
  fix k assume k: "k \<in> set ks"
  from assms(1) obtain es where es: "filter_r pinned_true src = Inr es" "map_r sort_key_of es = Inr ks"
    by (auto simp: pinned_keys_def)
  have "\<forall>x \<in> set src. pinned_true x = Inr (projr (pinned_true x))" using filter_r_raises [OF es(1)] by force
  from filter_r_values [OF this] es(1) have "set es \<subseteq> set src" by auto
  moreover obtain e where "e \<in> set es" "sort_key_of e = Inr k"
    using map_r_elem [OF es(2) k] by blast
  ultimately show "bound_key k" using assms(2) sort_key_bound by blast
qed

text \<open>An entry whose content is held under the digest it pins.\<close>

definition content_held :: "held \<Rightarrow> py \<Rightarrow> bool" where
  "content_held h e \<longleftrightarrow>
     (\<exists>d s. e = PyDict d \<and> dget d ''pinned'' = PyBool True \<and> dget d ''snippet_sha256'' = PyStr s \<and> s \<in> set (hashes h))"

lemma bool_cases: "is_bool v \<Longrightarrow> v = PyBool True \<or> v = PyBool False"
  by (cases v) auto

lemma resolve_item_clean:
  assumes "fst (check_entry u e) = {}"
  shows "\<exists>url r. resolve_item h e = Inr (url, r) \<and> (r = ''content_matches'' \<longleftrightarrow> content_held h e)"
  using assms
proof (rule entry_clean)
  fix d assume d: "e = PyDict d" "is_bool (dget d ''pinned'')" "is_str (dget d ''url'')" "\<not> bad_hex (dget d ''snippet_sha256'')"
    "dget d ''pinned'' = PyBool True \<Longrightarrow> dget d ''snippet_sha256'' \<noteq> PyNone \<and> py_in (dget d ''content_kind'') content_kinds"
  obtain url where url: "dget d ''url'' = PyStr url" using d(3) by (cases "dget d ''url''") auto
  have item: "py_item e ''url'' = Inr (PyStr url)" using d(1) dget_item [of d "''url''"] url by simp
  show ?thesis
  proof (cases "dget d ''pinned'' = PyBool True")
    case True
    then obtain s where s: "dget d ''snippet_sha256'' = PyStr s"
      using d(4,5) by (cases "dget d ''snippet_sha256''") (auto simp: bad_hex_def)
    have i: "py_item e ''pinned'' = Inr (PyBool True)" "py_item e ''snippet_sha256'' = Inr (PyStr s)"
      using d(1) dget_item [of d "''pinned''"] dget_item [of d "''snippet_sha256''"] True s by simp_all
    show ?thesis
      unfolding resolve_item_def i item using True s d(1) by (auto simp: in_strs_def content_held_def)
  next
    case False
    then have f: "dget d ''pinned'' = PyBool False" using bool_cases [OF d(2)] by simp
    then have i: "py_item e ''pinned'' = Inr (PyBool False)" using d(1) dget_item [of d "''pinned''"] by simp
    show ?thesis
      unfolding resolve_item_def i item using f d(1) by (auto simp: content_held_def)
  qed
qed

lemma resolve_items_clean:
  assumes "\<forall>e \<in> set src. fst (check_entry u e) = {}"
  shows "\<exists>items. map_r (resolve_item h) src = Inr items \<and>
    (list_all (\<lambda>i. snd i = ''content_matches'') items \<longleftrightarrow> (\<forall>e \<in> set src. content_held h e))"
  using assms
proof (induction src)
  case (Cons e src)
  with resolve_item_clean [of u e h] show ?case by fastforce
qed simp

lemma content_held_pinned: "content_held h e \<Longrightarrow> pinned_true e = Inr True"
  by (auto simp: content_held_def pinned_true_def)

lemma foldl_min_by: "snd (foldl (\<lambda>m x. if snd x < snd m then x else m) a xs) = foldl min (snd a) (map snd (xs :: ('a \<times> bytes) list))"
proof (induction xs arbitrary: a)
  case (Cons x xs)
  have "snd (if snd x < snd a then x else a) = min (snd a) (snd x)" 
    by (cases "snd x < snd a") (auto simp: min.absorb1 min.absorb2 less_imp_le not_less dest: leD)
  then show ?case using Cons by simp
qed simp

lemma foldl_min_by_in: "foldl (\<lambda>m x. if snd x < snd m then x else m) a xs \<in> insert a (set xs)"
proof (induction xs arbitrary: a)
  case (Cons x xs)
  let ?f = "\<lambda>m x. if snd x < snd m then x else m"
  have "foldl ?f (?f a x) xs \<in> insert (?f a x) (set xs)" by (rule Cons.IH)
  moreover obtain y where y: "?f a x = y" "y = a \<or> y = x" by auto
  ultimately show ?case unfolding foldl_Cons y(1) by auto
qed simp

lemma min_by_least: "ks \<noteq> [] \<Longrightarrow> snd (min_by ks) = least_bytes (map snd ks) \<and> min_by ks \<in> set ks"
  using foldl_min_by_in [of "hd ks" "tl ks"]
  by (cases ks) (auto simp: min_by_def least_bytes_def foldl_min_by)

definition encodable :: "py \<Rightarrow> bool" where
  "encodable e \<longleftrightarrow> (\<exists>b. field_b e ''retrieved_at'' = Inr b) \<and> (pinned_true e = Inr True \<longrightarrow> (\<exists>k. sort_key_of e = Inr k))"

lemma clean_pinned:
  assumes "fst (check_entry u e) = {}"
  shows "\<exists>d. e = PyDict d \<and> (\<exists>b. dget d ''pinned'' = PyBool b \<and> pinned_true e = Inr b \<and> py_item e ''pinned'' = Inr (PyBool b))"
  using assms
proof (rule entry_clean)
  fix d assume d: "e = PyDict d" "is_bool (dget d ''pinned'')"
  then show ?thesis using dget_item [of d "''pinned''"] by (cases "dget d ''pinned''") (auto simp: pinned_true_def)
qed

lemma build_root:
  assumes "\<forall>e \<in> set entries. fst (check_entry u e) = {}" "\<forall>e \<in> set entries. encodable e"
  shows "\<exists>root. evidence_root entries = Inr root \<and>
    (root = PyNone \<longleftrightarrow> filter (\<lambda>e. pinned_true e = Inr True) entries = []) \<and> (root = PyNone \<or> is_str root)"
proof -
  let ?P = "\<lambda>e. pinned_true e = Inr True"
  have "\<forall>e \<in> set entries. pinned_true e = Inr (?P e)" using assms(1) clean_pinned by fastforce
  then have f: "filter_r pinned_true entries = Inr (filter ?P entries)" by (rule filter_r_values)
  have "\<forall>e \<in> set (filter ?P entries). sort_key_of e = Inr (projr (sort_key_of e))"
    using assms(2) by (auto simp: encodable_def)
  then have "map_r sort_key_of (filter ?P entries) = Inr (map (\<lambda>e. projr (sort_key_of e)) (filter ?P entries))"
    by (rule map_r_values)
  then have k: "pinned_keys entries = Inr (map (\<lambda>e. projr (sort_key_of e)) (filter ?P entries))"
    using f by (simp add: pinned_keys_def)
  have "sort ks = [] \<longleftrightarrow> ks = []" for ks :: "bytes list list" by (metis length_0_conv length_sort)
  then show ?thesis unfolding evidence_root_eq k by (simp add: root_of_def)
qed

lemma field_b_Inr: "field_b e k = Inr x \<Longrightarrow> \<exists>t. py_item e k = Inr (PyStr t) \<and> utf8 t = Inr x"
  by (auto simp: field_b_def)

lemma build_set_clean:
  assumes "entries \<noteq> []" "\<forall>e \<in> set entries. fst (check_entry u e) = {}" "\<forall>e \<in> set entries. encodable e"
  obtains t root where
    "build_set entries = Inr (PyDict
       [(U ''evidence_set_version'', es_version), (U ''retrieved_at'', PyStr t),
        (U ''source_count'', PyInt (int (length entries))),
        (U ''pinned_count'', PyInt (int (length (filter (\<lambda>e. pinned_true e = Inr True) entries)))),
        (U ''fully_pinned'', PyBool (list_all (\<lambda>e. pinned_true e = Inr True) entries \<and> 0 < length entries)),
        (U ''evidence_root'', root), (U ''sources'', PyList entries)])"
    "evidence_root entries = Inr root" "root = PyNone \<longleftrightarrow> filter (\<lambda>e. pinned_true e = Inr True) entries = []" "root = PyNone \<or> is_str root"
    "utf8 t = Inr (least_bytes (map (\<lambda>e. projr (field_b e ''retrieved_at'')) entries))"
proof -
  let ?P = "\<lambda>e. pinned_true e = Inr True" and ?b = "\<lambda>e. projr (field_b e ''retrieved_at'')"
  obtain root where root: "evidence_root entries = Inr root" "root = PyNone \<longleftrightarrow> filter ?P entries = []" "root = PyNone \<or> is_str root"
    using build_root [OF assms(2,3)] by blast
  have b: "\<forall>e \<in> set entries. field_b e ''retrieved_at'' = Inr (?b e)" using assms(3) by (auto simp: encodable_def)
  define ks where "ks = map (\<lambda>e. (e, ?b e)) entries"
  have m: "map_r (\<lambda>e. bnd (field_b e ''retrieved_at'') (\<lambda>k. Inr (e, k))) entries = Inr ks"
    unfolding ks_def using b by (intro map_r_values) simp
  have pins: "map_r (\<lambda>e. bnd (py_item e ''pinned'') (\<lambda>v. Inr (truthy v))) entries = Inr (map ?P entries)"
    using assms(2) clean_pinned by (intro map_r_values) fastforce
  have ne: "ks \<noteq> []" using assms(1) by (simp add: ks_def)
  have mk: "map snd ks = map ?b entries" by (simp add: ks_def comp_def)
  obtain e where e: "min_by ks = (e, ?b e)" "e \<in> set entries" "?b e = least_bytes (map ?b entries)"
  proof -
    have s: "snd (min_by ks) = least_bytes (map ?b entries)" "min_by ks \<in> set ks"
      using min_by_least [OF ne] unfolding mk by simp_all
    then obtain e where "e \<in> set entries" "min_by ks = (e, ?b e)" by (auto simp: ks_def)
    with s(1) that show ?thesis by simp
  qed
  then obtain t where t: "py_item e ''retrieved_at'' = Inr (PyStr t)" "utf8 t = Inr (?b e)"
    using field_b_Inr [of e "''retrieved_at''" "?b e"] b by blast
  have "filter id (map ?P entries) = map ?P (filter ?P entries)" by (simp add: filter_map comp_def)
  then have l: "length (filter id (map ?P entries)) = length (filter ?P entries)" by simp
  show ?thesis
  proof (rule that [of t root])
    show "build_set entries = Inr (PyDict
       [(U ''evidence_set_version'', es_version), (U ''retrieved_at'', PyStr t),
        (U ''source_count'', PyInt (int (length entries))),
        (U ''pinned_count'', PyInt (int (length (filter ?P entries)))),
        (U ''fully_pinned'', PyBool (list_all ?P entries \<and> 0 < length entries)),
        (U ''evidence_root'', root), (U ''sources'', PyList entries)])"
      unfolding build_set_def m pins root(1) bnd_Inr l using ne e(1) t(1) by (simp add: list_all_iff)
  qed (use root t(2) e(3) in simp_all)
qed

lemma clean_pinned_count:
  assumes "\<forall>e \<in> set src. fst (check_entry u e) = {}"
  shows "filter (\<lambda>e. case e of PyDict d \<Rightarrow> dget d ''pinned'' = PyBool True | _ \<Rightarrow> False) src = filter (\<lambda>e. pinned_true e = Inr True) src"
  using assms clean_pinned by (intro filter_cong refl) fastforce

lemma length_filter_all: "(length (filter P xs) = length xs) = list_all P xs"
  by (auto simp: list_all_iff) (metis length_filter_less less_irrefl)

lemma set_level_clean:
  assumes c: "\<forall>e \<in> set src. fst (check_entry u e) = {}" and ne: "src \<noteq> []"
    and enc: "\<forall>e \<in> set src. encodable e"
    and dup: "\<forall>ab \<in> set (pairs src). same_retrieval (fst ab) (snd ab) = Inr False"
    and sc: "dget_default es ''source_count'' (PyInt (int (length src))) = PyInt (int (length src))" "count_operand es ''source_count'' (Some (length src)) = Some (int (length src))"
    and pc: "\<not> count_mismatch es ''pinned_count'' (length (filter (\<lambda>e. pinned_true e = Inr True) src))"
       "count_operand es ''pinned_count'' (Some (length (filter (\<lambda>e. pinned_true e = Inr True) src))) = Some (int (length (filter (\<lambda>e. pinned_true e = Inr True) src)))"
    and fp: "dget_default es ''fully_pinned'' (PyBool (list_all (\<lambda>e. pinned_true e = Inr True) src)) = PyBool (list_all (\<lambda>e. pinned_true e = Inr True) src)"
    and rt: "dget es ''evidence_root'' = PyNone \<longleftrightarrow> filter (\<lambda>e. pinned_true e = Inr True) src = []"
    and ts: "dget es ''retrieved_at'' = PyStr t" "utf8 t = Inr (least_bytes (map (\<lambda>e. projr (field_b e ''retrieved_at'')) src))"
  shows "set_level u es src (map (check_entry u) src) = Inr {}"
proof -
  have bads: "snd (check_entry u e) \<inter> {''url'', ''pinned'', ''snippet_sha256'', ''content_kind'', ''retrieved_at'', ''*''} = {}" if "e \<in> set src" for e
    using bspec [OF c that] by (rule entry_clean)
  have pok: "list_all (\<lambda>b. ''pinned'' \<notin> b \<and> ''*'' \<notin> b) (map snd (map (check_entry u) src))"
    "list_all (\<lambda>b. ''retrieved_at'' \<notin> b \<and> ''*'' \<notin> b) (map snd (map (check_entry u) src))"
    using bads by (auto simp: list_all_iff)
  have z: "zip src (map snd (map (check_entry u) src)) = map (\<lambda>e. (e, snd (check_entry u e))) src" by (induction src) auto
  have ok: "map fst (filter (\<lambda>(e, b). b \<inter> {''url'', ''pinned'', ''snippet_sha256'', ''content_kind'', ''*''} = {}) (zip src (map snd (map (check_entry u) src)))) = src"
    unfolding z using bads by (subst filter_True) (auto simp: comp_def)
  have mt: "map_r (\<lambda>e. field_b e ''retrieved_at'') src = Inr (map (\<lambda>e. projr (field_b e ''retrieved_at'')) src)"
    using enc by (intro map_r_values) (auto simp: encodable_def)
  have md: "map_r (\<lambda>(a, b). same_retrieval a b) (pairs src) = Inr (map (\<lambda>_. False) (pairs src))"
    using dup by (intro map_r_values) auto
  have hk: "has_key es ''retrieved_at''" using ts(1) by (auto simp: has_key_def dget_def split: option.splits)
  let ?p = "length (filter (\<lambda>e. pinned_true e = Inr True) src)"
  have all: "(int ?p = int (length src) \<and> 0 < int (length src)) = list_all (\<lambda>e. pinned_true e = Inr True) src"
    using ne by (simp add: length_filter_all)
  have cm: "\<not> count_mismatch es ''source_count'' (length src)" using sc(1) by (simp add: count_mismatch_def)
  have r: "\<not> (?p = 0 \<and> dget es ''evidence_root'' \<noteq> PyNone)" "\<not> (0 < ?p \<and> dget es ''evidence_root'' = PyNone)" using rt by simp_all
  have f: "\<not> list_ex id (map (\<lambda>_. False) (pairs src))" by (simp add: list_ex_iff)
  have e: "opt False c = {}" for c by simp
  note b = pok(1) [THEN eqTrueI] pok(2) [THEN eqTrueI] cm [THEN eq_False [THEN iffD2]] pc(1) [THEN eq_False [THEN iffD2]] r [THEN eq_False [THEN iffD2]] f [THEN eq_False [THEN iffD2]] hk [THEN eqTrueI]
  show ?thesis
    unfolding set_level_def Let_def ok clean_pinned_count [OF c] mt md bnd_Inr b if_True sc(2) pc(2) ts py.case prod.case option.case all fp e if_False
    by (simp add: ts fp)
qed

lemma build_clean:
  assumes "entries \<noteq> []" "\<forall>e \<in> set entries. fst (check_entry u e) = {}" "\<forall>e \<in> set entries. encodable e"
    and "\<forall>ab \<in> set (pairs entries). same_retrieval (fst ab) (snd ab) = Inr False"
  shows "\<exists>es d. build u entries = Inr es \<and> py_item es ''sources'' = Inr (PyList entries) \<and>
    validate u es = Inr ({}, Some d, False) \<and> d_source_count d = length entries"
  using assms(1-3)
proof (rule build_set_clean)
  let ?P = "\<lambda>e. pinned_true e = Inr True"
  fix t root
  define es where "es =
       [(U ''evidence_set_version'', es_version), (U ''retrieved_at'', PyStr t),
        (U ''source_count'', PyInt (int (length entries))),
        (U ''pinned_count'', PyInt (int (length (filter ?P entries)))),
        (U ''fully_pinned'', PyBool (list_all ?P entries \<and> 0 < length entries)),
        (U ''evidence_root'', root), (U ''sources'', PyList entries)]"
  assume b: "build_set entries = Inr (PyDict
       [(U ''evidence_set_version'', es_version), (U ''retrieved_at'', PyStr t),
        (U ''source_count'', PyInt (int (length entries))),
        (U ''pinned_count'', PyInt (int (length (filter ?P entries)))),
        (U ''fully_pinned'', PyBool (list_all ?P entries \<and> 0 < length entries)),
        (U ''evidence_root'', root), (U ''sources'', PyList entries)])"
    and r: "evidence_root entries = Inr root" "root = PyNone \<longleftrightarrow> filter ?P entries = []" "root = PyNone \<or> is_str root"
    and ts: "utf8 t = Inr (least_bytes (map (\<lambda>e. projr (field_b e ''retrieved_at'')) entries))"
  have g: "dget es ''evidence_set_version'' = es_version" "dget es ''sources'' = PyList entries" "dget es ''evidence_root'' = root"
    "dget es ''retrieved_at'' = PyStr t"
    by (simp_all add: es_def dget_simps)
  have sl: "set_level u es entries (map (check_entry u) entries) = Inr {}"
  proof (rule set_level_clean [OF assms(2,1,3,4)])
    show "dget es ''evidence_root'' = PyNone \<longleftrightarrow> filter ?P entries = []" using g(3) r(2) by simp
    show "dget es ''retrieved_at'' = PyStr t" by (rule g(4))
  qed (use ts assms(1) in \<open>simp_all add: es_def lit_simps count_operand_def count_mismatch_def\<close>)
  have re: "root = PyNone \<or> py_eq root root" using r(3) by (cases root) (auto simp: py_eq_Str_left)
  have c: "\<Union> (set (map fst (map (check_entry u) entries))) = {}" using assms(2) by auto
  obtain e es' where ent: "entries = e # es'" using assms(1) by (cases entries) auto
  have v: "validate u (PyDict es) = Inr ({}, Some \<lparr> d_source_count = length entries, d_pinned_count = length (filter ?P entries),
      d_fully_pinned = (length (filter ?P entries) = length entries \<and> 0 < length entries), d_evidence_root = root \<rparr>, False)"
    using re sl r(1) c unfolding validate_def Let_def py.case g ent list.case by (auto simp: es_version_def)
  have "build u entries = Inr (PyDict es)" using b v by (simp add: build_def es_def)
  moreover have "py_item (PyDict es) ''sources'' = Inr (PyList entries)" by (simp add: es_def)
  ultimately show ?thesis using v by (intro exI conjI) (assumption, assumption, assumption, simp only: es_derived.simps)
qed

section \<open>Samples\<close>

lemma non_ascii_ts:
  assumes "ucd_ascii u" "u_digit u c = Some d"
  shows "valid_ts u (PyStr (U ''2026-01-02T03:04:05.67'' @ [c] @ U ''Z''))"
proof -
  have dig: "u_digit u n = ascii_digit n" if "n < 128" for n using assms(1) that by (simp add: ucd_ascii_def)
  show ?thesis
    using assms(2) by (simp add: valid_ts_def match_pat_def num_at_def days_in_month_def U_def dig ascii_digit_def)
qed

definition sample_ts :: ustr where
  "sample_ts = U ''2026-01-02T03:04:05.678Z''"

lemma sample_ts_valid: "valid_ts sample_ucd (PyStr sample_ts)"
  using non_ascii_ts [OF sample_ucd_ascii, of 56 8] by (simp add: sample_ts_def sample_ucd_def ascii_digit_def U_def)

definition sample_pinned :: py where
  "sample_pinned = PyDict [(U ''url'', S ''https://a''), (U ''retrieved_at'', PyStr sample_ts), (U ''pinned'', PyBool True),
     (U ''snippet_sha256'', PyStr (sha256_hex [])), (U ''content_kind'', S ''snippet'')]"

definition sample_unpinned :: py where
  "sample_unpinned = PyDict [(U ''url'', S ''https://b''), (U ''retrieved_at'', PyStr sample_ts), (U ''pinned'', PyBool False),
     (U ''snippet_sha256'', PyNone), (U ''unpinned_reason'', S ''no_content_returned'')]"

lemma hex64_no_nul: "is_hex64 s \<Longrightarrow> 0 \<notin> set s"
  by (auto simp: is_hex64_def list_all_iff is_lower_hex_def)

lemma sample_clean: "fst (check_entry sample_ucd sample_pinned) = {}" "fst (check_entry sample_ucd sample_unpinned) = {}"
  using sample_ts_valid hex64_no_nul [OF is_hex64_sha256]
  by (simp_all add: check_entry_def sample_pinned_def sample_unpinned_def lit_simps has_nul_def bad_hex_def content_kinds_def unpinned_reasons_def)
    (simp_all add: sample_ts_def U_def)

lemma sample_encodable: "encodable sample_pinned" "encodable sample_unpinned"
  using hex64_scalar [OF is_hex64_sha256]
  by (simp_all add: encodable_def sample_pinned_def sample_unpinned_def field_b_def utf8_def sort_key_of_def sample_ts_def pinned_true_def lit_simps)

lemma sample_distinct: "same_retrieval sample_pinned sample_unpinned = Inr False"
  by (simp add: same_retrieval_def sample_pinned_def sample_unpinned_def)

lemma sample_built:
  "\<exists>es d. build sample_ucd [sample_pinned, sample_unpinned] = Inr (PyDict es) \<and> validate sample_ucd (PyDict es) = Inr ({}, Some d, False) \<and>
     dget es ''sources'' = PyList [sample_pinned, sample_unpinned]"
proof -
  have "\<exists>es d. build sample_ucd [sample_pinned, sample_unpinned] = Inr es \<and>
      py_item es ''sources'' = Inr (PyList [sample_pinned, sample_unpinned]) \<and>
      validate sample_ucd es = Inr ({}, Some d, False) \<and> d_source_count d = length [sample_pinned, sample_unpinned]"
    by (rule build_clean) (simp_all add: sample_clean sample_encodable sample_distinct)
  then obtain es d where e: "build sample_ucd [sample_pinned, sample_unpinned] = Inr es"
    "py_item es ''sources'' = Inr (PyList [sample_pinned, sample_unpinned])" "validate sample_ucd es = Inr ({}, Some d, False)"
    by blast
  from e(3) obtain m where "es = PyDict m" by (auto elim: validate_parts)
  with e show ?thesis by (intro exI [of _ m] exI [of _ d]) (auto simp: dget_def split: option.splits)
qed

section \<open>The properties\<close>

text \<open>The root does not depend on the order the sources are listed in: any permutation has the same root.\<close>

lemma evidence_root_order:
  assumes "evidence_root xs = Inr r" "mset xs = mset ys"
  shows "evidence_root ys = Inr r"
proof -
  from assms(1) obtain ks where k: "pinned_keys xs = Inr ks" "r = root_of (sort ks)"
    by (auto simp: evidence_root_eq)
  with pinned_keys_perm [OF k(1) assms(2)] obtain ks' where "pinned_keys ys = Inr ks'" "sort ks' = sort ks"
    using mset_sort_eq by blast
  with k show ?thesis by (simp add: evidence_root_eq)
qed

text \<open>C8. The root commits to the pinned evidence: two consistent sets with one root pin the same members, up to order, or two of the
  inputs hashed for the roots are a SHA-256 collision. The prefixes keep leaves and nodes apart, and the check that no member
  holds a NUL makes the separator unambiguous.\<close>

theorem evidence_root_binding:
  assumes "validate u (PyDict es) = Inr ({}, Some d, unsup)" "validate u' (PyDict es') = Inr ({}, Some d', unsup')"
    and "d_evidence_root d = d_evidence_root d'"
    and "dget es ''sources'' = PyList src" "dget es' ''sources'' = PyList src'"
  shows "\<exists>ks ks'. pinned_keys src = Inr ks \<and> pinned_keys src' = Inr ks' \<and>
    (mset ks = mset ks' \<or> (\<exists>a \<in> set_inputs (sort ks). \<exists>b \<in> set_inputs (sort ks'). collision a b))"
proof -
  from assms(1,4) have a: "\<forall>e \<in> set src. fst (check_entry u e) = {}" "evidence_root src = Inr (d_evidence_root d)"
    by (auto elim!: validate_parts)
  from assms(2,5) have b: "\<forall>e \<in> set src'. fst (check_entry u' e) = {}" "evidence_root src' = Inr (d_evidence_root d')"
    by (auto elim!: validate_parts)
  from a(2) obtain ks where ks: "pinned_keys src = Inr ks" "d_evidence_root d = root_of (sort ks)"
    by (auto simp: evidence_root_eq)
  from b(2) obtain ks' where ks': "pinned_keys src' = Inr ks'" "d_evidence_root d' = root_of (sort ks')"
    by (auto simp: evidence_root_eq)
  have "root_of (sort ks) = root_of (sort ks')" using ks(2) ks'(2) assms(3) by simp
  from root_of_binds [OF this] pinned_keys_bound [OF ks(1) a(1)] pinned_keys_bound [OF ks'(1) b(1)]
  have "sort ks = sort ks' \<or> (\<exists>a \<in> set_inputs (sort ks). \<exists>b \<in> set_inputs (sort ks'). collision a b)" by simp
  moreover have "mset ks = mset ks'" if "sort ks = sort ks'" using that by (metis mset_sort)
  ultimately show ?thesis using ks(1) ks'(1) by blast
qed

theorem evidence_root_binding_witness:
  "\<exists>ks ks'. pinned_keys [sample_pinned, sample_unpinned] = Inr ks \<and> pinned_keys [sample_pinned, sample_unpinned] = Inr ks' \<and>
    (mset ks = mset ks' \<or> (\<exists>a \<in> set_inputs (sort ks). \<exists>b \<in> set_inputs (sort ks'). collision a b))"
proof -
  obtain es d where e: "validate sample_ucd (PyDict es) = Inr ({}, Some d, False)" "dget es ''sources'' = PyList [sample_pinned, sample_unpinned]"
    using sample_built by blast
  show ?thesis by (rule evidence_root_binding [OF e(1) e(1) refl e(2) e(2)])
qed

text \<open>C33. Resolution always decides a consistent set, and reports it resolved exactly when every entry is pinned and its content is held.\<close>

theorem resolve_complete:
  assumes "validate u es = Inr ({}, Some d, unsup)"
  shows "\<exists>src t r. py_item es ''sources'' = Inr (PyList src) \<and> resolve u (PyDict [(U ''evidence_set'', es)]) h = Inr (t, r) \<and>
    t = (if \<forall>e \<in> set src. content_held h e then Resolved else Unknown)"
  using assms
proof (rule validate_parts)
  fix m src want
  assume v: "es = PyDict m" "unsup = False" "dget m ''sources'' = PyList src" "src \<noteq> []" "\<forall>e \<in> set src. fst (check_entry u e) = {}"
    and d: "d = \<lparr> d_source_count = length src, d_pinned_count = length (filter (\<lambda>e. pinned_true e = Inr True) src),
           d_fully_pinned = (length (filter (\<lambda>e. pinned_true e = Inr True) src) = length src \<and> 0 < length src),
           d_evidence_root = want \<rparr>"
  obtain items where items: "map_r (resolve_item h) src = Inr items"
    "list_all (\<lambda>i. snd i = ''content_matches'') items \<longleftrightarrow> (\<forall>e \<in> set src. content_held h e)"
    using resolve_items_clean [OF v(5)] by blast
  have "d_fully_pinned d" if a: "\<forall>e \<in> set src. content_held h e"
  proof -
    have "filter (\<lambda>e. pinned_true e = Inr True) src = src" using a content_held_pinned by (intro filter_True) blast
    then show ?thesis using v(4) by (simp add: d)
  qed
  with items v assms show ?thesis
    using dget_item [of m "''sources''"] by (auto simp: resolve_def py_contains_def Let_def)
qed

theorem resolve_complete_witness:
  "\<exists>es src t r. (py_item es ''sources'' = Inr (PyList src) \<and>
     resolve sample_ucd (PyDict [(U ''evidence_set'', es)]) \<lparr> hashes = [sha256_hex []], by_url = [] \<rparr> = Inr (t, r) \<and>
     t = (if \<forall>e \<in> set src. content_held \<lparr> hashes = [sha256_hex []], by_url = [] \<rparr> e then Resolved else Unknown))"
proof -
  obtain es d where "validate sample_ucd (PyDict es) = Inr ({}, Some d, False)"
    using sample_built by blast
  from resolve_complete [OF this, of "\<lparr> hashes = [sha256_hex []], by_url = [] \<rparr>"] show ?thesis by blast
qed

text \<open>The issuer side is complete: entries that pass their own checks, are pairwise different retrievals and encode as UTF-8 are built
  into a set, and that set is consistent.\<close>

lemma build_complete:
  assumes "entries \<noteq> []" "\<forall>e \<in> set entries. fst (check_entry u e) = {}" "\<forall>e \<in> set entries. encodable e"
    and "\<forall>ab \<in> set (pairs entries). same_retrieval (fst ab) (snd ab) = Inr False"
  shows "\<exists>es d. build u entries = Inr es \<and> py_item es ''sources'' = Inr (PyList entries) \<and>
    validate u es = Inr ({}, Some d, False) \<and> d_source_count d = length entries"
  using assms by (rule build_clean)

text \<open>A timestamp the check calls canonical need not be ASCII: any Unicode decimal digit is accepted where a digit is expected.\<close>

lemma valid_ts_unicode_digit:
  assumes "ucd_ascii u" "u_digit u c = Some d"
  shows "valid_ts u (PyStr (U ''2026-01-02T03:04:05.67'' @ [c] @ U ''Z''))"
  using assms by (rule non_ascii_ts)

lemma valid_ts_unicode_digit_instance:
  "valid_ts sample_ucd (PyStr (U ''2026-01-02T03:04:05.67'' @ [1634] @ U ''Z''))"
  by (rule valid_ts_unicode_digit [OF sample_ucd_ascii, of _ 2]) (simp add: sample_ucd_def)

end
