(* ===== verification/Jcs.thy ===== *)
theory Jcs
  imports Commit
begin

text \<open>
  The RFC 8785 (JCS) canonicalizer of \<^verbatim>\<open>tools/_rfc8785.py\<close>: \<^verbatim>\<open>js_number\<close>, \<^verbatim>\<open>js_string\<close> and \<^verbatim>\<open>jcs\<close>. The results: on values with
  safe integers and no floats the canonical text is read back by \<^verbatim>\<open>json.loads\<close> as the value with its keys in code-unit order, so
  equal canonical text means equal content; the order of the items of an object does not show in the text; and past \<open>2^53\<close>
  different integers share a canonical text.
\<close>

section \<open>Definitions\<close>

text \<open>\<^verbatim>\<open>int(e)\<close> on the exponent part of a \<^verbatim>\<open>repr\<close>.\<close>

definition exp_int :: "ustr \<Rightarrow> int" where
  "exp_int e =
     (if e \<noteq> [] \<and> hd e = 45 then - int (dec_nat (tl e))
      else if e \<noteq> [] \<and> hd e = 43 then int (dec_nat (tl e)) else int (dec_nat e))"

definition lstrip0 :: "ustr \<Rightarrow> ustr" where
  "lstrip0 s = dropWhile (\<lambda>c. c = 48) s"

definition before :: "nat \<Rightarrow> ustr \<Rightarrow> ustr" where
  "before c s = takeWhile (\<lambda>x. x \<noteq> c) s"

definition after :: "nat \<Rightarrow> ustr \<Rightarrow> ustr" where
  "after c s = tl (dropWhile (\<lambda>x. x \<noteq> c) s)"

text \<open>The layout of a finite non-zero double from its \<^verbatim>\<open>repr\<close>.\<close>

definition js_layout :: "ustr \<Rightarrow> ustr" where
  "js_layout r =
     (let m = before 101 r; e = after 101 r;
          exp10 = (if e \<noteq> [] then exp_int e else 0);
          ip = before 46 m; fp = after 46 m;
          digits0 = lstrip0 (ip @ fp);
          lead_zeros = length (ip @ fp) - length digits0;
          n = int (length ip) - int lead_zeros + exp10;
          digits1 = rstrip0 digits0;
          digits = (if digits1 = [] then [48] else digits1);
          k = int (length digits)
      in if k \<le> n \<and> n \<le> 21 then digits @ zeros (n - k)
         else if 0 < n \<and> n \<le> 21 then take (nat n) digits @ [46] @ drop (nat n) digits
         else if - 6 < n \<and> n \<le> 0 then U ''0.'' @ zeros (- n) @ digits
         else
           (let e1 = n - 1; es = (if 0 \<le> e1 then U ''+'' else U ''-'') @ int_dec \<bar>e1\<bar>
            in [hd digits] @ (if k = 1 then [] else [46] @ tl digits) @ U ''e'' @ es))"

definition js_float :: "pyfloat \<Rightarrow> ustr res" where
  "js_float x =
     (case x of
        FNan \<Rightarrow> Inl ValueError
      | FInf _ \<Rightarrow> Inl ValueError
      | FFin s m e \<Rightarrow>
          if m = 0 then Inr (U ''0'')
          else Inr ((if s then U ''-'' else []) @ js_layout (float_repr (FFin False m e))))"

definition js_number :: "py \<Rightarrow> ustr res" where
  "js_number v =
     (case v of
        PyInt i \<Rightarrow> (if 2 ^ 53 \<le> \<bar>i\<bar> then bnd (float_of_int i) js_float else Inr (int_dec i))
      | PyFloat x \<Rightarrow> js_float x
      | _ \<Rightarrow> Inl TypeError)"

definition js_char :: "nat \<Rightarrow> ustr" where
  "js_char o' =
     (if o' = 34 then [92, 34]
      else if o' = 92 then [92, 92]
      else if o' = 8 then [92, 98]
      else if o' = 12 then [92, 102]
      else if o' = 10 then [92, 110]
      else if o' = 13 then [92, 114]
      else if o' = 9 then [92, 116]
      else if o' < 32 then [92, 117] @ hex_pad 4 o'
      else [o'])"

definition js_string :: "ustr \<Rightarrow> ustr" where
  "js_string s = [34] @ concat (map js_char s) @ [34]"

fun jcs :: "py \<Rightarrow> ustr res" where
  "jcs PyNone = Inr (U ''null'')"
| "jcs (PyBool b) = Inr (if b then U ''true'' else U ''false'')"
| "jcs (PyInt i) = js_number (PyInt i)"
| "jcs (PyFloat x) = js_number (PyFloat x)"
| "jcs (PyStr s) = Inr (js_string s)"
| "jcs (PyList xs) = bnd (map_r jcs xs) (\<lambda>ts. Inr ([91] @ join [44] ts @ [93]))"
| "jcs (PyDict d) =
     bnd (map_r (\<lambda>kr. bnd (utf16_be (fst kr)) (\<lambda>b. Inr (b, kr))) (map (\<lambda>kv. (fst kv, jcs (snd kv))) d)) (\<lambda>keyed.
     bnd (map_r (\<lambda>x. bnd (snd (snd x)) (\<lambda>t. Inr (js_string (fst (snd x)) @ [58] @ t))) (sort_key fst keyed)) (\<lambda>ps.
       Inr ([123] @ join [44] ps @ [125])))"

section \<open>Strings and UTF-16\<close>

lemma js_string_json: "js_string s = json_str False s"
proof -
  have "js_char = esc_char False"
    by (rule ext) (simp add: js_char_def esc_char_def)
  then show ?thesis by (simp add: js_string_def json_str_def)
qed

lemma units16_be:
  "list_all (\<lambda>v. v < 65536) vs \<Longrightarrow>
   units16 False (concat (map (\<lambda>v. [of_nat (v div 256), of_nat (v mod 256)]) vs)) = Inr vs"
proof (induction vs)
  case (Cons v vs)
  then have "unat (of_nat (v div 256) :: byte) = v div 256" "unat (of_nat (v mod 256) :: byte) = v mod 256"
    by (auto intro!: unat_of_nat_byte)
  with Cons show ?case by simp
qed simp

lemma utf16_units_small: "is_scalar c \<Longrightarrow> list_all (\<lambda>v. v < 65536) (utf16_units c)"
  by (auto simp: utf16_units_def is_scalar_def)

lemma utf16_join_units: "is_scalar c \<Longrightarrow> utf16_join (utf16_units c @ vs) = c # utf16_join vs"
proof -
  assume c: "is_scalar c"
  show ?thesis
  proof (cases "c < 0x10000")
    case True
    then show ?thesis using c
      by (cases vs) (auto simp: utf16_units_def is_scalar_def is_surrogate_def)
  next
    case False
    let ?d = "c - 0x10000"
    have d: "c = ?d + 0x10000" "?d div 1024 < 1024" "?d mod 1024 < 1024"
      using False c by (auto simp: is_scalar_def)
    have "?d div 1024 * 1024 + ?d mod 1024 = ?d" by simp
    then show ?thesis using False d
      by (simp add: utf16_units_def)
  qed
qed

lemma utf16_roundtrip: "scalar_str s \<Longrightarrow> utf16_decode False (utf16_be_total s) = Inr s"
proof -
  assume s: "scalar_str s"
  then have "list_all (\<lambda>v. v < 65536) (concat (map utf16_units s))"
    by (induction s) (auto simp: scalar_str_def utf16_units_small)
  moreover from s have "utf16_join (concat (map utf16_units s)) = s"
    by (induction s) (auto simp: scalar_str_def utf16_join_units)
  ultimately show ?thesis by (simp add: utf16_decode_def utf16_be_total_def units16_be)
qed

lemma utf16_be_total_inj: "scalar_str s \<Longrightarrow> scalar_str t \<Longrightarrow> utf16_be_total s = utf16_be_total t \<Longrightarrow> s = t"
  by (metis utf16_roundtrip sum.inject(2))

section \<open>Canonical text\<close>

text \<open>Values whose canonical text determines them: integers below \<open>2^53\<close>, no floats, strings and distinct keys without surrogates.\<close>

fun jcs_plain :: "py \<Rightarrow> bool" where
  "jcs_plain (PyInt i) = (\<bar>i\<bar> < 2 ^ 53)"
| "jcs_plain (PyFloat f) = False"
| "jcs_plain (PyStr s) = scalar_str s"
| "jcs_plain (PyList xs) = list_all jcs_plain xs"
| "jcs_plain (PyDict d) =
     (distinct (map fst d) \<and> list_all (\<lambda>kv. scalar_str (fst kv) \<and> jcs_plain (snd kv)) d)"
| "jcs_plain _ = True"

text \<open>The value with the items of every object in the order of their UTF-16 code units.\<close>

fun jcs_sort :: "py \<Rightarrow> py" where
  "jcs_sort (PyList xs) = PyList (map jcs_sort xs)"
| "jcs_sort (PyDict d) = PyDict (sort_key (\<lambda>kv. utf16_be_total (fst kv)) (map (\<lambda>kv. (fst kv, jcs_sort (snd kv))) d))"
| "jcs_sort v = v"

lemma map_r_total: "(\<And>x. x \<in> set xs \<Longrightarrow> f x = Inr (g x)) \<Longrightarrow> map_r f xs = Inr (map g xs)"
  by (induction xs) auto

lemma jcs_text: "jcs_plain v \<Longrightarrow> jcs v = Inr (dumps_compact (jcs_sort v))"
proof (induction v)
  case (PyList xs)
  then have "map_r jcs xs = Inr (map dumps_compact (map jcs_sort xs))"
    by (auto simp: list_all_iff intro!: map_r_total)
  then show ?case by (simp add: comp_def)
next
  case (PyDict d)
  let ?e = "map (\<lambda>kv. (fst kv, jcs_sort (snd kv))) d"
  let ?g = "\<lambda>kv. (utf16_be_total (fst kv), fst kv, Inr (dumps_compact (snd kv)) :: ustr res)"
  from PyDict have e: "map (\<lambda>kv. (fst kv, jcs (snd kv))) d = map (\<lambda>kv. (fst kv, Inr (dumps_compact (snd kv)))) ?e"
    and s: "\<And>kv. kv \<in> set d \<Longrightarrow> scalar_str (fst kv)"
    by (auto simp: list_all_iff snds.simps)
  have 1: "map_r (\<lambda>kr. bnd (utf16_be (fst kr)) (\<lambda>b. Inr (b, kr))) (map (\<lambda>kv. (fst kv, jcs (snd kv))) d) = Inr (map ?g ?e)"
    unfolding e by (subst map_r_total [where g = "\<lambda>kr. (utf16_be_total (fst kr), kr)"]) (auto simp: utf16_be_def dest: s)
  have 2: "sort_key fst (map ?g ?e) = map ?g (sort_key (\<lambda>kv. utf16_be_total (fst kv)) ?e)"
    by (rule sort_key_map) simp
  have 3: "map_r (\<lambda>x. bnd (snd (snd x)) (\<lambda>t. Inr (js_string (fst (snd x)) @ [58] @ t))) (map ?g es)
      = Inr (map member_text es)" for es
    by (induction es) (auto simp: member_text_def js_string_json)
  show ?case
    unfolding jcs.simps 1 bnd_Inr 2 3 jcs_sort.simps dumps_dict by simp
qed (auto simp: js_number_def js_string_json)

lemma nat_dec_length: "n < 10 ^ k \<Longrightarrow> 0 < k \<Longrightarrow> length (nat_dec n) \<le> k"
proof (induction k arbitrary: n)
  case (Suc k)
  show ?case
  proof (cases "n < 10")
    case True
    then show ?thesis by (simp add: nat_dec.simps)
  next
    case False
    with Suc.prems have "0 < k" by (cases k) auto
    moreover have "n div 10 < 10 ^ k" using Suc.prems by (simp add: less_mult_imp_div_less mult.commute)
    ultimately show ?thesis using Suc.IH False by (simp add: nat_dec.simps [of n])
  qed
qed simp

lemma jcs_sort_plain: "jcs_plain v \<Longrightarrow> json_plain (jcs_sort v)"
proof (induction v)
  case (PyInt i)
  then have "nat \<bar>i\<bar> < 10 ^ 16" by simp
  then have "length (nat_dec (nat \<bar>i\<bar>)) \<le> 16" by (rule nat_dec_length) simp
  then show ?case by simp
next
  case (PyDict d)
  let ?e = "map (\<lambda>kv. (fst kv, jcs_sort (snd kv))) d"
  have "distinct (map fst (sort_key (\<lambda>kv. utf16_be_total (fst kv)) ?e))"
  proof -
    have "map fst (sort_key (\<lambda>kv. utf16_be_total (fst kv)) ?e) = sort_key utf16_be_total (map fst ?e)"
      using sort_key_map [of utf16_be_total fst "\<lambda>kv. utf16_be_total (fst kv)" ?e] by simp
    then show ?thesis using PyDict.prems by (simp add: comp_def)
  qed
  then show ?case using PyDict by (auto simp: list_all_iff snds.simps)
qed (auto simp: list_all_iff)

theorem jcs_roundtrip: "jcs_plain v \<Longrightarrow> bnd (jcs v) json_loads = Inr (jcs_sort v)"
  by (simp add: jcs_text json_roundtrip jcs_sort_plain)

interpretation jcs_commit: committed jcs jcs_plain jcs_sort
proof
  fix v w s
  assume "jcs_plain v" "jcs_plain w" "jcs v = Inr s" "jcs w = Inr s"
  then show "jcs_sort v = jcs_sort w"
    using jcs_roundtrip [of v] jcs_roundtrip [of w] by simp
qed

section \<open>Sorted keys and code-unit order\<close>

text \<open>Objects whose keys have no character outside the basic plane, all the way down.\<close>

fun bmp_keys :: "py \<Rightarrow> bool" where
  "bmp_keys (PyList xs) = list_all bmp_keys xs"
| "bmp_keys (PyDict d) = list_all (\<lambda>kv. list_all (\<lambda>c. c < 0x10000) (fst kv) \<and> bmp_keys (snd kv)) d"
| "bmp_keys _ = True"

lemma byte_less: "a < 256 \<Longrightarrow> b < 256 \<Longrightarrow> (of_nat a :: byte) < of_nat b \<longleftrightarrow> a < b"
  by (simp add: word_less_nat_alt unat_of_nat_byte)

lemma byte_eq: "a < 256 \<Longrightarrow> b < 256 \<Longrightarrow> (of_nat a :: byte) = of_nat b \<longleftrightarrow> a = b"
  by (metis unat_of_nat_byte)

lemma lex_256:
  fixes a b r s :: nat
  assumes "r < 256" "s < 256"
  shows "256 * a + r < 256 * b + s \<longleftrightarrow> a < b \<or> a = b \<and> r < s" "256 * a + r = 256 * b + s \<longleftrightarrow> a = b \<and> r = s"
proof -
  show "256 * a + r < 256 * b + s \<longleftrightarrow> a < b \<or> a = b \<and> r < s" using assms by linarith
  show "256 * a + r = 256 * b + s \<longleftrightarrow> a = b \<and> r = s" using assms by (cases a b rule: linorder_cases) linarith+
qed

lemma bmp_order:
  "list_all (\<lambda>c. c < 0x10000) s \<Longrightarrow> list_all (\<lambda>c. c < 0x10000) t \<Longrightarrow> utf16_be_total s \<le> utf16_be_total t \<longleftrightarrow> s \<le> t"
proof (induction s arbitrary: t)
  case Nil
  then show ?case by (simp add: utf16_be_total_def)
next
  case (Cons c s)
  show ?case
  proof (cases t)
    case Nil
    then show ?thesis using Cons.prems by (simp add: utf16_be_total_def utf16_units_def)
  next
    case t: (Cons d t')
    have e: "utf16_be_total (x # xs) = of_nat (x div 256) # of_nat (x mod 256) # utf16_be_total xs" if "x < 0x10000" for x xs
      using that by (simp add: utf16_be_total_def utf16_units_def)
    have l: "c div 256 < 256" "d div 256 < 256" "c mod 256 < 256" "d mod 256 < 256" using Cons.prems t by auto
    have "c < d \<longleftrightarrow> c div 256 < d div 256 \<or> c div 256 = d div 256 \<and> c mod 256 < d mod 256"
      using lex_256(1) [OF l(3,4), of "c div 256" "d div 256"] by simp
    moreover have "c = d \<longleftrightarrow> c div 256 = d div 256 \<and> c mod 256 = d mod 256"
      using lex_256(2) [OF l(3,4), of "c div 256" "d div 256"] by simp
    ultimately show ?thesis
      using Cons.IH [of t'] Cons.prems t by (auto simp: e l byte_less byte_eq)
  qed
qed

lemma insort_key_order: "(\<And>y. y \<in> set ys \<Longrightarrow> f x \<le> f y \<longleftrightarrow> g x \<le> g y) \<Longrightarrow> insort_key f x ys = insort_key g x ys"
  by (induction ys) auto

lemma sort_key_order: "(\<And>x y. x \<in> set xs \<Longrightarrow> y \<in> set xs \<Longrightarrow> f x \<le> f y \<longleftrightarrow> g x \<le> g y) \<Longrightarrow> sort_key f xs = sort_key g xs"
proof (induction xs)
  case (Cons x xs)
  have "sort_key f xs = sort_key g xs" using Cons by auto
  moreover have "insort_key f x (sort_key g xs) = insort_key g x (sort_key g xs)" using Cons.prems by (intro insort_key_order) auto
  ultimately show ?case by simp
qed simp

lemma bmp_sort: "bmp_keys v \<Longrightarrow> jcs_sort v = py_sort v"
proof (induction v)
  case (PyDict d)
  then have e: "map (\<lambda>kv. (fst kv, jcs_sort (snd kv))) d = map (\<lambda>kv. (fst kv, py_sort (snd kv))) d"
    by (auto simp: list_all_iff snds.simps)
  have "sort_key (\<lambda>kv. utf16_be_total (fst kv)) (map (\<lambda>kv. (fst kv, py_sort (snd kv))) d) = sort_key fst (map (\<lambda>kv. (fst kv, py_sort (snd kv))) d)"
    using PyDict.prems by (intro sort_key_order bmp_order) (auto simp: list_all_iff)
  then show ?case unfolding jcs_sort.simps py_sort.simps e by simp
next
  case (PyList xs)
  then show ?case by (auto simp: list_all_iff)
qed auto

lemma jcs_dumps_sorted: "jcs_plain v \<Longrightarrow> bmp_keys v \<Longrightarrow> jcs v = Inr (dumps_sorted v)"
  by (simp add: jcs_text bmp_sort dumps_sorted_eq)

end
