(* ===== verification/Acceptance.thy ===== *)
theory Acceptance
  imports EvidenceSet Jcs Markers
begin

text \<open>
  \<^verbatim>\<open>tools/acceptance_record_check.py\<close>: an acceptance record is a signed statement, made after an outcome by the counterparty, about
  a record somebody else issued. The checker resolves the signing key, verifies the signature, reports every structural and
  comparison condition and only then asks whether the signer may speak for the confirming party.
\<close>

section \<open>Results and conditions\<close>

datatype acc_result = Verified | UnknownResult | MalformedResult | KeyUnresolved | NoRecord

datatype acc_condition =
    ConfirmingPartyAbsent | SignerIsIssuer | TermsDigestMismatch | OutcomeDigestMismatch | PrecedesOutcome
  | AuthorityUnresolved | MemberInvalid | RecordDigestMismatch | SignatureInvalid

datatype key_step = KeyStepUnresolved | KeyStepInvalid | KeyStepVerified

fun condition_class :: "acc_condition \<Rightarrow> acc_result" where
  "condition_class AuthorityUnresolved = UnknownResult"
| "condition_class _ = MalformedResult"

record acc_report =
  ar_result :: acc_result
  ar_disposition :: py
  ar_conditions :: "acc_condition set"
  ar_key_step :: "key_step option"
  ar_policy_refusal :: bool
  ar_invalid :: "string set"

definition acc_version :: py where
  "acc_version = S ''acceptance-record-v0''"

definition signed_dispositions :: "py list" where
  "signed_dispositions = [S ''accepted'', S ''rejected'', S ''disputed'']"

definition not_responded :: py where
  "not_responded = S ''not_responded''"

section \<open>Helpers\<close>

definition record_digest :: "py \<Rightarrow> ustr res" where
  "record_digest rec = bnd (jcs rec) sha256_text"

text \<open>\<^verbatim>\<open>_valid_ts\<close> of this module is the same code as that of the evidence sets.\<close>

definition acc_valid_ts :: "ucd \<Rightarrow> py \<Rightarrow> bool" where
  "acc_valid_ts u v = valid_ts u v"

definition b64url_char :: "nat \<Rightarrow> bool" where
  "b64url_char c \<longleftrightarrow> (65 \<le> c \<and> c \<le> 90) \<or> (97 \<le> c \<and> c \<le> 122) \<or> (48 \<le> c \<and> c \<le> 57) \<or> c = 95 \<or> c = 45"

definition b64url_dec :: "py \<Rightarrow> bytes res" where
  "b64url_dec v = (case v of PyStr s \<Rightarrow> if list_all b64url_char s then b64url s else Inl ValueError | _ \<Rightarrow> Inl ValueError)"

text \<open>The key one JWKS entry gives for a kid, if it is usable.\<close>

definition kid_entry :: "py \<Rightarrow> py \<Rightarrow> bytes option" where
  "kid_entry kid k =
     (case k of
        PyDict d \<Rightarrow>
          if py_eq (dget d ''kid'') kid \<and> py_eq (dget d ''kty'') (S ''OKP'') \<and> py_eq (dget d ''crv'') (S ''Ed25519'') then
            (case b64url_dec (dget_default d ''x'' (PyStr [])) of
               Inl _ \<Rightarrow> None
             | Inr x \<Rightarrow> if length x = 32 \<and> \<not> is_small_order_key x \<and> \<not> is_mixed_order_key x then Some x else None)
          else None
      | _ \<Rightarrow> None)"

fun first_some :: "('a \<Rightarrow> 'b option) \<Rightarrow> 'a list \<Rightarrow> 'b option" where
  "first_some f [] = None"
| "first_some f (x # xs) = (case f x of Some y \<Rightarrow> Some y | None \<Rightarrow> first_some f xs)"

definition resolve_kid :: "py \<Rightarrow> py \<Rightarrow> bytes option res" where
  "resolve_kid kid jwks =
     (case jwks of
        PyDict d \<Rightarrow> bnd (py_iter (dget_default d ''keys'' (PyList []))) (\<lambda>ks. Inr (first_some (kid_entry kid) ks))
      | _ \<Rightarrow> Inr None)"

definition party_of_kid :: "py \<Rightarrow> py \<Rightarrow> ustr set res" where
  "party_of_kid kid delegation =
     (case py_or delegation (PyDict []) of
        PyDict d \<Rightarrow> Inr (set (map fst (filter (\<lambda>pk. case snd pk of PyList kids \<Rightarrow> py_in kid kids | _ \<Rightarrow> False) d)))
      | _ \<Rightarrow> Inl AttributeError)"

section \<open>The check\<close>

text \<open>Step 0: the kid, the payload bytes, the signature and the bytes it is over; any exception makes the envelope unusable.\<close>

record jws_parts =
  jw_kid :: py
  jw_payload :: bytes
  jw_sig :: bytes

definition open_jws :: "py \<Rightarrow> jws_parts res" where
  "open_jws jws =
     bnd (bnd (py_item jws ''protected'') b64url_dec) (\<lambda>h.
     bnd (json_loads_bytes h) (\<lambda>hdr.
     bnd (bnd (py_item jws ''payload'') b64url_dec) (\<lambda>payload.
     bnd (bnd (py_item jws ''signature'') b64url_dec) (\<lambda>sg.
     bnd (py_item hdr ''kid'') (\<lambda>kid.
     bnd (py_item hdr ''alg'') (\<lambda>alg.
       if \<not> is_str kid \<or> \<not> py_eq alg (S ''EdDSA'') then Inl ValueError
       else Inr \<lparr> jw_kid = kid, jw_payload = payload, jw_sig = sg \<rparr>))))))"

text \<open>\<^verbatim>\<open>jws["protected"] + "." + jws["payload"]\<close> as ASCII bytes.\<close>

definition signing_input :: "py \<Rightarrow> bytes res" where
  "signing_input jws =
     bnd (bnd (py_item jws ''protected'') (as_str TypeError)) (\<lambda>a.
     bnd (bnd (py_item jws ''payload'') (as_str TypeError)) (\<lambda>b. ascii_encode (a @ [46] @ b)))"

definition is_hex64_py :: "py \<Rightarrow> bool" where
  "is_hex64_py v = (case v of PyStr s \<Rightarrow> is_hex64 s | _ \<Rightarrow> False)"

definition record_ok :: "ucd \<Rightarrow> pydict \<Rightarrow> bool" where
  "record_ok u rec \<longleftrightarrow>
     is_str (dget rec ''issuer'') \<and> is_str (dget rec ''issuer_kid'') \<and>
     list_all (\<lambda>k. is_hex64_py (dget rec k)) [''terms_sha256'', ''outcome_sha256''] \<and>
     acc_valid_ts u (dget rec ''outcome_at'')"

definition party_blank :: "py \<Rightarrow> bool" where
  "party_blank cp \<longleftrightarrow> cp = PyNone \<or> py_eq cp (PyStr [])"

definition bad_members :: "ucd \<Rightarrow> pydict \<Rightarrow> pydict \<Rightarrow> string set" where
  "bad_members u p rec =
     opt (\<not> py_eq (dget p ''acceptance_version'') acc_version) ''acceptance_version'' \<union>
     opt (\<not> party_blank (dget p ''confirming_party'') \<and> \<not> is_str (dget p ''confirming_party'')) ''confirming_party'' \<union>
     opt (\<not> py_in (dget p ''disposition'') signed_dispositions) ''disposition'' \<union>
     opt (\<not> is_hex64_py (dget p ''terms_sha256'')) ''terms_sha256'' \<union>
     opt (\<not> is_hex64_py (dget p ''outcome_sha256'')) ''outcome_sha256'' \<union>
     opt (\<not> is_hex64_py (dget p ''accepted_record_sha256'')) ''accepted_record_sha256'' \<union>
     opt (\<not> acc_valid_ts u (dget p ''accepted_at'')) ''accepted_at'' \<union>
     opt (\<not> record_ok u rec) ''accepted_record''"

definition cond :: "bool \<Rightarrow> acc_condition \<Rightarrow> acc_condition set" where
  "cond b c = (if b then {c} else {})"

text \<open>The comparisons with the record being accepted, made only when its members are well formed.\<close>

definition signer_is_issuer :: "pydict \<Rightarrow> pydict \<Rightarrow> pydict \<Rightarrow> py \<Rightarrow> bytes \<Rightarrow> bool res" where
  "signer_is_issuer inp p rec kid key =
     bnd (resolve_kid (dget rec ''issuer_kid'') (dget inp ''trust_material'')) (\<lambda>ik.
     let same_key = (py_eq (dget rec ''issuer_kid'') kid \<or> ik = Some key);
         cp = dget p ''confirming_party'' in
     bnd (if is_str cp \<and> py_eq cp (dget rec ''issuer'') then Inr True
          else bnd (party_of_kid kid (dget inp ''delegation'')) (\<lambda>ps.
            Inr (case dget rec ''issuer'' of PyStr i \<Rightarrow> i \<in> ps | _ \<Rightarrow> False))) (\<lambda>same_party.
       Inr (same_key \<or> same_party)))"

definition record_conditions :: "pydict \<Rightarrow> pydict \<Rightarrow> pydict \<Rightarrow> py \<Rightarrow> bytes \<Rightarrow> string set \<Rightarrow> acc_condition set res" where
  "record_conditions inp p rec kid key bad =
     bnd (signer_is_issuer inp p rec kid key) (\<lambda>self.
     bnd (if ''accepted_record_sha256'' \<in> bad then Inr False
          else bnd (record_digest (PyDict rec)) (\<lambda>d. Inr (\<not> py_eq (dget p ''accepted_record_sha256'') (PyStr d)))) (\<lambda>other.
     bnd (if ''accepted_at'' \<in> bad then Inr False else py_lt (dget p ''accepted_at'') (dget rec ''outcome_at'')) (\<lambda>early.
       Inr (cond self SignerIsIssuer \<union> cond other RecordDigestMismatch \<union>
            cond (''terms_sha256'' \<notin> bad \<and> \<not> py_eq (dget p ''terms_sha256'') (dget rec ''terms_sha256'')) TermsDigestMismatch \<union>
            cond (''outcome_sha256'' \<notin> bad \<and> \<not> py_eq (dget p ''outcome_sha256'') (dget rec ''outcome_sha256'')) OutcomeDigestMismatch \<union>
            cond early PrecedesOutcome))))"

definition acc_reject :: "acc_result \<Rightarrow> key_step option \<Rightarrow> acc_condition set \<Rightarrow> acc_report" where
  "acc_reject r ks cs = \<lparr> ar_result = r, ar_disposition = PyNone, ar_conditions = cs, ar_key_step = ks,
     ar_policy_refusal = False, ar_invalid = {} \<rparr>"

text \<open>From the verified signature on.\<close>

definition check_payload :: "ucd \<Rightarrow> pydict \<Rightarrow> pydict \<Rightarrow> pydict \<Rightarrow> py \<Rightarrow> bytes \<Rightarrow> acc_report res" where
  "check_payload u inp p rec kid key =
     (let bad = bad_members u p rec in
      bnd (if ''accepted_record'' \<in> bad then Inr {} else record_conditions inp p rec kid key bad) (\<lambda>rc.
      let conds = cond (party_blank (dget p ''confirming_party'')) ConfirmingPartyAbsent \<union> cond (bad \<noteq> {}) MemberInvalid \<union> rc in
      if conds \<noteq> {} then
        Inr \<lparr> ar_result = MalformedResult, ar_disposition = PyNone, ar_conditions = conds, ar_key_step = Some KeyStepVerified,
              ar_policy_refusal = False, ar_invalid = bad \<rparr>
      else
        bnd (party_of_kid kid (dget inp ''delegation'')) (\<lambda>ps.
          let named = (case dget p ''confirming_party'' of PyStr c \<Rightarrow> c \<in> ps | _ \<Rightarrow> False) in
          Inr \<lparr> ar_result = (if named then Verified else UnknownResult), ar_disposition = dget p ''disposition'',
                ar_conditions = cond (\<not> named) AuthorityUnresolved, ar_key_step = Some KeyStepVerified,
                ar_policy_refusal = False, ar_invalid = {} \<rparr>)))"

definition check_signed :: "ucd \<Rightarrow> pydict \<Rightarrow> py \<Rightarrow> jws_parts \<Rightarrow> acc_report res" where
  "check_signed u inp rec jw =
     bnd (resolve_kid (jw_kid jw) (dget inp ''trust_material'')) (\<lambda>k.
     case k of
       None \<Rightarrow> Inr ((acc_reject KeyUnresolved (Some KeyStepUnresolved) {})
                 \<lparr> ar_policy_refusal := (dget inp ''trust_material_complete'' = PyBool True) \<rparr>)
     | Some key \<Rightarrow>
         bnd (signing_input (dget inp ''acceptance'')) (\<lambda>msg.
         if \<not> ed_verify key msg (jw_sig jw) then Inr (acc_reject MalformedResult (Some KeyStepInvalid) {SignatureInvalid})
         else
           (case json_loads_bytes (jw_payload jw) of
              Inl e \<Rightarrow> if is_value_error e then Inr (acc_reject MalformedResult (Some KeyStepVerified) {MemberInvalid}) else Inl e
            | Inr (PyDict p) \<Rightarrow>
                (case rec of PyDict r \<Rightarrow> check_payload u inp p r (jw_kid jw) key | _ \<Rightarrow> Inl AttributeError)
            | Inr _ \<Rightarrow> Inr (acc_reject MalformedResult (Some KeyStepVerified) {MemberInvalid}))))"

definition acc_check :: "ucd \<Rightarrow> pydict \<Rightarrow> acc_report res" where
  "acc_check u inp =
     (if dget inp ''acceptance'' = PyNone then
        Inr ((acc_reject NoRecord None {}) \<lparr> ar_disposition := not_responded \<rparr>)
      else
        (case open_jws (dget inp ''acceptance'') of
           Inl _ \<Rightarrow> Inr (acc_reject MalformedResult None {MemberInvalid})
         | Inr jw \<Rightarrow> check_signed u inp (py_or (dget inp ''accepted_record'') (PyDict [])) jw))"

fun acc_exit :: "acc_result \<Rightarrow> nat" where
  "acc_exit Verified = 0"
| "acc_exit MalformedResult = 1"
| "acc_exit _ = 2"

definition acc_main :: "ucd \<Rightarrow> pydict \<Rightarrow> nat res" where
  "acc_main u inp = bnd (acc_check u inp) (\<lambda>r. Inr (acc_exit (ar_result r)))"

section \<open>What a verified acceptance is\<close>




lemma cond_simps [simp]: "cond b c = {} \<longleftrightarrow> \<not> b" "x \<in> cond b c \<longleftrightarrow> b \<and> x = c"
  by (auto simp: cond_def)











lemma acc_reject_result [simp]: "ar_result (acc_reject r ks cs) = r"
  by (simp add: acc_reject_def)



lemma record_conditions_class: "record_conditions inp p rec kid key bad = Inr rc \<Longrightarrow> c \<in> rc \<Longrightarrow> condition_class c = MalformedResult"
  unfolding record_conditions_def by auto

definition report_ok :: "acc_report \<Rightarrow> bool" where
  "report_ok r \<longleftrightarrow>
     (\<forall>c \<in> ar_conditions r. condition_class c = ar_result r) \<and>
     (ar_result r \<in> {MalformedResult, UnknownResult} \<longleftrightarrow> ar_conditions r \<noteq> {}) \<and>
     (ar_disposition r \<noteq> PyNone \<longrightarrow> ar_result r \<in> {Verified, UnknownResult, NoRecord})"

lemma check_payload_report: "check_payload u inp p rec kid key = Inr r \<Longrightarrow> report_ok r"
  unfolding check_payload_def Let_def report_ok_def
  by (auto simp: bnd_def cond_def split: sum.splits if_splits dest: record_conditions_class)

lemma acc_reject_report: "r \<in> {KeyUnresolved, NoRecord} \<and> cs = {} \<or> r = MalformedResult \<and> (\<exists>c \<in> {MemberInvalid, SignatureInvalid}. cs = {c}) \<Longrightarrow> report_ok (acc_reject r ks cs)"
  unfolding report_ok_def acc_reject_def by auto

lemma check_signed_report: "check_signed u inp rec jw = Inr r \<Longrightarrow> report_ok r"
  unfolding check_signed_def
  by (auto simp: bnd_def acc_reject_report acc_reject_def [of KeyUnresolved] report_ok_def [of "acc_report.make _ _ _ _ _ _", unfolded acc_report.defs] dest: check_payload_report
    split: sum.splits option.splits py.splits if_splits)

text \<open>The conditions of a report and its result agree with the table of conditions: every condition listed has the class that
  the result is, a report with no conditions is not malformed, and only a verified or unknown result carries a signed disposition.\<close>

lemma acceptance_conditions_class:
  assumes "acc_check u inp = Inr r"
  shows "(\<forall>c \<in> ar_conditions r. condition_class c = ar_result r) \<and>
    (ar_result r \<in> {MalformedResult, UnknownResult} \<longleftrightarrow> ar_conditions r \<noteq> {}) \<and>
    (ar_disposition r \<noteq> PyNone \<longrightarrow> ar_result r \<in> {Verified, UnknownResult, NoRecord})"
proof -
  have "report_ok r"
    using assms unfolding acc_check_def
    by (auto simp: acc_reject_report acc_reject_def [of NoRecord] report_ok_def [of "acc_report.make _ _ _ _ _ _", unfolded acc_report.defs] dest: check_signed_report
      split: sum.splits if_splits)
  then show ?thesis unfolding report_ok_def .
qed

end
