(* ===== verification/LiveCheck.thy ===== *)
theory LiveCheck
  imports Acceptance
begin

text \<open>
  \<^verbatim>\<open>adapters/live_check.py\<close>: the conformance invariants against the response of a running endpoint. The outside world is a record: the
  HTTP transport, the files, the random nonce and the Ed25519 library, which may be absent. The texts meant for people (\<^verbatim>\<open>detail\<close> and
  the gap notes) are left out; every state, code and audit value is kept.
\<close>

section \<open>The world\<close>

text \<open>PyNaCl: which byte strings \<^verbatim>\<open>VerifyKey\<close> takes, and when \<^verbatim>\<open>verify\<close> does not raise.\<close>

record nacl =
  nk_ok :: "bytes \<Rightarrow> bool"
  nk_verify :: "bytes \<Rightarrow> bytes \<Rightarrow> bytes \<Rightarrow> bool"

datatype reply = Body bytes | ErrorStatus "bytes option" | NoReply exn

record request =
  rq_method :: py
  rq_url :: py
  rq_headers :: pydict
  rq_data :: "bytes option"

record world =
  w_ucd :: ucd
  w_nacl :: "nacl option"
  w_send :: "request \<Rightarrow> reply"
  w_error :: "request \<Rightarrow> ustr"
  w_read :: "py \<Rightarrow> ustr res"
  w_nonce :: ustr

section \<open>Helpers\<close>

definition b64u :: "py \<Rightarrow> bytes res" where
  "b64u v = bnd (as_str TypeError v) b64url"

text \<open>\<^verbatim>\<open>_hex_only\<close>.\<close>

definition strip_hash_prefix :: "ustr \<Rightarrow> ustr" where
  "strip_hash_prefix s =
     (if startswith s (U ''sha256-'') then drop 7 s
      else if startswith s (U ''sha256:'') then drop 7 s
      else if startswith s (U ''0x'') then drop 2 s else s)"

definition hex_only :: "ucd \<Rightarrow> py \<Rightarrow> py" where
  "hex_only u h = (case h of PyStr s \<Rightarrow> PyStr (strip_hash_prefix (u_lower u s)) | _ \<Rightarrow> h)"

text \<open>\<^verbatim>\<open>_dig\<close>: an index that is a \<^verbatim>\<open>bool\<close> counts as an integer, and a negative one counts from the end.\<close>

fun index_of :: "py \<Rightarrow> int" where
  "index_of (PyInt i) = i"
| "index_of (PyBool b) = of_bool b"
| "index_of _ = 0"

definition list_at :: "py list \<Rightarrow> int \<Rightarrow> py" where
  "list_at xs k =
     (let n = int (length xs)
      in if - n \<le> k \<and> k < n then xs ! nat (if k < 0 then k + n else k) else PyNone)"

fun dig_path :: "py \<Rightarrow> py list \<Rightarrow> py res" where
  "dig_path cur [] = Inr cur"
| "dig_path cur (k # ks) =
     (case cur of
        PyDict d \<Rightarrow> bnd (dget_key d k) (\<lambda>v. dig_path v ks)
      | PyList xs \<Rightarrow> if is_int k then dig_path (list_at xs (index_of k)) ks else Inr PyNone
      | _ \<Rightarrow> Inr PyNone)"

definition dig :: "py \<Rightarrow> py \<Rightarrow> py res" where
  "dig obj path =
     (case path of
        PyNone \<Rightarrow> Inr obj
      | PyStr s \<Rightarrow> dig_path obj [PyStr s]
      | _ \<Rightarrow> bnd (py_iter path) (dig_path obj))"

definition inject_nonce :: "ustr \<Rightarrow> py \<Rightarrow> py" where
  "inject_nonce nonce body =
     (case body of
        PyDict d \<Rightarrow> PyDict (map (\<lambda>(k, v). (k, case v of PyStr s \<Rightarrow> PyStr (replace_all (U ''__NONCE__'') nonce s) | _ \<Rightarrow> v)) d)
      | _ \<Rightarrow> body)"

text \<open>\<^verbatim>\<open>_http\<close>. Headers other than an object or nothing are not accepted by the model.\<close>

definition http_request :: "py \<Rightarrow> py \<Rightarrow> py \<Rightarrow> py \<Rightarrow> request res" where
  "http_request meth url headers body =
     (case py_or headers (PyDict []) of
        PyDict h \<Rightarrow>
          Inr \<lparr> rq_method = meth, rq_url = url,
                rq_headers = (if has_key h ''User-Agent'' then h else dset h (U ''User-Agent'') (S ''preaction-governance-conformance/referee'')),
                rq_data = (if body = PyNone then None else Some (utf8_total (json_dumps True False (U '', '') (U '': '') body))) \<rparr>
      | _ \<Rightarrow> Inl TypeError)"

definition http :: "world \<Rightarrow> py \<Rightarrow> py \<Rightarrow> py \<Rightarrow> py \<Rightarrow> py res" where
  "http w meth url headers body =
     bnd (http_request meth url headers body) (\<lambda>rq.
     case w_send w rq of
       Body b \<Rightarrow> bnd (utf8_decode False b) json_loads
     | ErrorStatus fp \<Rightarrow>
         bnd (case fp of None \<Rightarrow> Inr [] | Some b \<Rightarrow> utf8_decode False b) (\<lambda>raw.
           case json_loads raw of Inr v \<Rightarrow> Inr v | Inl _ \<Rightarrow> Inl OSError)
     | NoReply e \<Rightarrow> Inl e)"

text \<open>\<^verbatim>\<open>_jcs\<close> of this module, which is \<^verbatim>\<open>json.dumps\<close> with sorted keys.\<close>

definition live_jcs :: "py \<Rightarrow> bytes res" where
  "live_jcs v = utf8 (dumps_sorted v)"

definition live_digest :: "py \<Rightarrow> ustr res" where
  "live_digest v = bnd (live_jcs v) (\<lambda>b. Inr (sha256_hex b))"

text \<open>\<^verbatim>\<open>a.get("pubkey") or a.get("public_key")\<close>.\<close>

definition signer_key :: "pydict \<Rightarrow> py" where
  "signer_key c = py_or (dget c ''pubkey'') (dget c ''public_key'')"

section \<open>Signatures\<close>

text \<open>\<^verbatim>\<open>VerifyKey(k).verify(m, s)\<close> without an exception.\<close>

definition nacl_ok :: "nacl \<Rightarrow> bytes \<Rightarrow> bytes \<Rightarrow> bytes \<Rightarrow> bool" where
  "nacl_ok n k m s \<longleftrightarrow> nk_ok n k \<and> nk_verify n k m s"

record legs =
  lg_verified :: nat
  lg_total :: nat
  lg_payload_ok :: bool
  lg_pubkeys :: "py list"

definition leg_key :: "nacl \<Rightarrow> (py \<times> bytes) list \<Rightarrow> py \<Rightarrow> py \<Rightarrow> py option res" where
  "leg_key n keys payload leg =
     bnd (py_get_default leg ''protected'' (PyStr [])) (\<lambda>p0.
     bnd (as_str TypeError p0) (\<lambda>p.
     bnd (as_str TypeError payload) (\<lambda>pl.
     bnd (utf8 (p @ [46] @ pl)) (\<lambda>si.
     bnd (bnd (py_get_default leg ''signature'' (PyStr [])) b64u) (\<lambda>raw.
       Inr (map_option fst (List.find (\<lambda>(_, kb). nacl_ok n kb si raw) keys)))))))"

definition encode_if_str :: "py \<Rightarrow> bytes option res" where
  "encode_if_str v = (case v of PyStr s \<Rightarrow> bnd (utf8 s) (\<lambda>b. Inr (Some b)) | _ \<Rightarrow> Inr None)"

definition verify_jws_legs :: "world \<Rightarrow> pydict \<Rightarrow> py \<Rightarrow> py list \<Rightarrow> legs res" where
  "verify_jws_legs w jws canonical candidates =
     (case w_nacl w of
        None \<Rightarrow> Inr \<lparr> lg_verified = 0, lg_total = 0, lg_payload_ok = False, lg_pubkeys = [] \<rparr>
      | Some n \<Rightarrow>
          (let payload = dget_default jws ''payload'' (PyStr []) in
           bnd (if \<not> truthy payload then Inr False
                else bnd (b64u payload) (\<lambda>p. bnd (encode_if_str canonical) (\<lambda>c. Inr (c = Some p)))) (\<lambda>payload_ok.
           bnd (map_r (\<lambda>k. bnd (py_fromhex k) (\<lambda>b. Inr (k, b))) (filter truthy candidates)) (\<lambda>keys.
           bnd (py_iter (py_or (dget jws ''signatures'') (PyList []))) (\<lambda>sigs.
           bnd (map_r (leg_key n keys payload) sigs) (\<lambda>found.
             let pubkeys = concat (map (\<lambda>f. case f of Some k \<Rightarrow> [k] | None \<Rightarrow> []) found)
             in Inr \<lparr> lg_verified = length pubkeys, lg_total = length sigs, lg_payload_ok = payload_ok, lg_pubkeys = pubkeys \<rparr>))))))"

text \<open>The body of the \<^verbatim>\<open>try\<close> in \<^verbatim>\<open>_verify_admission\<close>; \<open>None\<close> is a scheme that cannot be verified here.\<close>

definition event_admission :: "ucd \<Rightarrow> py \<Rightarrow> bool res" where
  "event_admission u event =
     (if \<not> truthy event then Inr False
      else
        bnd (nostr_event_id u event) (\<lambda>eid.
        bnd (py_get event ''id'') (\<lambda>i.
        if \<not> py_eq (PyStr eid) i then Inr False
        else
          bnd (bnd (py_item event ''id'') py_fromhex) (\<lambda>m.
          bnd (bnd (py_item event ''pubkey'') py_fromhex) (\<lambda>pk.
          bnd (bnd (py_item event ''sig'') py_fromhex) (\<lambda>sg. Inr (schnorr_verify m pk sg)))))))"

definition ed_admission :: "nacl \<Rightarrow> py \<Rightarrow> py \<Rightarrow> py \<Rightarrow> bool res" where
  "ed_admission n envelope_hash pubkey signature =
     bnd (py_fromhex pubkey) (\<lambda>pk.
     if \<not> nk_ok n pk then Inl ValueError
     else
       bnd (case py_fromhex signature of
              Inl e \<Rightarrow> if is_value_error e then b64u signature else Inl e
            | Inr b \<Rightarrow> Inr b) (\<lambda>sg.
       bnd (py_fromhex envelope_hash) (\<lambda>raw.
       bnd (bnd (as_str AttributeError envelope_hash) utf8) (\<lambda>txt.
         Inr (nk_verify n pk raw sg \<or> nk_verify n pk txt sg)))))"

definition admission_try :: "world \<Rightarrow> ustr \<Rightarrow> py \<Rightarrow> py \<Rightarrow> py \<Rightarrow> py \<Rightarrow> bool option res" where
  "admission_try w s envelope_hash pubkey signature event =
     (if startswith s (U ''bip340'') then
        bnd (py_fromhex envelope_hash) (\<lambda>m.
        bnd (py_fromhex pubkey) (\<lambda>pk.
        bnd (py_fromhex signature) (\<lambda>sg. Inr (Some (schnorr_verify m pk sg)))))
      else if s = U ''nostr-event'' then bnd (event_admission (w_ucd w) event) (\<lambda>b. Inr (Some b))
      else if startswith s (U ''ed25519'') then
        (case w_nacl w of
           None \<Rightarrow> Inr None
         | Some n \<Rightarrow> bnd (ed_admission n envelope_hash pubkey signature) (\<lambda>b. Inr (Some b)))
      else Inr (Some False))"

definition scheme_text :: "ucd \<Rightarrow> py \<Rightarrow> ustr res" where
  "scheme_text u scheme = bnd (as_str AttributeError (py_or scheme (PyStr []))) (\<lambda>s. Inr (u_lower u s))"

definition verify_admission :: "world \<Rightarrow> py \<Rightarrow> py \<Rightarrow> py \<Rightarrow> py \<Rightarrow> py \<Rightarrow> bool option res" where
  "verify_admission w scheme envelope_hash pubkey signature event =
     bnd (scheme_text (w_ucd w) scheme) (\<lambda>s.
       Inr (try_default (admission_try w s envelope_hash pubkey signature event) (Some False)))"

section \<open>Evidence modes\<close>

datatype claim_level = MultisigUnverifiable | Independent | MultisigRecomputable

fun claim_rank :: "claim_level \<Rightarrow> nat" where
  "claim_rank MultisigUnverifiable = 0"
| "claim_rank Independent = 1"
| "claim_rank MultisigRecomputable = 2"

datatype cross_check = HintMissing | HintUnverifiable | HintMatches | HintContradicts

definition evidence_modes :: "(string \<times> bool) list" where
  "evidence_modes = [(''embedded_fixture'', True), (''pinned_registry'', False), (''external_resolution'', False), (''cached_prior'', False)]"

text \<open>Whether the contract of a known mode asks for a recomputed key; \<open>None\<close> for an unknown mode.\<close>

definition mode_contract :: "py \<Rightarrow> bool option res" where
  "mode_contract hint =
     (if \<not> hashable hint then Inl TypeError
      else Inr (case hint of PyStr s \<Rightarrow> map_of (map (\<lambda>(m, k). (U m, k)) evidence_modes) s | _ \<Rightarrow> None))"

record mode_class =
  mc_cross :: cross_check
  mc_mode :: ustr
  mc_claim :: claim_level
  mc_blocked :: bool

definition classify_evidence_mode :: "py \<Rightarrow> ustr \<Rightarrow> bool \<Rightarrow> bool \<Rightarrow> claim_level \<Rightarrow> mode_class res" where
  "classify_evidence_mode hint derived key_recomputed external_evidence base =
     (if \<not> truthy hint then Inr \<lparr> mc_cross = HintMissing, mc_mode = derived, mc_claim = base, mc_blocked = False \<rparr>
      else
        bnd (mode_contract hint) (\<lambda>req.
        case req of
          None \<Rightarrow> Inr \<lparr> mc_cross = HintUnverifiable, mc_mode = derived, mc_claim = base, mc_blocked = True \<rparr>
        | Some wants_key \<Rightarrow>
            (let contract_ok = (if wants_key then key_recomputed else external_evidence);
                 fallback = (if key_recomputed then Independent else MultisigUnverifiable)
             in if contract_ok \<and> hint = PyStr derived
                then Inr \<lparr> mc_cross = HintMatches, mc_mode = derived, mc_claim = base, mc_blocked = False \<rparr>
                else Inr \<lparr> mc_cross = HintContradicts,
                           mc_mode = (if contract_ok then derived else (case hint of PyStr s \<Rightarrow> s @ U ''_unverifiable'' | _ \<Rightarrow> derived)),
                           mc_claim = (if claim_rank fallback \<le> claim_rank base then fallback else base),
                           mc_blocked = True \<rparr>)))"

end
