(* ===== verification/LiveRun.thy ===== *)
theory LiveRun
  imports LiveCheck
begin

text \<open>
  \<^verbatim>\<open>run\<close> of \<^verbatim>\<open>adapters/live_check.py\<close>: the five suites in the order the code fills them, the audit record behind the admission
  suite, and the overall state.
\<close>

section \<open>Suites\<close>

datatype live_state = LPass | LFail | LPending | LNotProvided | LNotAssessable | LUnverifiedHere

datatype key_source = Embedded | AllVerified nat | SomeVerified nat nat

record live_suite =
  ls_state :: live_state
  ls_code :: "string option"
  ls_mechanism :: py
  ls_key_source :: "key_source option"

definition lsuite :: "live_state \<Rightarrow> string option \<Rightarrow> live_suite" where
  "lsuite st code = \<lparr> ls_state = st, ls_code = code, ls_mechanism = PyNone, ls_key_source = None \<rparr>"

definition pass_or :: "bool \<Rightarrow> string \<Rightarrow> live_suite" where
  "pass_or ok code = (if ok then lsuite LPass None else lsuite LFail (Some code))"

text \<open>What \<^verbatim>\<open>run\<close> reads before the suites.\<close>

record governance =
  gv_resp :: py
  gv_gov :: py
  gv_fields :: py
  gv_hash :: py
  gv_pubkey :: py
  gv_signature :: py
  gv_scheme :: py
  gv_event :: py
  gv_anchor_declared :: bool
  gv_anchor :: py
  gv_canonical :: py
  gv_trust :: py

definition fetch_response :: "world \<Rightarrow> pydict \<Rightarrow> (py \<times> py) res" where
  "fetch_response w mapping =
     (if has_key mapping ''fetch'' then
        (let f = dget mapping ''fetch'' in
         bnd (py_get f ''body'') (\<lambda>body.
         bnd (py_get_default f ''method'' (S ''GET'')) (\<lambda>meth.
         bnd (py_item f ''url'') (\<lambda>url.
         bnd (py_get f ''headers'') (\<lambda>headers.
         bnd (http w meth url headers (inject_nonce (w_nonce w) body)) (\<lambda>resp.
         bnd (py_get f ''governance_path'') (\<lambda>path.
         bnd (dig resp path) (\<lambda>gov. Inr (resp, gov)))))))))
      else
        bnd (py_item (PyDict mapping) ''response_file'') (\<lambda>file.
        bnd (bnd (w_read w file) json_loads) (\<lambda>resp.
        bnd (dig resp (dget mapping ''governance_path'')) (\<lambda>gov. Inr (resp, gov)))))"

text \<open>\<^verbatim>\<open>_dig(gov, fields.get(k))\<close>, and the same only when the field is mapped.\<close>

definition dig_field :: "py \<Rightarrow> py \<Rightarrow> string \<Rightarrow> py res" where
  "dig_field gov flds k = bnd (py_get flds k) (dig gov)"

definition dig_mapped :: "py \<Rightarrow> py \<Rightarrow> string \<Rightarrow> py res" where
  "dig_mapped gov flds k = bnd (py_get flds k) (\<lambda>p. if truthy p then dig gov p else Inr PyNone)"

definition read_governance :: "world \<Rightarrow> pydict \<Rightarrow> py \<Rightarrow> py \<Rightarrow> governance res" where
  "read_governance w mapping resp gov =
     (let flds = dget_default mapping ''fields'' (PyDict []) in
      bnd (dig_field gov flds ''envelope_hash'') (\<lambda>h.
      bnd (dig_field gov flds ''pubkey'') (\<lambda>pk.
      bnd (dig_field gov flds ''signature'') (\<lambda>sg.
      bnd (dig_mapped gov flds ''sig_scheme'') (\<lambda>sc.
      bnd (dig_mapped gov flds ''event'') (\<lambda>ev.
      bnd (py_contains flds (S ''anchor_endpoint'')) (\<lambda>declared.
      bnd (if declared then dig_field gov flds ''anchor_endpoint'' else Inr PyNone) (\<lambda>anchor.
      bnd (dig_mapped gov flds ''canonical_bytes'') (\<lambda>canon.
      bnd (py_get_default (dget_default mapping ''trust_policy'' (PyDict [])) ''independent_verifier_pubkeys'' (PyList [])) (\<lambda>trust.
        Inr \<lparr> gv_resp = resp, gv_gov = gov, gv_fields = flds, gv_hash = hex_only (w_ucd w) h, gv_pubkey = pk, gv_signature = sg,
              gv_scheme = py_or sc (dget mapping ''sig_scheme''), gv_event = ev, gv_anchor_declared = declared, gv_anchor = anchor,
              gv_canonical = canon, gv_trust = trust \<rparr>))))))))))"

subsection \<open>Canonical envelope\<close>

definition reduced_response :: "pydict \<Rightarrow> py \<Rightarrow> py res" where
  "reduced_response resp exclude =
     bnd (filter_r (\<lambda>kv. bnd (py_contains exclude (PyStr (fst kv))) (\<lambda>b. Inr (\<not> b))) resp) (\<lambda>d. Inr (PyDict d))"

text \<open>The hash the suite recomputes with the value it must equal, or \<open>None\<close> when nothing is there to recompute from.\<close>

definition envelope_source :: "world \<Rightarrow> pydict \<Rightarrow> governance \<Rightarrow> (ustr \<times> py) option res" where
  "envelope_source w mapping g =
     (let exclude = dget mapping ''envelope_excludes''; raw_claim = dget mapping ''raw_claim''
      in if exclude \<noteq> PyNone \<and> is_dict (gv_resp g) then
           (case gv_resp g of
              PyDict d \<Rightarrow> bnd (bnd (reduced_response d exclude) live_digest) (\<lambda>h. Inr (Some (h, gv_hash g)))
            | _ \<Rightarrow> Inr None)
         else if gv_canonical g \<noteq> PyNone then
           bnd (case gv_canonical g of PyStr s \<Rightarrow> sha256_text s | v \<Rightarrow> live_digest v) (\<lambda>h. Inr (Some (h, gv_hash g)))
         else if raw_claim \<noteq> PyNone then bnd (live_digest raw_claim) (\<lambda>h. Inr (Some (h, gv_hash g)))
         else
           bnd (scheme_text (w_ucd w) (gv_scheme g)) (\<lambda>s.
           if s = U ''nostr-event'' \<and> truthy (gv_event g) then
             bnd (nostr_event_id (w_ucd w) (gv_event g)) (\<lambda>h.
             bnd (py_get (gv_event g) ''id'') (\<lambda>declared. Inr (Some (h, declared))))
           else Inr None))"

definition canonical_suite :: "world \<Rightarrow> pydict \<Rightarrow> governance \<Rightarrow> live_suite res" where
  "canonical_suite w mapping g =
     bnd (envelope_source w mapping g) (\<lambda>src.
       Inr (case src of
              Some (h, declared) \<Rightarrow> pass_or (py_eq (PyStr h) declared) ''envelope_hash_mismatch''
            | None \<Rightarrow> lsuite LNotProvided None))"

subsection \<open>Signers\<close>

record signers =
  sg_co :: "py list"
  sg_used_jws :: bool
  sg_verified :: nat
  sg_total :: nat
  sg_pubkeys :: "py list"

definition co_signers :: "governance \<Rightarrow> py list res" where
  "co_signers g =
     bnd (py_get_default (gv_fields g) ''co_signers'' (S ''co_signers'')) (\<lambda>p.
     bnd (dig (gv_gov g) p) (\<lambda>co. Inr (case co of PyList cs \<Rightarrow> cs | _ \<Rightarrow> [])))"

definition dicts_of :: "py list \<Rightarrow> pydict list" where
  "dicts_of vs = concat (map (\<lambda>v. case v of PyDict d \<Rightarrow> [d] | _ \<Rightarrow> []) vs)"

definition jws_of :: "pydict \<Rightarrow> governance \<Rightarrow> py res" where
  "jws_of mapping g =
     (case gv_resp g of PyDict d \<Rightarrow> dget_key d (dget_default mapping ''jws_path'' (S ''jws'')) | _ \<Rightarrow> Inr PyNone)"

definition co_verified :: "world \<Rightarrow> governance \<Rightarrow> pydict \<Rightarrow> bool res" where
  "co_verified w g c =
     (let cpk = signer_key c; csig = py_or (dget c ''jws_signature'') (dget c ''signature'')
      in if truthy cpk \<and> truthy csig
         then bnd (verify_admission w (py_or (dget c ''sig_scheme'') (gv_scheme g)) (gv_hash g) cpk csig PyNone) (\<lambda>ok. Inr (ok = Some True))
         else Inr False)"

definition count_signers :: "world \<Rightarrow> pydict \<Rightarrow> governance \<Rightarrow> signers res" where
  "count_signers w mapping g =
     bnd (co_signers g) (\<lambda>co.
     bnd (jws_of mapping g) (\<lambda>jws.
     bnd (case jws of
            PyDict j \<Rightarrow>
              if truthy (dget j ''signatures'')
              then bnd (verify_jws_legs w j (gv_canonical g) (gv_pubkey g # map signer_key (dicts_of co))) (\<lambda>l. Inr (Some l))
              else Inr None
          | _ \<Rightarrow> Inr None) (\<lambda>legs.
     case legs of
       Some l \<Rightarrow>
         if lg_payload_ok l \<and> lg_total l \<noteq> 0
         then Inr \<lparr> sg_co = co, sg_used_jws = True, sg_verified = lg_verified l, sg_total = lg_total l, sg_pubkeys = lg_pubkeys l \<rparr>
         else
           bnd (filter_r (co_verified w g) (dicts_of co)) (\<lambda>ok.
             Inr \<lparr> sg_co = co, sg_used_jws = False, sg_verified = 1 + length ok, sg_total = 1 + length co, sg_pubkeys = lg_pubkeys l \<rparr>)
     | None \<Rightarrow>
         bnd (filter_r (co_verified w g) (dicts_of co)) (\<lambda>ok.
           Inr \<lparr> sg_co = co, sg_used_jws = False, sg_verified = 1 + length ok, sg_total = 1 + length co, sg_pubkeys = [] \<rparr>))))"

definition key_source_of :: "signers \<Rightarrow> key_source" where
  "key_source_of s =
     (if sg_total s \<le> 1 then Embedded
      else if sg_total s \<le> sg_verified s then AllVerified (sg_total s)
      else SomeVerified (sg_verified s) (sg_total s))"

subsection \<open>The audit record\<close>

datatype key_hash_check = KeyHashVerified | KeyHashMismatch | KeyHashNone

text \<open>Whether a candidate that declares a key and its hash declares them consistently.\<close>

definition key_hash_ok :: "pydict \<Rightarrow> bool" where
  "key_hash_ok c = (case py_fromhex (signer_key c) of Inl _ \<Rightarrow> False | Inr b \<Rightarrow> py_eq (PyStr (sha256_hex b)) (dget c ''pubkey_hash''))"

definition key_hash_check :: "governance \<Rightarrow> py list \<Rightarrow> key_hash_check res" where
  "key_hash_check g co =
     bnd (py_get (gv_fields g) ''pubkey_hash'') (\<lambda>p.
     bnd (if truthy p then bnd (dig (gv_gov g) p) (\<lambda>h. Inr [[(U ''pubkey'', gv_pubkey g), (U ''pubkey_hash'', h)]]) else Inr []) (\<lambda>primary.
       let checked = filter (\<lambda>c. truthy (dget c ''pubkey_hash'') \<and> truthy (signer_key c)) (dicts_of co @ primary);
           bad = filter (\<lambda>c. \<not> key_hash_ok c) checked
       in Inr (if bad \<noteq> [] then KeyHashMismatch else if checked \<noteq> [] then KeyHashVerified else KeyHashNone)))"

text \<open>\<^verbatim>\<open>_sid\<close>.\<close>

definition sid :: "pydict \<Rightarrow> py res" where
  "sid c =
     (if truthy (dget c ''issuer'') then Inr (dget c ''issuer'')
      else if truthy (dget c ''kid'') then Inr (dget c ''kid'')
      else case py_or (signer_key c) (S ''?'') of
             PyStr s \<Rightarrow> Inr (PyStr (take 16 s))
           | PyList xs \<Rightarrow> Inr (PyList (take 16 xs))
           | _ \<Rightarrow> Inl TypeError)"

definition failed_signers :: "signers \<Rightarrow> py list res" where
  "failed_signers s =
     (if sg_used_jws s then
        map_r (\<lambda>c. case c of PyDict d \<Rightarrow> sid d | _ \<Rightarrow> Inr (S ''?''))
          (filter (\<lambda>c. case c of PyDict d \<Rightarrow> \<not> truthy (signer_key d) \<or> \<not> py_in (signer_key d) (sg_pubkeys s) | _ \<Rightarrow> True) (sg_co s))
      else if sg_verified s < sg_total s then map_r sid (filter (\<lambda>c. \<not> truthy (signer_key c)) (dicts_of (sg_co s)))
      else Inr [])"

record audit =
  au_claim :: claim_level
  au_verified :: nat
  au_declared :: nat
  au_failed :: "py list"
  au_jws :: bool
  au_canonical_hash :: "ustr option"
  au_key_hash :: "ustr option"
  au_hash_check :: key_hash_check
  au_co :: "(py \<times> py \<times> py) list"
  au_mode :: mode_class
  au_hint :: py
  au_holds :: bool

fun mode_ceiling :: "ustr \<Rightarrow> claim_level" where
  "mode_ceiling m =
     (if m \<in> set (map U [''embedded_fixture'', ''pinned_registry'', ''external_resolution'']) then MultisigRecomputable else Independent)"

definition capped_claim :: "ustr \<Rightarrow> signers \<Rightarrow> claim_level" where
  "capped_claim derived s =
     (let earned = (if 1 < sg_total s \<and> sg_total s \<le> sg_verified s then MultisigRecomputable else Independent)
      in if claim_rank (mode_ceiling derived) < claim_rank earned then mode_ceiling derived else earned)"

definition bytes_hash :: "py \<Rightarrow> ustr option res" where
  "bytes_hash canonical =
     (case canonical of
        PyStr s \<Rightarrow> bnd (utf8 s) (\<lambda>b. Inr (if b = [] then None else Some (sha256_hex b)))
      | v \<Rightarrow> if truthy v then Inl TypeError else Inr None)"

definition admission_audit :: "governance \<Rightarrow> signers \<Rightarrow> audit res" where
  "admission_audit g s =
     bnd (key_hash_check g (sg_co s)) (\<lambda>kh.
     bnd (failed_signers s) (\<lambda>failed.
     bnd (py_get_default (gv_fields g) ''evidence_mode'' (S ''evidence_mode'')) (\<lambda>hp.
     bnd (dig (gv_gov g) hp) (\<lambda>hint.
     bnd (classify_evidence_mode hint (U ''embedded_fixture'') (truthy (gv_pubkey g)) False (capped_claim (U ''embedded_fixture'') s)) (\<lambda>cls.
     bnd (case gv_canonical g of PyStr t \<Rightarrow> bnd (utf8 t) (\<lambda>_. Inr ()) | _ \<Rightarrow> Inr ()) (\<lambda>_.
     bnd (if sg_used_jws s then Inr () else bnd (as_str AttributeError (py_or (gv_scheme g) (S ''sig''))) (\<lambda>_. Inr ())) (\<lambda>_.
     bnd (bytes_hash (gv_canonical g)) (\<lambda>ch.
     bnd (if truthy (gv_pubkey g) then bnd (py_fromhex (gv_pubkey g)) (\<lambda>b. Inr (Some (sha256_hex b))) else Inr None) (\<lambda>pkh.
     bnd (map_r (\<lambda>c. bnd (sid c) (\<lambda>i. Inr (i, dget c ''key_source'', dget c ''pubkey_hash''))) (dicts_of (sg_co s))) (\<lambda>cos.
       Inr \<lparr> au_claim = mc_claim cls, au_verified = sg_verified s, au_declared = sg_total s, au_failed = failed,
             au_jws = sg_used_jws s, au_canonical_hash = ch, au_key_hash = pkh, au_hash_check = kh, au_co = cos, au_mode = cls,
             au_hint = hint,
             au_holds = (truthy (gv_pubkey g) \<and> sg_verified s \<le> sg_total s \<and> mc_cross cls \<noteq> HintContradicts) \<rparr>))))))))))"

subsection \<open>Admission\<close>

definition admission_suite :: "world \<Rightarrow> pydict \<Rightarrow> governance \<Rightarrow> signers \<Rightarrow> live_suite res" where
  "admission_suite w mapping g s =
     (let ks = Some (key_source_of s); actor = dget mapping ''actor_pubkey'' in
      bnd (if sg_used_jws s \<and> py_in (gv_pubkey g) (sg_pubkeys s) then Inr (Some True)
           else verify_admission w (gv_scheme g) (gv_hash g) (gv_pubkey g) (gv_signature g) (gv_event g)) (\<lambda>sig_valid.
      case sig_valid of
        None \<Rightarrow> Inr (lsuite LUnverifiedHere (Some ''scheme_not_verifiable_here''))
      | Some False \<Rightarrow> Inr (lsuite LFail (Some ''admission_signature_invalid''))
      | Some True \<Rightarrow>
          bnd (if truthy (gv_trust g) then py_contains (gv_trust g) (gv_pubkey g) else Inr True) (\<lambda>trusted.
            Inr (if \<not> trusted then (lsuite LFail (Some ''key_different_but_identity_unproven''))\<lparr> ls_key_source := ks \<rparr>
                 else if truthy actor \<and> py_eq (gv_pubkey g) actor then (lsuite LFail (Some ''admission_not_independent''))\<lparr> ls_key_source := ks \<rparr>
                 else (lsuite LPass None)\<lparr> ls_key_source := ks \<rparr>))))"

subsection \<open>Anchoring\<close>

text \<open>Scheme and network location of a URL as \<^verbatim>\<open>urlsplit\<close> finds them (for a location in ASCII).\<close>

definition scheme_char :: "nat \<Rightarrow> bool" where
  "scheme_char c \<longleftrightarrow> (65 \<le> c \<and> c \<le> 90) \<or> (97 \<le> c \<and> c \<le> 122) \<or> (48 \<le> c \<and> c \<le> 57) \<or> c = 43 \<or> c = 45 \<or> c = 46"

definition url_scheme :: "ustr \<Rightarrow> ustr \<times> ustr" where
  "url_scheme s =
     (let p = takeWhile (\<lambda>c. c \<noteq> 58) s
      in if length p < length s \<and> p \<noteq> [] \<and> ((65 \<le> hd p \<and> hd p \<le> 90) \<or> (97 \<le> hd p \<and> hd p \<le> 122)) \<and> list_all scheme_char p
         then (ascii_lower p, drop (Suc (length p)) s) else ([], s))"

definition url_origin :: "ustr \<Rightarrow> (ustr \<times> ustr) res" where
  "url_origin url =
     (let s = filter (\<lambda>c. c \<notin> {9, 10, 13}) (dropWhile (\<lambda>c. c \<le> 32) url);
          (scheme, rest) = url_scheme s;
          netloc = (if startswith rest (U ''//'') then takeWhile (\<lambda>c. c \<notin> {47, 63, 35}) (drop 2 rest) else [])
      in if (91 \<in> set netloc) \<noteq> (93 \<in> set netloc) then Inl ValueError else Inr (scheme, netloc))"

definition resolve_anchor :: "pydict \<Rightarrow> py \<Rightarrow> py res" where
  "resolve_anchor mapping anchor =
     (case anchor of
        PyStr a \<Rightarrow>
          if startswith a (U ''/'') \<and> has_key mapping ''fetch'' then
            bnd (py_item (dget mapping ''fetch'') ''url'') (\<lambda>url.
            bnd (bnd (as_str AttributeError url) url_origin) (\<lambda>(scheme, netloc). Inr (PyStr (scheme @ U ''://'' @ netloc @ a))))
          else Inr anchor
      | _ \<Rightarrow> Inr anchor)"

text \<open>The anchor record: fetched when it is an address, and brought down to the block that carries the status.\<close>

definition fetch_anchor :: "world \<Rightarrow> py \<Rightarrow> py" where
  "fetch_anchor w anchor =
     (case anchor of
        PyStr a \<Rightarrow>
          if startswith a (U ''http'') then
            (case http w (S ''GET'') anchor PyNone PyNone of
               Inr v \<Rightarrow> v
             | Inl e \<Rightarrow>
                 PyDict [(U ''status'', PyStr (U ''unreachable: '' @
                   (case http_request (S ''GET'') anchor PyNone PyNone of Inr rq \<Rightarrow> w_error w rq | Inl _ \<Rightarrow> [])))])
          else anchor
      | _ \<Rightarrow> anchor)"

definition anchor_block :: "ucd \<Rightarrow> py \<Rightarrow> pydict \<times> py" where
  "anchor_block u v =
     (let a = (case v of PyDict d \<Rightarrow> d | _ \<Rightarrow> [(U ''status'', PyStr (py_str u v))]);
          b = (case dget a ''commitment_proof'' of PyDict d \<Rightarrow> d | _ \<Rightarrow> a)
      in case List.find (\<lambda>k. is_dict (dget b k)) [''ots_anchor'', ''timestamp_anchor'', ''anchor''] of
           Some k \<Rightarrow> (case dget b k of PyDict d \<Rightarrow> (d, S k) | _ \<Rightarrow> (b, PyNone))
         | None \<Rightarrow> (b, PyNone))"

definition anchor_point :: "pydict \<Rightarrow> pydict" where
  "anchor_point a = (case dget a ''accepted_anchor_point'' of PyDict d \<Rightarrow> d | _ \<Rightarrow> [])"

definition block_time_of :: "pydict \<Rightarrow> py" where
  "block_time_of a =
     foldr py_or (map (dget a) [''bitcoin_block_time'', ''anchor_block_time'', ''block_time'', ''block_timestamp'', ''timestamp''])
       (dget (anchor_point a) ''block_time'')"

definition anchor_method :: "pydict \<Rightarrow> py" where
  "anchor_method a = py_or (py_or (dget a ''method'') (dget a ''mechanism'')) (PyStr [])"

definition anchor_text :: "ucd \<Rightarrow> pydict \<Rightarrow> py \<Rightarrow> ustr" where
  "anchor_text u a kind =
     u_lower u (join [32] (map (py_str u) (filter truthy
       [anchor_method a, dget a ''tier'', dget a ''source'', dget (anchor_point a) ''source'', dget a ''recompute_cmd'', kind])))"

definition mentions :: "string list \<Rightarrow> ustr \<Rightarrow> bool" where
  "mentions ws s = list_ex (\<lambda>w. substr (U w) s) ws"

definition external_words :: "string list" where
  "external_words = [''bitcoin'', ''ots'', ''opentimestamps'', ''on-chain'', ''onchain'', ''arbitrum'', ''mycelium'', ''ct-log'',
     ''transparency'', ''l2'', ''ethereum'']"

definition mechanism_of :: "ucd \<Rightarrow> pydict \<Rightarrow> py \<Rightarrow> py" where
  "mechanism_of u a kind =
     (let src = anchor_text u a kind
      in if mentions [''bitcoin'', ''ots'', ''opentimestamps''] src then S ''Bitcoin OTS''
         else if mentions [''arbitrum'', ''mycelium'', ''on-chain'', ''onchain''] src then
           (if mentions [''arbitrum'', ''mycelium''] src then S ''on-chain (Arbitrum)'' else S ''on-chain'')
         else py_or (anchor_method a) (if truthy (dget a ''tier'') then dget a ''tier'' else PyNone))"

definition status_text :: "ucd \<Rightarrow> pydict \<Rightarrow> ustr" where
  "status_text u a = u_lower u (py_str u (py_or (dget a ''anchor_status'') (dget_default a ''status'' (PyStr []))))"

definition anchor_confirmed :: "ucd \<Rightarrow> pydict \<Rightarrow> py \<Rightarrow> bool" where
  "anchor_confirmed u a kind \<longleftrightarrow>
     mentions [''confirmed''] (status_text u a) \<or>
     block_time_of a \<noteq> PyNone \<and>
     \<not> mentions [''submitted'', ''pending'', ''not_submitted'', ''unconfirmed'', ''unreachable''] (status_text u a) \<and>
     mentions external_words (anchor_text u a kind)"

definition precedence_suite :: "ucd \<Rightarrow> pydict \<Rightarrow> py \<Rightarrow> py \<Rightarrow> live_suite res" where
  "precedence_suite u a kind outcome =
     (let p = dget a ''precedence''; t = block_time_of a
      in if \<not> anchor_confirmed u a kind then Inr (lsuite LPending (Some ''existence_not_yet_established''))
         else if p = PyBool False then Inr (lsuite LFail (Some ''existence_only_anchor''))
         else if truthy t \<and> truthy outcome then bnd (py_lt t outcome) (\<lambda>ok. Inr (pass_or ok ''late_commitment''))
         else if truthy p then Inr (lsuite LPass None)
         else Inr (lsuite LPending (Some ''precedence_not_determinable'')))"

definition live_anchor_suites :: "world \<Rightarrow> pydict \<Rightarrow> governance \<Rightarrow> (live_suite \<times> live_suite) res" where
  "live_anchor_suites w mapping g =
     (let u = w_ucd w in
      if \<not> truthy (gv_anchor g) then
        Inr (if gv_anchor_declared g
             then (lsuite LPending (Some ''anchor_absent_this_call''), lsuite LPending (Some ''existence_not_yet_established''))
             else (lsuite LFail (Some ''ordering_unanchored''), lsuite LNotAssessable (Some ''no_anchor'')))
      else
        bnd (resolve_anchor mapping (gv_anchor g)) (\<lambda>ep.
        let (a, kind) = anchor_block u (fetch_anchor w ep); m = mechanism_of u a kind in
        bnd (precedence_suite u a kind (dget mapping ''terminal_outcome_time'')) (\<lambda>prec.
          Inr ((if anchor_confirmed u a kind then lsuite LPass None else lsuite LPending (Some ''anchor_not_yet_confirmed''))
                 \<lparr> ls_mechanism := m \<rparr>, prec \<lparr> ls_mechanism := m \<rparr>))))"

subsection \<open>The chain and the result\<close>

definition live_chain_suite :: "governance \<Rightarrow> live_suite res" where
  "live_chain_suite g =
     bnd (dig_mapped (gv_gov g) (gv_fields g) ''proposed_action_ref'') (\<lambda>p.
     bnd (dig_mapped (gv_gov g) (gv_fields g) ''terminal_action_ref'') (\<lambda>t.
       Inr (if p \<noteq> PyNone \<and> t \<noteq> PyNone then pass_or (py_eq p t) ''chain_join_broken'' else lsuite LNotProvided None)))"

record live_suites =
  su_canonical :: live_suite
  su_admission :: live_suite
  su_existence :: live_suite
  su_precedence :: live_suite
  su_chain :: live_suite

definition suite_list :: "live_suites \<Rightarrow> live_suite list" where
  "suite_list s = [su_canonical s, su_admission s, su_existence s, su_precedence s, su_chain s]"

datatype live_overall = OverallPass | OverallFail | OverallPartial

definition overall_of :: "live_suites \<Rightarrow> live_overall" where
  "overall_of s =
     (if list_all (\<lambda>x. ls_state x = LPass) (suite_list s) then OverallPass
      else if list_ex (\<lambda>x. ls_state x = LFail) (suite_list s) then OverallFail else OverallPartial)"

record live_report =
  lr_overall :: live_overall
  lr_suites :: live_suites
  lr_audit :: "audit option"
  lr_governance :: governance

definition live_report_of :: "world \<Rightarrow> pydict \<Rightarrow> governance \<Rightarrow> live_report res" where
  "live_report_of w mapping g =
     bnd (canonical_suite w mapping g) (\<lambda>canonical.
     bnd (count_signers w mapping g) (\<lambda>s.
     bnd (admission_audit g s) (\<lambda>au.
     bnd (admission_suite w mapping g s) (\<lambda>admission.
     bnd (live_anchor_suites w mapping g) (\<lambda>(existence, precedence).
     bnd (live_chain_suite g) (\<lambda>chain.
       let ss = \<lparr> su_canonical = canonical, su_admission = admission, su_existence = existence, su_precedence = precedence, su_chain = chain \<rparr>
       in Inr \<lparr> lr_overall = overall_of ss, lr_suites = ss,
                lr_audit = (if ls_state admission \<in> {LPass, LFail} then Some au else None), lr_governance = g \<rparr>))))))"

text \<open>\<^verbatim>\<open>run\<close>: \<open>None\<close> when the response carried no governance block.\<close>

definition live_run :: "world \<Rightarrow> pydict \<Rightarrow> live_report option res" where
  "live_run w mapping =
     bnd (fetch_response w mapping) (\<lambda>(resp, gov).
     if gov = PyNone then Inr None
     else
       bnd (read_governance w mapping resp gov) (\<lambda>g.
       bnd (live_report_of w mapping g) (\<lambda>r. Inr (Some r))))"

definition live_main :: "world \<Rightarrow> pydict \<Rightarrow> nat res" where
  "live_main w mapping =
     bnd (live_run w mapping) (\<lambda>r.
       Inr (case r of None \<Rightarrow> 2 | Some rep \<Rightarrow> if lr_overall rep = OverallFail then 1 else 0))"

section \<open>Samples\<close>

definition sample_world :: world where
  "sample_world = \<lparr> w_ucd = sample_ucd, w_nacl = None, w_send = (\<lambda>_. NoReply OSError), w_error = (\<lambda>_. []), w_read = (\<lambda>_. Inl OSError),
     w_nonce = [] \<rparr>"

definition bare_governance :: "py \<Rightarrow> py \<Rightarrow> governance" where
  "bare_governance canonical anchor = \<lparr> gv_resp = PyNone, gv_gov = PyDict [], gv_fields = PyDict [], gv_hash = PyNone, gv_pubkey = PyNone,
     gv_signature = PyNone, gv_scheme = PyNone, gv_event = PyNone, gv_anchor_declared = True, gv_anchor = anchor,
     gv_canonical = canonical, gv_trust = PyList [] \<rparr>"





section \<open>What the overall state means\<close>

definition signature_holds :: "world \<Rightarrow> governance \<Rightarrow> signers \<Rightarrow> bool" where
  "signature_holds w g s \<longleftrightarrow>
     sg_used_jws s \<and> py_in (gv_pubkey g) (sg_pubkeys s) \<or>
     \<not> (sg_used_jws s \<and> py_in (gv_pubkey g) (sg_pubkeys s)) \<and>
       verify_admission w (gv_scheme g) (gv_hash g) (gv_pubkey g) (gv_signature g) (gv_event g) = Inr (Some True)"

definition signer_independent :: "pydict \<Rightarrow> governance \<Rightarrow> bool" where
  "signer_independent mapping g \<longleftrightarrow>
     (truthy (gv_trust g) \<longrightarrow> py_contains (gv_trust g) (gv_pubkey g) = Inr True) \<and>
     \<not> (truthy (dget mapping ''actor_pubkey'') \<and> py_eq (gv_pubkey g) (dget mapping ''actor_pubkey''))"

definition live_anchored :: "world \<Rightarrow> pydict \<Rightarrow> governance \<Rightarrow> bool" where
  "live_anchored w mapping g \<longleftrightarrow>
     truthy (gv_anchor g) \<and>
     (\<exists>ep a kind. resolve_anchor mapping (gv_anchor g) = Inr ep \<and> anchor_block (w_ucd w) (fetch_anchor w ep) = (a, kind) \<and>
        anchor_confirmed (w_ucd w) a kind \<and> dget a ''precedence'' \<noteq> PyBool False \<and>
        (if truthy (block_time_of a) \<and> truthy (dget mapping ''terminal_outcome_time'')
         then py_lt (block_time_of a) (dget mapping ''terminal_outcome_time'') = Inr True else truthy (dget a ''precedence'')))"

definition live_joined :: "governance \<Rightarrow> bool" where
  "live_joined g \<longleftrightarrow>
     (\<exists>p t. dig_mapped (gv_gov g) (gv_fields g) ''proposed_action_ref'' = Inr p \<and>
        dig_mapped (gv_gov g) (gv_fields g) ''terminal_action_ref'' = Inr t \<and> p \<noteq> PyNone \<and> t \<noteq> PyNone \<and> py_eq p t)"

lemma lsuite_simps [simp]:
  "ls_state (lsuite st c) = st" "ls_state (pass_or ok code) = LPass \<longleftrightarrow> ok" "ls_state (pass_or ok code) = LFail \<longleftrightarrow> \<not> ok"
  by (auto simp: lsuite_def pass_or_def)

lemma canonical_pass:
  "(\<exists>c. canonical_suite w mapping g = Inr c \<and> ls_state c = LPass) \<longleftrightarrow> (\<exists>h. envelope_source w mapping g = Inr (Some (h, PyStr h)))"
proof (cases "envelope_source w mapping g")
  case (Inr src)
  then show ?thesis by (cases src) (auto simp: canonical_suite_def py_eq_Str_left)
qed (simp add: canonical_suite_def)

lemma admission_pass:
  "(\<exists>c. admission_suite w mapping g s = Inr c \<and> ls_state c = LPass) \<longleftrightarrow> signature_holds w g s \<and> signer_independent mapping g"
  unfolding admission_suite_def signature_holds_def signer_independent_def Let_def
  by (auto simp: bnd_def split: if_splits sum.splits option.splits bool.splits)

lemma precedence_pass:
  "(\<exists>c. precedence_suite u a kind o' = Inr c \<and> ls_state c = LPass) \<longleftrightarrow>
     anchor_confirmed u a kind \<and> dget a ''precedence'' \<noteq> PyBool False \<and>
     (if truthy (block_time_of a) \<and> truthy o' then py_lt (block_time_of a) o' = Inr True else truthy (dget a ''precedence''))"
  unfolding precedence_suite_def Let_def by auto

lemma anchors_pass:
  "(\<exists>e p. live_anchor_suites w mapping g = Inr (e, p) \<and> ls_state e = LPass \<and> ls_state p = LPass) \<longleftrightarrow> live_anchored w mapping g"
proof (cases "truthy (gv_anchor g)")
  case True
  have "(\<exists>e p. live_anchor_suites w mapping g = Inr (e, p) \<and> ls_state e = LPass \<and> ls_state p = LPass) \<longleftrightarrow>
      (\<exists>ep a kind. resolve_anchor mapping (gv_anchor g) = Inr ep \<and> anchor_block (w_ucd w) (fetch_anchor w ep) = (a, kind) \<and>
        anchor_confirmed (w_ucd w) a kind \<and>
        (\<exists>c. precedence_suite (w_ucd w) a kind (dget mapping ''terminal_outcome_time'') = Inr c \<and> ls_state c = LPass))"
  proof (cases "resolve_anchor mapping (gv_anchor g)")
    case (Inr ep)
    obtain a kind where "anchor_block (w_ucd w) (fetch_anchor w ep) = (a, kind)" by fastforce
    then show ?thesis using True Inr
      by (cases "precedence_suite (w_ucd w) a kind (dget mapping ''terminal_outcome_time'')") (auto simp: live_anchor_suites_def Let_def split: if_splits)
  qed (use True in \<open>simp add: live_anchor_suites_def\<close>)
  then show ?thesis unfolding live_anchored_def precedence_pass using True by blast
qed (auto simp: live_anchor_suites_def live_anchored_def)

lemma chain_pass: "(\<exists>c. live_chain_suite g = Inr c \<and> ls_state c = LPass) \<longleftrightarrow> live_joined g"
proof (cases "dig_mapped (gv_gov g) (gv_fields g) ''proposed_action_ref''"; cases "dig_mapped (gv_gov g) (gv_fields g) ''terminal_action_ref''")
  fix p t assume "dig_mapped (gv_gov g) (gv_fields g) ''proposed_action_ref'' = Inr p" "dig_mapped (gv_gov g) (gv_fields g) ''terminal_action_ref'' = Inr t"
  then show ?thesis by (simp add: live_chain_suite_def live_joined_def)
qed (simp_all add: live_chain_suite_def live_joined_def)

text \<open>C3. A live endpoint is reported as passing exactly when the governance contract holds of its response: the declared envelope hash is
  the one recomputed, the signature verifies and its signer is in the declared independent set and is not the actor, the anchor is
  confirmed and precedes the outcome, and the terminal record joins the proposed action; the audit record has to be computable too.\<close>

theorem live_overall_pass:
  "(\<exists>r. live_report_of w mapping g = Inr r \<and> lr_overall r = OverallPass) \<longleftrightarrow>
     (\<exists>h s au. envelope_source w mapping g = Inr (Some (h, PyStr h)) \<and> count_signers w mapping g = Inr s \<and> admission_audit g s = Inr au \<and>
        signature_holds w g s \<and> signer_independent mapping g \<and> live_anchored w mapping g \<and> live_joined g)"
proof -
  have "(\<exists>r. live_report_of w mapping g = Inr r \<and> lr_overall r = OverallPass) \<longleftrightarrow>
      (\<exists>s au. count_signers w mapping g = Inr s \<and> admission_audit g s = Inr au \<and>
        (\<exists>c. canonical_suite w mapping g = Inr c \<and> ls_state c = LPass) \<and>
        (\<exists>c. admission_suite w mapping g s = Inr c \<and> ls_state c = LPass) \<and>
        (\<exists>e p. live_anchor_suites w mapping g = Inr (e, p) \<and> ls_state e = LPass \<and> ls_state p = LPass) \<and>
        (\<exists>c. live_chain_suite g = Inr c \<and> ls_state c = LPass))" (is "?l \<longleftrightarrow> ?r")
  proof
    show "?l \<Longrightarrow> ?r" unfolding live_report_of_def by (auto simp: Let_def overall_of_def suite_list_def split: if_splits)
    assume ?r
    then obtain s au c a e p ch where "count_signers w mapping g = Inr s" "admission_audit g s = Inr au"
      "canonical_suite w mapping g = Inr c" "ls_state c = LPass" "admission_suite w mapping g s = Inr a" "ls_state a = LPass"
      "live_anchor_suites w mapping g = Inr (e, p)" "ls_state e = LPass" "ls_state p = LPass"
      "live_chain_suite g = Inr ch" "ls_state ch = LPass" by blast
    then show ?l by (simp add: live_report_of_def overall_of_def suite_list_def)
  qed
  then show ?thesis unfolding canonical_pass admission_pass anchors_pass chain_pass by blast
qed

text \<open>Existence cannot pass for ordering: a precedence result, passed or failed, is only ever given for an anchor whose existence
  passed.\<close>

lemma live_precedence_needs_existence:
  assumes "live_anchor_suites w mapping g = Inr (e, p)"
  shows "ls_state p \<in> {LPass, LFail} \<longrightarrow> ls_state e = LPass"
proof (cases "truthy (gv_anchor g)")
  case True
  then obtain ep where ep: "resolve_anchor mapping (gv_anchor g) = Inr ep" using assms by (auto simp: live_anchor_suites_def Let_def)
  obtain a kind where a: "anchor_block (w_ucd w) (fetch_anchor w ep) = (a, kind)" by fastforce
  show ?thesis
  proof (cases "anchor_confirmed (w_ucd w) a kind")
    case False
    then have "precedence_suite (w_ucd w) a kind o' = Inr (lsuite LPending (Some ''existence_not_yet_established''))" for o'
      by (simp add: precedence_suite_def)
    then show ?thesis using assms True ep a by (auto simp: live_anchor_suites_def Let_def)
  qed (use assms True ep a in \<open>auto simp: live_anchor_suites_def Let_def\<close>)
qed (use assms in \<open>auto simp: live_anchor_suites_def Let_def split: if_splits\<close>)

text \<open>C39. A producer's hint about its evidence mode never raises a claim: the claim stays at or below the one the referee derived, is lowered only
  when the hint contradicts what was verified, and then to at most an independent admission.\<close>

theorem evidence_hint_never_raises:
  assumes "classify_evidence_mode hint derived key external base = Inr c"
  shows "claim_rank (mc_claim c) \<le> claim_rank base \<and>
    (mc_cross c \<noteq> HintContradicts \<longrightarrow> mc_claim c = base \<and> mc_mode c = derived) \<and>
    (mc_cross c = HintContradicts \<longrightarrow> claim_rank (mc_claim c) \<le> (if key then 1 else 0) \<and> mc_blocked c) \<and>
    (mc_cross c = HintMatches \<longrightarrow> hint = PyStr derived)"
  using assms unfolding classify_evidence_mode_def Let_def
  by (cases base) (auto split: if_splits option.splits)

theorem evidence_hint_never_raises_witness:
  "\<exists>c. classify_evidence_mode (S ''pinned_registry'') (U ''embedded_fixture'') True False MultisigRecomputable = Inr c \<and>
     mc_cross c = HintContradicts \<and> claim_rank (mc_claim c) \<le> 1"
proof -
  obtain c where c: "classify_evidence_mode (S ''pinned_registry'') (U ''embedded_fixture'') True False MultisigRecomputable = Inr c"
    "mc_cross c = HintContradicts"
    by (simp add: classify_evidence_mode_def mode_contract_def evidence_modes_def)
  with evidence_hint_never_raises [OF c(1)] show ?thesis by auto
qed

section \<open>Divergences\<close>



text \<open>Canonical bytes that are an object are hashed for the envelope suite, but the audit record then hashes the object itself and
  raises: no response of such an endpoint is ever reported on.\<close>

lemma canonical_object_raises:
  assumes "gv_canonical g = PyDict (kv # d)"
  shows "\<exists>e. live_report_of w mapping g = Inl e"
proof -
  have "\<exists>e. admission_audit g s = Inl e" for s
  proof (cases "admission_audit g s")
    case (Inr au)
    then have "\<exists>h. bytes_hash (gv_canonical g) = Inr h" unfolding admission_audit_def by auto
    then show ?thesis by (simp add: bytes_hash_def assms)
  qed simp
  moreover have "\<exists>s au. admission_audit g s = Inr au" if "live_report_of w mapping g = Inr r" for r
    using that unfolding live_report_of_def by auto
  ultimately show ?thesis by (metis sum.exhaust sum.distinct(1))
qed

lemma canonical_object_raises_instance:
  "\<exists>e. live_report_of sample_world [] (bare_governance (PyDict [(U ''a'', PyNone)]) PyNone) = Inl e"
  by (rule canonical_object_raises) (simp add: bare_governance_def)

end
