(* ===== verification/Submission.thy ===== *)
theory Submission
  imports Bip340 Report
begin

text \<open>
  Two further tools. \<^verbatim>\<open>verify_submission_commitment.py\<close> checks a requester's signed commitment to a submission; the time of the check is
  an argument. \<^verbatim>\<open>issuer_run_check.py\<close> re-establishes an attested run from the repository; \<^verbatim>\<open>git\<close>, the file system and the re-run of the
  checker are arguments.
\<close>

section \<open>Submission commitments\<close>

definition body_fields :: "string list" where
  "body_fields = [''type'', ''version'', ''request_digest'', ''attempt_id'', ''sent_at'', ''requester_pubkey'']"

definition sub_canon :: "py \<Rightarrow> bytes res" where
  "sub_canon v = utf8 (dumps_sorted v)"

definition body_of :: "pydict \<Rightarrow> pydict" where
  "body_of obj = map (\<lambda>k. (U k, dget obj k)) body_fields"

definition signing_message :: "pydict \<Rightarrow> bytes res" where
  "signing_message obj = bnd (sub_canon (PyDict (body_of obj))) (\<lambda>b. Inr (sha256 b))"

definition commitment_ref :: "pydict \<Rightarrow> ustr res" where
  "commitment_ref obj = bnd (sub_canon (PyDict (body_of obj @ [(U ''sig'', dget obj ''sig'')]))) (\<lambda>b. Inr (sha256_hex b))"

definition lower_hex_text :: "nat \<Rightarrow> py \<Rightarrow> bool" where
  "lower_hex_text n v = (case v of PyStr s \<Rightarrow> length s = n \<and> list_all is_lower_hex s | _ \<Rightarrow> False)"

definition attempt_char :: "nat \<Rightarrow> bool" where
  "attempt_char c \<longleftrightarrow> (65 \<le> c \<and> c \<le> 90) \<or> (97 \<le> c \<and> c \<le> 122) \<or> (48 \<le> c \<and> c \<le> 57) \<or> c = 95 \<or> c = 45"

definition attempt_text :: "py \<Rightarrow> bool" where
  "attempt_text v = (case v of PyStr s \<Rightarrow> 8 \<le> length s \<and> length s \<le> 128 \<and> list_all attempt_char s | _ \<Rightarrow> False)"

definition positive_int :: "py \<Rightarrow> bool" where
  "positive_int v = (case v of PyInt i \<Rightarrow> 0 < i | _ \<Rightarrow> False)"

definition max_future_skew :: int where
  "max_future_skew = 300"

datatype sub_reason =
    NotObject | UnknownFields "ustr list" | WrongTypeOrVersion | BadRequestDigest | BadAttemptId | BadSentAt | BadRequesterPubkey
  | BadSigFormat | RequestDigestMismatch | SentAtInTheFuture | BadSignatureReason

definition extra_fields :: "pydict \<Rightarrow> ustr list" where
  "extra_fields obj = sort (filter (\<lambda>k. k \<notin> set (map U (body_fields @ [''sig'']))) (map fst obj))"

text \<open>The signature check, every exception being a failure.\<close>

definition sub_signature :: "pydict \<Rightarrow> bool" where
  "sub_signature obj =
     try_default
       (bnd (signing_message obj) (\<lambda>m.
        bnd (bnd (py_item (PyDict obj) ''requester_pubkey'') py_fromhex) (\<lambda>pk.
        bnd (bnd (py_item (PyDict obj) ''sig'') py_fromhex) (\<lambda>sg. Inr (schnorr_verify m pk sg))))) False"

text \<open>\<^verbatim>\<open>verify\<close> with the expected digest and the time in seconds: the reason of a refusal, or the reference of the commitment.\<close>

definition sub_verify :: "py \<Rightarrow> py option \<Rightarrow> int \<Rightarrow> (sub_reason + ustr) res" where
  "sub_verify v expected now =
     (case v of
        PyDict obj \<Rightarrow>
          if extra_fields obj \<noteq> [] then Inr (Inl (UnknownFields (extra_fields obj)))
          else if \<not> (py_eq (dget obj ''type'') (S ''submission_commitment'') \<and> py_eq (dget obj ''version'') (S ''v0'')) then Inr (Inl WrongTypeOrVersion)
          else if \<not> lower_hex_text 64 (dget obj ''request_digest'') then Inr (Inl BadRequestDigest)
          else if \<not> attempt_text (dget obj ''attempt_id'') then Inr (Inl BadAttemptId)
          else if \<not> positive_int (dget obj ''sent_at'') then Inr (Inl BadSentAt)
          else if \<not> lower_hex_text 64 (dget obj ''requester_pubkey'') then Inr (Inl BadRequesterPubkey)
          else if \<not> lower_hex_text 128 (dget obj ''sig'') then Inr (Inl BadSigFormat)
          else if (case expected of None \<Rightarrow> False | Some d \<Rightarrow> \<not> py_eq (dget obj ''request_digest'') d) then Inr (Inl RequestDigestMismatch)
          else if (case dget obj ''sent_at'' of PyInt t \<Rightarrow> now + max_future_skew < t | _ \<Rightarrow> False) then Inr (Inl SentAtInTheFuture)
          else if \<not> sub_signature obj then Inr (Inl BadSignatureReason)
          else bnd (commitment_ref obj) (\<lambda>r. Inr (Inr r))
      | _ \<Rightarrow> Inr (Inl NotObject))"

definition sub_main :: "py \<Rightarrow> py option \<Rightarrow> int \<Rightarrow> nat res" where
  "sub_main v expected now = bnd (sub_verify v expected now) (\<lambda>r. Inr (case r of Inl _ \<Rightarrow> 1 | Inr _ \<Rightarrow> 0))"

section \<open>Attested runs\<close>

text \<open>The repository: whether a commit exists, whether the checker files are those of a commit, files, and the re-run of a checker.\<close>

record repo =
  rp_commit :: "ustr \<Rightarrow> bool"
  rp_unchanged :: "ustr \<Rightarrow> string list \<Rightarrow> bool"
  rp_exists :: "py \<Rightarrow> bool res"
  rp_read :: "py \<Rightarrow> bytes res"
  rp_run :: "string \<Rightarrow> ustr list \<Rightarrow> int \<times> bytes"

definition run_checkers :: "(string \<times> string) list" where
  "run_checkers = [(''vantage_limitation'', ''tools/vantage_limitation_check.py''), (''related_claims'', ''tools/related_claims_check.py'')]"

definition declarations :: "string list" where
  "declarations = [''not_controlled_by_proposer'', ''not_funded_by_proposer'', ''not_maintainer_affiliated'',
     ''records_emitted_by_issuer_own_software'', ''published_by_issuer'']"

definition checker_files :: "string list" where
  "checker_files = [''_bip340_nostr.py'', ''tools/issuer_profile.py'', ''tools/_ed25519.py'', ''tools/vantage_notes_by_policy.json''] @
     map snd run_checkers"

definition checker_tool :: "py \<Rightarrow> string option res" where
  "checker_tool v =
     (if \<not> hashable v then Inl TypeError
      else Inr (case v of PyStr s \<Rightarrow> map_of (map (\<lambda>(k, t). (U k, t)) run_checkers) s | _ \<Rightarrow> None))"

text \<open>One declared file: its line, and whether it is present with the declared digest.\<close>

definition file_line :: "ucd \<Rightarrow> repo \<Rightarrow> py \<Rightarrow> (status \<times> bool) res" where
  "file_line u rp f =
     bnd (py_get f ''path'') (\<lambda>p.
     bnd (py_get_default f ''sha256'' (PyStr [])) (\<lambda>want0.
     let want = u_lower u (py_str u want0) in
     bnd (if truthy p then rp_exists rp p else Inr False) (\<lambda>here.
     if \<not> here then Inr (CANNOT_ESTABLISH, False)
     else bnd (rp_read rp p) (\<lambda>b. let good = (sha256_hex b = want) in Inr (if good then PASS else FAIL, good)))))"

definition run_files :: "pydict \<Rightarrow> py list res" where
  "run_files att = bnd (py_iter (py_or (dget att ''inputs'') (PyList []))) (\<lambda>ins. Inr (py_or (dget att ''profile'') (PyDict []) # ins))"

definition argv_texts :: "py \<Rightarrow> ustr list option" where
  "argv_texts v =
     (case v of
        PyList xs \<Rightarrow> if list_all is_str xs then Some (map (\<lambda>x. case x of PyStr s \<Rightarrow> s | _ \<Rightarrow> []) xs) else None
      | _ \<Rightarrow> None)"

text \<open>The argument behind the first \<^verbatim>\<open>--profile\<close> is the declared profile.\<close>

definition profile_passed :: "ustr list \<Rightarrow> py \<Rightarrow> bool" where
  "profile_passed argv path \<longleftrightarrow>
     (case dropWhile (\<lambda>a. a \<noteq> U ''--profile'') argv of _ # a # _ \<Rightarrow> py_eq (PyStr a) path | _ \<Rightarrow> False)"

definition rerun_lines :: "ucd \<Rightarrow> repo \<Rightarrow> pydict \<Rightarrow> string \<Rightarrow> ustr list \<Rightarrow> lines res" where
  "rerun_lines u rp att tool argv =
     (let (code, out) = rp_run rp tool argv in
      bnd (map_r (\<lambda>k. py_get (py_or (dget att ''independence'') (PyDict [])) k) declarations) (\<lambda>ds.
        Inr [pass_if (py_eq (PyInt code) (dget att ''exit_code'')) ''re-run exit code'',
             pass_if (sha256_hex out = u_lower u (py_str u (dget_default att ''output_sha256'' (PyStr [])))) ''re-run output sha256'',
             pass_if (py_eq (dget att ''exit_code'') (PyInt 0)) ''declared result is a pass'',
             pass_if (list_all (\<lambda>d. d = PyBool True) ds) ''all independence declarations made'',
             pass_if (startswith (py_str u (dget_default att ''published_at_url'' (PyStr []))) (U ''https://'')) ''published at an https URL'']))"

definition run_body :: "ucd \<Rightarrow> repo \<Rightarrow> pydict \<Rightarrow> string \<Rightarrow> lines res" where
  "run_body u rp att tool =
     bnd (run_files att) (\<lambda>files.
     bnd (map_r (file_line u rp) files) (\<lambda>fs.
     let fl = map (\<lambda>x. (fst x, ''file'')) fs in
     case argv_texts (dget att ''argv'') of
       None \<Rightarrow> Inr (fl @ [(FAIL, ''argv is a list of strings'')])
     | Some argv \<Rightarrow>
         bnd (if U ''--profile'' \<notin> set argv then Inr False
              else bnd (py_get (py_or (dget att ''profile'') (PyDict [])) ''path'') (\<lambda>path. Inr (profile_passed argv path))) (\<lambda>passed.
         let pl = fl @ (if passed then [] else [(FAIL, ''argv passes the declared profile'')]) in
         if \<not> list_all snd fs then Inr pl
         else bnd (rerun_lines u rp att tool argv) (\<lambda>ls. Inr (pl @ ls)))))"

definition run_check :: "ucd \<Rightarrow> repo \<Rightarrow> pydict \<Rightarrow> lines res" where
  "run_check u rp att =
     (if \<not> py_eq (dget att ''schema'') (S ''trace-issuer-run.v1'') then Inr [(FAIL, ''schema'')]
      else
        let commit = py_str u (dget_default att ''checker_commit'' (PyStr [])) in
        if \<not> rp_commit rp commit then Inr [(CANNOT_ESTABLISH, ''checker commit exists'')]
        else
          let head = [(PASS, ''checker commit exists''), pass_if (rp_unchanged rp commit checker_files) ''checker unchanged''] in
          bnd (checker_tool (dget att ''checker'')) (\<lambda>t.
          case t of
            None \<Rightarrow> Inr (head @ [(FAIL, ''checker is known'')])
          | Some tool \<Rightarrow> bnd (run_body u rp att tool) (\<lambda>ls. Inr (head @ ls))))"

definition run_main :: "ucd \<Rightarrow> repo \<Rightarrow> pydict \<Rightarrow> nat res" where
  "run_main u rp att = bnd (run_check u rp att) (\<lambda>ls. Inr (exit_of ls))"

section \<open>Which commitments are accepted\<close>

text \<open>A commitment whose members all have their form; nothing else is in it.\<close>

definition commitment_shape :: "pydict \<Rightarrow> bool" where
  "commitment_shape obj \<longleftrightarrow>
     set (map fst obj) \<subseteq> set (map U (body_fields @ [''sig''])) \<and>
     dget obj ''type'' = S ''submission_commitment'' \<and> dget obj ''version'' = S ''v0'' \<and>
     lower_hex_text 64 (dget obj ''request_digest'') \<and> attempt_text (dget obj ''attempt_id'') \<and> positive_int (dget obj ''sent_at'') \<and>
     lower_hex_text 64 (dget obj ''requester_pubkey'') \<and> lower_hex_text 128 (dget obj ''sig'')"

definition ref_preimage :: "pydict \<Rightarrow> py" where
  "ref_preimage obj = PyDict (body_of obj @ [(U ''sig'', dget obj ''sig'')])"

lemma sort_empty_iff [simp]: "sort xs = [] \<longleftrightarrow> xs = []"
  by (metis length_0_conv length_sort)

lemma extra_fields_empty: "extra_fields obj = [] \<longleftrightarrow> set (map fst obj) \<subseteq> set (map U (body_fields @ [''sig'']))"
  by (auto simp: extra_fields_def filter_empty_conv)

lemma lower_hex_scalar: "list_all is_lower_hex s \<Longrightarrow> scalar_str s"
  by (auto simp: scalar_str_def list_all_iff is_lower_hex_def is_scalar_def is_surrogate_def)

lemma attempt_scalar: "list_all attempt_char s \<Longrightarrow> scalar_str s"
  by (auto simp: scalar_str_def list_all_iff attempt_char_def is_scalar_def is_surrogate_def)

lemma lower_hex_text_py: "lower_hex_text n v \<Longrightarrow> scalar_py v \<and> v \<noteq> PyNone \<and> py_sort v = v"
  by (cases v) (auto simp: lower_hex_text_def lower_hex_scalar)

lemma attempt_text_py: "attempt_text v \<Longrightarrow> scalar_py v \<and> v \<noteq> PyNone \<and> py_sort v = v"
  by (cases v) (auto simp: attempt_text_def attempt_scalar)

lemma positive_int_py: "positive_int v \<Longrightarrow> scalar_py v \<and> v \<noteq> PyNone \<and> py_sort v = v"
  by (cases v) (auto simp: positive_int_def)

lemma shape_members:
  assumes "commitment_shape obj" "k \<in> set (body_fields @ [''sig''])"
  shows "scalar_py (dget obj k) \<and> dget obj k \<noteq> PyNone \<and> py_sort (dget obj k) = dget obj k"
  using assms lower_hex_text_py attempt_text_py positive_int_py by (auto simp: commitment_shape_def body_fields_def)

lemma ref_preimage_items: "ref_preimage obj = PyDict (map (\<lambda>k. (U k, dget obj k)) (body_fields @ [''sig'']))"
  by (simp add: ref_preimage_def body_of_def)

lemma commitment_ref_text: "commitment_ref obj = sha256_text (dumps_sorted (ref_preimage obj))"
  by (simp add: commitment_ref_def sub_canon_def ref_preimage_def sha256_text_def)

lemma commitment_ref_total: "commitment_shape obj \<Longrightarrow> \<exists>r. commitment_ref obj = Inr r"
proof -
  assume s: "commitment_shape obj"
  have "scalar_py (ref_preimage obj)"
    unfolding ref_preimage_items using shape_members [OF s] by (auto simp: list_all_iff)
  then show ?thesis using scalar_dumps sha256_text_scalar by (auto simp: commitment_ref_text)
qed

lemma py_eq_lit: "py_eq v (S s) = (v = S s)"
  by (simp add: py_eq_Str_right)

lemma sub_verify_shape:
  assumes "commitment_shape obj" "dget obj ''sent_at'' = PyInt t"
  shows "sub_verify (PyDict obj) expected now =
    (if (case expected of None \<Rightarrow> False | Some d \<Rightarrow> \<not> py_eq (dget obj ''request_digest'') d) then Inr (Inl RequestDigestMismatch)
     else if now + max_future_skew < t then Inr (Inl SentAtInTheFuture)
     else if \<not> sub_signature obj then Inr (Inl BadSignatureReason)
     else bnd (commitment_ref obj) (\<lambda>r. Inr (Inr r)))"
  using assms(1) unfolding sub_verify_def commitment_shape_def extra_fields_empty [symmetric]
  by (simp add: assms(2) py_eq_lit)

lemma sub_verify_bad_shape:
  assumes "\<not> commitment_shape obj"
  shows "\<exists>e. sub_verify (PyDict obj) expected now = Inr (Inl e)"
proof -
  have i: "(\<exists>e. (if b then Inr (Inl x) else y) = (Inr (Inl e) :: (sub_reason + ustr) res)) \<longleftrightarrow> b \<or> (\<exists>e. y = Inr (Inl e))" for b x y
    by simp
  show ?thesis
    using assms unfolding sub_verify_def commitment_shape_def extra_fields_empty [symmetric] py_eq_lit py.case i by blast
qed

text \<open>C13. A commitment is accepted exactly when it has its form and no other member, is for the expected digest where one is given, is not dated
  more than five minutes ahead, and carries a signature of its requester over its six members; and the check never raises.\<close>

theorem submission_accepted:
  "(\<exists>r. sub_verify v expected now = Inr r) \<and>
   ((\<exists>r. sub_verify v expected now = Inr (Inr r)) \<longleftrightarrow>
     (\<exists>obj t. v = PyDict obj \<and> commitment_shape obj \<and> (case expected of None \<Rightarrow> True | Some d \<Rightarrow> py_eq (dget obj ''request_digest'') d) \<and>
        dget obj ''sent_at'' = PyInt t \<and> t \<le> now + 300 \<and> sub_signature obj))"
proof (cases "\<exists>obj. v = PyDict obj \<and> commitment_shape obj")
  case True
  then obtain obj where o: "v = PyDict obj" "commitment_shape obj" by blast
  then obtain t where t: "dget obj ''sent_at'' = PyInt t"
    by (cases "dget obj ''sent_at''") (auto simp: commitment_shape_def positive_int_def)
  obtain r where r: "commitment_ref obj = Inr r" using commitment_ref_total [OF o(2)] by blast
  show ?thesis
    unfolding o(1) sub_verify_shape [OF o(2) t]
    using o(2) t r by (cases expected) (auto simp: max_future_skew_def not_less)
next
  case False
  show ?thesis
  proof (cases v)
    case (PyDict obj)
    then obtain e where "sub_verify v expected now = Inr (Inl e)" using False sub_verify_bad_shape by blast
    then show ?thesis using False by auto
  qed (simp_all add: sub_verify_def)
qed

lemma dict_items_sorted:
  assumes "sort_key fst (map (\<lambda>k. (U k, f k)) ks) = sort_key fst (map (\<lambda>k. (U k, g k)) ks)" "k \<in> set ks"
  shows "f k = g k"
proof -
  have "(U k, f k) \<in> set (map (\<lambda>k. (U k, f k)) ks)" using assms(2) by (auto intro!: rev_image_eqI)
  also have "\<dots> = set (map (\<lambda>k. (U k, g k)) ks)" using arg_cong [OF assms(1), of set] by (simp only: set_sort)
  finally have "(U k, f k) \<in> set (map (\<lambda>k. (U k, g k)) ks)" .
  then show ?thesis by auto
qed

lemma map_of_shape:
  assumes "commitment_shape obj" "commitment_shape obj'" "\<forall>k \<in> set (body_fields @ [''sig'']). dget obj k = dget obj' k"
  shows "map_of obj = map_of obj'"
proof
  fix x
  show "map_of obj x = map_of obj' x"
  proof (cases "x \<in> set (map U (body_fields @ [''sig'']))")
    case True
    then obtain k where k: "x = U k" "k \<in> set (body_fields @ [''sig''])" by auto
    then have "dget obj k = dget obj' k" "dget obj k \<noteq> PyNone" using assms(3) shape_members [OF assms(1)] by auto
    then show ?thesis by (auto simp: k(1) dget_def split: option.splits)
  next
    case False
    then have "x \<notin> fst ` set obj" "x \<notin> fst ` set obj'" using assms(1,2) by (auto simp: commitment_shape_def)
    then show ?thesis by (metis map_of_eq_None_iff)
  qed
qed

text \<open>The reference of a commitment determines it: two well-formed commitments with one reference have the same members with the same values,
  signature included, or their two canonical texts are a collision of SHA-256.\<close>

lemma commitment_ref_binding:
  assumes "commitment_shape obj" "commitment_shape obj'" "json_plain (PyDict obj)" "json_plain (PyDict obj')"
    "commitment_ref obj = Inr r" "commitment_ref obj' = Inr r"
  shows "map_of obj = map_of obj' \<or>
    (\<exists>a b. utf8 (dumps_sorted (ref_preimage obj)) = Inr a \<and> utf8 (dumps_sorted (ref_preimage obj')) = Inr b \<and> collision a b)"
proof -
  have plain: "json_plain (ref_preimage x)" if "commitment_shape x" "json_plain (PyDict x)" for x
  proof -
    have "json_plain (dget x k)" for k
      using that(2) by (auto simp: dget_def list_all_iff dest: map_of_SomeD split: option.splits)
    then show ?thesis unfolding ref_preimage_items by (auto simp: list_all_iff body_fields_def)
  qed
  have "py_sort (ref_preimage obj) = py_sort (ref_preimage obj') \<or>
    (\<exists>s t a b. Inr (dumps_sorted (ref_preimage obj)) = (Inr s :: ustr res) \<and> Inr (dumps_sorted (ref_preimage obj')) = (Inr t :: ustr res) \<and>
       utf8 s = Inr a \<and> utf8 t = Inr b \<and> collision a b)"
    by (rule sorted_json.digest_binding [OF plain [OF assms(1,3)] plain [OF assms(2,4)]]) (use assms(5,6) in \<open>simp_all add: commitment_ref_text\<close>)
  moreover have "map_of obj = map_of obj'" if e: "py_sort (ref_preimage obj) = py_sort (ref_preimage obj')"
  proof (rule map_of_shape [OF assms(1,2)], rule ballI)
    fix k assume k: "k \<in> set (body_fields @ [''sig''])"
    have "py_sort (dget obj k) = py_sort (dget obj' k)"
      by (rule dict_items_sorted [OF _ k]) (use e in \<open>simp_all add: ref_preimage_items comp_def body_fields_def\<close>)
    then show "dget obj k = dget obj' k" using shape_members [OF assms(1) k] shape_members [OF assms(2) k] by simp
  qed
  ultimately show ?thesis by auto
qed

definition sample_commitment :: pydict where
  "sample_commitment =
     [(U ''type'', S ''submission_commitment''), (U ''version'', S ''v0''), (U ''request_digest'', PyStr (replicate 64 97)),
      (U ''attempt_id'', S ''attempt-1''), (U ''sent_at'', PyInt 1), (U ''requester_pubkey'', PyStr (replicate 64 98)),
      (U ''sig'', PyStr (replicate 128 99))]"

lemma sample_commitment_shape: "commitment_shape sample_commitment" "json_plain (PyDict sample_commitment)"
  by (simp_all add: commitment_shape_def sample_commitment_def body_fields_def dget_def lower_hex_text_def attempt_text_def positive_int_def
    list_all_iff is_lower_hex_def attempt_char_def U_def nat_dec.simps)

section \<open>Which runs are reproduced\<close>

text \<open>What the tool has to establish of an attested run.\<close>

definition file_as_declared :: "ucd \<Rightarrow> repo \<Rightarrow> py \<Rightarrow> bool" where
  "file_as_declared u rp f \<longleftrightarrow>
     (\<exists>p want b. py_get f ''path'' = Inr p \<and> truthy p \<and> rp_exists rp p = Inr True \<and> rp_read rp p = Inr b \<and>
        py_get_default f ''sha256'' (PyStr []) = Inr want \<and> sha256_hex b = u_lower u (py_str u want))"

definition run_reproduced :: "ucd \<Rightarrow> repo \<Rightarrow> pydict \<Rightarrow> string \<Rightarrow> bool" where
  "run_reproduced u rp att tool \<longleftrightarrow>
     (\<exists>files argv path out.
        run_files att = Inr files \<and> list_all (file_as_declared u rp) files \<and> argv_texts (dget att ''argv'') = Some argv \<and>
        py_get (py_or (dget att ''profile'') (PyDict [])) ''path'' = Inr path \<and> profile_passed argv path \<and>
        (\<exists>code. rp_run rp tool argv = (code, out) \<and> py_eq (PyInt code) (dget att ''exit_code'')) \<and> py_eq (dget att ''exit_code'') (PyInt 0) \<and>
        sha256_hex out = u_lower u (py_str u (dget_default att ''output_sha256'' (PyStr []))) \<and>
        (\<forall>k \<in> set declarations. py_get (py_or (dget att ''independence'') (PyDict [])) k = Inr (PyBool True)) \<and>
        startswith (py_str u (dget_default att ''published_at_url'' (PyStr []))) (U ''https://''))"

lemma map_r_all: "(\<exists>ys. map_r f xs = Inr ys \<and> list_all P ys) \<longleftrightarrow> list_all (\<lambda>x. \<exists>y. f x = Inr y \<and> P y) xs"
proof (induction xs)
  case (Cons x xs)
  show ?case
  proof (cases "f x")
    case (Inr y)
    then show ?thesis using Cons by (cases "map_r f xs") auto
  qed simp
qed simp

lemma file_line_good: "(\<exists>x. file_line u rp f = Inr x \<and> snd x) \<longleftrightarrow> file_as_declared u rp f" (is "?l \<longleftrightarrow> ?r")
proof
  show "?l \<Longrightarrow> ?r" unfolding file_line_def file_as_declared_def Let_def by (auto split: if_splits)
  assume ?r
  then obtain p want b where "py_get f ''path'' = Inr p" "truthy p" "rp_exists rp p = Inr True" "rp_read rp p = Inr b"
    "py_get_default f ''sha256'' (PyStr []) = Inr want" "sha256_hex b = u_lower u (py_str u want)"
    unfolding file_as_declared_def by blast
  then show ?l by (simp add: file_line_def)
qed

lemma file_line_status: "file_line u rp f = Inr x \<Longrightarrow> fst x = PASS \<longleftrightarrow> snd x"
  unfolding file_line_def Let_def by (auto split: if_splits)

lemma file_lines_status: "map_r (file_line u rp) files = Inr fs \<Longrightarrow> exit_of (map (\<lambda>x. (fst x, n)) fs) = 0 \<longleftrightarrow> list_all snd fs"
proof (induction files arbitrary: fs)
  case (Cons f files)
  then obtain x xs where x: "fs = x # xs" "file_line u rp f = Inr x" "map_r (file_line u rp) files = Inr xs" by auto
  then show ?case using Cons.IH [OF x(3)] file_line_status [OF x(2)] by simp
qed simp

lemma rerun_good:
  "(\<exists>ls. rerun_lines u rp att tool argv = Inr ls \<and> exit_of ls = 0) \<longleftrightarrow>
     (\<exists>code out. rp_run rp tool argv = (code, out) \<and> py_eq (PyInt code) (dget att ''exit_code'') \<and> py_eq (dget att ''exit_code'') (PyInt 0) \<and>
        sha256_hex out = u_lower u (py_str u (dget_default att ''output_sha256'' (PyStr [])))) \<and>
     (\<forall>k \<in> set declarations. py_get (py_or (dget att ''independence'') (PyDict [])) k = Inr (PyBool True)) \<and>
     startswith (py_str u (dget_default att ''published_at_url'' (PyStr []))) (U ''https://'')"
proof -
  obtain code out where r: "rp_run rp tool argv = (code, out)" by fastforce
  let ?get = "\<lambda>k. py_get (py_or (dget att ''independence'') (PyDict [])) k"
  have "(\<exists>ds. map_r ?get declarations = Inr ds \<and> list_all (\<lambda>d. d = PyBool True) ds) \<longleftrightarrow>
      (\<forall>k \<in> set declarations. ?get k = Inr (PyBool True))"
    unfolding map_r_all by (simp add: list_all_iff)
  then show ?thesis
    unfolding rerun_lines_def r by (cases "map_r ?get declarations") auto
qed

lemma profile_passed_in: "profile_passed argv path \<Longrightarrow> U ''--profile'' \<in> set argv"
proof (rule ccontr)
  assume a: "profile_passed argv path" "U ''--profile'' \<notin> set argv"
  then have "dropWhile (\<lambda>a. a \<noteq> U ''--profile'') argv = []" by (subst dropWhile_eq_Nil_conv) blast
  with a show False by (simp add: profile_passed_def)
qed

lemma run_body_good: "(\<exists>ls. run_body u rp att tool = Inr ls \<and> exit_of ls = 0) \<longleftrightarrow> run_reproduced u rp att tool"
proof (cases "\<exists>files fs. run_files att = Inr files \<and> map_r (file_line u rp) files = Inr fs")
  case True
  then obtain files fs where f: "run_files att = Inr files" "map_r (file_line u rp) files = Inr fs" by blast
  have g: "list_all snd fs \<longleftrightarrow> list_all (file_as_declared u rp) files"
    using map_r_all [of "file_line u rp" files snd] unfolding file_line_good f(2) by simp
  show ?thesis
  proof (cases "argv_texts (dget att ''argv'')")
    case None
    then show ?thesis using f by (simp add: run_body_def run_reproduced_def exit_of_append)
  next
    case (Some argv)
    have st: "exit_of (map (\<lambda>x. (fst x, ''file'')) fs) = 0 \<longleftrightarrow> list_all snd fs" using f(2) by (rule file_lines_status)
    show ?thesis
    proof (cases "\<exists>path. py_get (py_or (dget att ''profile'') (PyDict [])) ''path'' = Inr path \<and> profile_passed argv path")
      case True
      then obtain path where path: "py_get (py_or (dget att ''profile'') (PyDict [])) ''path'' = Inr path" "profile_passed argv path" by blast
      then have "U ''--profile'' \<in> set argv" using profile_passed_in by blast
      with path Some f have "run_body u rp att tool =
          (if list_all snd fs then bnd (rerun_lines u rp att tool argv) (\<lambda>ls. Inr (map (\<lambda>x. (fst x, ''file'')) fs @ ls))
           else Inr (map (\<lambda>x. (fst x, ''file'')) fs))"
        by (simp add: run_body_def)
      then have "(\<exists>ls. run_body u rp att tool = Inr ls \<and> exit_of ls = 0) \<longleftrightarrow>
          list_all snd fs \<and> (\<exists>ls. rerun_lines u rp att tool argv = Inr ls \<and> exit_of ls = 0)"
        using st by (cases "rerun_lines u rp att tool argv") (auto simp: exit_of_append)
      then show ?thesis unfolding rerun_good g run_reproduced_def using f(1) Some path by auto
    next
      case False
      then have "\<not> run_reproduced u rp att tool" using Some by (auto simp: run_reproduced_def)
      moreover have "exit_of ls \<noteq> 0" if "run_body u rp att tool = Inr ls" for ls
        using that False Some f unfolding run_body_def
        by (cases "py_get (py_or (dget att ''profile'') (PyDict [])) ''path''")
           (auto simp: Let_def exit_of_def bnd_def split: if_splits sum.splits)
      ultimately show ?thesis by blast
    qed
  qed
next
  case False
  have "\<not> run_reproduced u rp att tool"
    using False map_r_all [of "file_line u rp" _ snd] unfolding run_reproduced_def file_line_good by blast
  moreover have "\<nexists>ls. run_body u rp att tool = Inr ls" using False by (auto simp: run_body_def)
  ultimately show ?thesis by blast
qed

text \<open>C22. The run checker exits with 0 exactly when the attestation is reproduced from the repository: the checker commit is there and the checker
  with all its dependencies is unchanged, every declared file has its declared digest, the declared profile is the one passed, re-running
  the named checker gives the declared exit code 0 and output, and every independence declaration is made.\<close>

theorem run_accepted:
  "run_main u rp att = Inr 0 \<longleftrightarrow>
     (\<exists>tool. dget att ''schema'' = S ''trace-issuer-run.v1'' \<and>
        rp_commit rp (py_str u (dget_default att ''checker_commit'' (PyStr []))) \<and>
        rp_unchanged rp (py_str u (dget_default att ''checker_commit'' (PyStr []))) checker_files \<and>
        checker_tool (dget att ''checker'') = Inr (Some tool) \<and> run_reproduced u rp att tool)"
proof (cases "checker_tool (dget att ''checker'')")
  case (Inr t)
  show ?thesis
  proof (cases t)
    case (Some tool)
    then show ?thesis
      using Inr run_body_good [of u rp att tool] unfolding run_main_def run_check_def py_eq_lit
      by (cases "run_body u rp att tool") (auto simp: Let_def exit_of_def pass_if_def split: if_splits)
  qed (use Inr in \<open>auto simp: run_main_def run_check_def Let_def exit_of_def py_eq_lit\<close>)
qed (auto simp: run_main_def run_check_def Let_def exit_of_def py_eq_lit)

end
