(* ===== verification/Receipt.thy ===== *)
theory Receipt
  imports Markers
begin

text \<open>
  \<^verbatim>\<open>examples/x402-receipt-authorization-commitment/receipt_check.py\<close>: keccak-256, ECDSA over secp256k1 with public key recovery and
  deterministic signing, the EIP-712 and JWS forms of a receipt, and the link of a receipt to the payment it is for. 64-bit lanes are
  words; curve coordinates are integers.
\<close>

unbundle bit_operations_syntax

section \<open>keccak-256\<close>

type_synonym lanes = "64 word list list"

definition keccak_RC :: "64 word list" where
  "keccak_RC =
    [0x0000000000000001, 0x0000000000008082, 0x800000000000808A, 0x8000000080008000,
     0x000000000000808B, 0x0000000080000001, 0x8000000080008081, 0x8000000000008009,
     0x000000000000008A, 0x0000000000000088, 0x0000000080008009, 0x000000008000000A,
     0x000000008000808B, 0x800000000000008B, 0x8000000000008089, 0x8000000000008003,
     0x8000000000008002, 0x8000000000000080, 0x000000000000800A, 0x800000008000000A,
     0x8000000080008081, 0x8000000000008080, 0x0000000080000001, 0x8000000080008008]"

definition keccak_ROT :: "nat list list" where
  "keccak_ROT = [[0, 36, 3, 41, 18], [1, 44, 10, 45, 2], [62, 6, 43, 15, 61], [28, 55, 25, 21, 56], [27, 20, 39, 8, 14]]"

definition rol64 :: "64 word \<Rightarrow> nat \<Rightarrow> 64 word" where
  "rol64 v n = (if n \<noteq> 0 then push_bit n v OR drop_bit (64 - n) v else v)"

definition grid :: "(nat \<Rightarrow> nat \<Rightarrow> 'a) \<Rightarrow> 'a list list" where
  "grid f = map (\<lambda>x. map (f x) [0..<5]) [0..<5]"

definition lane :: "lanes \<Rightarrow> nat \<Rightarrow> nat \<Rightarrow> 64 word" where
  "lane a x y = a ! x ! y"

definition keccak_round :: "lanes \<Rightarrow> 64 word \<Rightarrow> lanes" where
  "keccak_round a rc =
     (let c = map (\<lambda>x. lane a x 0 XOR lane a x 1 XOR lane a x 2 XOR lane a x 3 XOR lane a x 4) [0..<5];
          d = map (\<lambda>x. c ! ((x + 4) mod 5) XOR rol64 (c ! ((x + 1) mod 5)) 1) [0..<5];
          a1 = grid (\<lambda>x y. lane a x y XOR d ! x);
          b = foldl (\<lambda>b (x, y). b[y := (b ! y)[(2 * x + 3 * y) mod 5 := rol64 (lane a1 x y) (keccak_ROT ! x ! y)]])
                (replicate 5 (replicate 5 0)) (List.product [0..<5] [0..<5]);
          a2 = grid (\<lambda>x y. lane b x y XOR (NOT (lane b ((x + 1) mod 5) y) AND lane b ((x + 2) mod 5) y))
      in a2[0 := (a2 ! 0)[0 := lane a2 0 0 XOR rc]])"

definition keccak_f :: "lanes \<Rightarrow> lanes" where
  "keccak_f a = foldl keccak_round a keccak_RC"

definition le_word64 :: "bytes \<Rightarrow> 64 word" where
  "le_word64 bs = be_word (rev bs)"

definition keccak_pad :: "bytes \<Rightarrow> bytes" where
  "keccak_pad m =
     (let n = m @ [1]; p = n @ replicate ((136 - length n mod 136) mod 136) 0
      in butlast p @ [last p OR 0x80])"

definition absorb :: "lanes \<Rightarrow> bytes \<Rightarrow> lanes" where
  "absorb a block =
     keccak_f (foldl (\<lambda>a i. a[i mod 5 := (a ! (i mod 5))[i div 5 := lane a (i mod 5) (i div 5) XOR le_word64 (take 8 (drop (8 * i) block))]])
       a [0..<17])"

definition keccak256 :: "bytes \<Rightarrow> bytes" where
  "keccak256 m =
     (let p = keccak_pad m; a = foldl absorb (replicate 5 (replicate 5 0)) (chunks (length p div 136) 136 p)
      in concat (map (\<lambda>i. rev (be_bytes 8 (lane a (i mod 5) (i div 5)))) [0..<4]))"

section \<open>secp256k1\<close>

text \<open>\<^verbatim>\<open>pow(a, -1, m)\<close>: the extended Euclidean algorithm, an error when there is no inverse.\<close>

function inv_loop :: "int \<Rightarrow> int \<Rightarrow> int \<Rightarrow> int \<Rightarrow> int \<times> int" where
  "inv_loop a b s t = (if b \<le> 0 then (a, s) else inv_loop b (a mod b) t (s - (a div b) * t))"
  by pat_completeness auto
termination
  by (relation "measure (\<lambda>(a, b, s, t). nat b)") auto

declare inv_loop.simps [simp del]

definition inv_mod :: "int \<Rightarrow> int \<Rightarrow> int res" where
  "inv_mod a m = (let (g, s) = inv_loop (a mod m) m 1 0 in if g = 1 then Inr (s mod m) else Inl ValueError)"

fun rc_add :: "pt \<Rightarrow> pt \<Rightarrow> pt res" where
  "rc_add None p2 = Inr p2"
| "rc_add p1 None = Inr p1"
| "rc_add (Some (x1, y1)) (Some (x2, y2)) =
     (if x1 = x2 \<and> (y1 + y2) mod secp_P = 0 then Inr None
      else
        bnd (if (x1, y1) = (x2, y2) then bnd (inv_mod (2 * y1) secp_P) (\<lambda>i. Inr (3 * x1 * x1 * i mod secp_P))
             else bnd (inv_mod (x2 - x1) secp_P) (\<lambda>i. Inr ((y2 - y1) * i mod secp_P))) (\<lambda>lam.
        let x = (lam * lam - x1 - x2) mod secp_P in Inr (Some (x, (lam * (x1 - x) - y1) mod secp_P))))"

fun rc_mul_loop :: "pt \<Rightarrow> pt \<Rightarrow> nat \<Rightarrow> pt res" where
  "rc_mul_loop acc p k =
     (if k = 0 then Inr acc
      else bnd (if odd k then rc_add acc p else Inr acc) (\<lambda>acc'. bnd (rc_add p p) (\<lambda>p'. rc_mul_loop acc' p' (k div 2))))"

declare rc_mul_loop.simps [simp del]

definition rc_mul :: "int \<Rightarrow> pt \<Rightarrow> pt res" where
  "rc_mul k p = rc_mul_loop None p (nat k)"

text \<open>\<^verbatim>\<open>i.to_bytes(n, "big")\<close>.\<close>

definition to_bytes_be :: "nat \<Rightarrow> int \<Rightarrow> bytes res" where
  "to_bytes_be n i = bnd (to_bytes_le n i) (\<lambda>b. Inr (rev b))"

definition hex0x :: "bytes \<Rightarrow> ustr" where
  "hex0x b = U ''0x'' @ hex_of b"

text \<open>\<^verbatim>\<open>_address\<close>; the point at infinity has no coordinates to take.\<close>

definition address_of :: "pt \<Rightarrow> ustr res" where
  "address_of p =
     (case p of
        None \<Rightarrow> Inl TypeError
      | Some (x, y) \<Rightarrow>
          bnd (to_bytes_be 32 x) (\<lambda>a. bnd (to_bytes_be 32 y) (\<lambda>b. let k = keccak256 (a @ b) in Inr (hex0x (drop (length k - 20) k)))))"

definition address_of_key :: "int \<Rightarrow> ustr res" where
  "address_of_key priv = bnd (rc_mul priv secp_G) address_of"

definition recover_address :: "bytes \<Rightarrow> int \<Rightarrow> int \<Rightarrow> int \<Rightarrow> ustr option res" where
  "recover_address digest r s rec =
     (if \<not> (1 \<le> r \<and> r < secp_N \<and> 1 \<le> s \<and> s < secp_N) \<or> rec \<notin> {0, 1} then Inr None
      else
        let y2 = (powmod r 3 secp_P + 7) mod secp_P; y0 = powmod y2 (nat ((secp_P + 1) div 4)) secp_P
        in if y0 * y0 mod secp_P \<noteq> y2 then Inr None
           else
             let y = (if y0 mod 2 \<noteq> rec then secp_P - y0 else y0); z = int_of_be digest in
             bnd (inv_mod r secp_N) (\<lambda>rinv.
             bnd (rc_mul (s * rinv mod secp_N) (Some (r, y))) (\<lambda>p1.
             bnd (rc_mul ((- z * rinv) mod secp_N) secp_G) (\<lambda>p2.
             bnd (rc_add p1 p2) (\<lambda>q. case q of None \<Rightarrow> Inr None | Some _ \<Rightarrow> bnd (address_of q) (\<lambda>a. Inr (Some a)))))))"

subsection \<open>Deterministic signing\<close>

definition hmac_sha256 :: "bytes \<Rightarrow> bytes \<Rightarrow> bytes" where
  "hmac_sha256 key msg =
     (let k0 = (if 64 < length key then sha256 key else key); k = k0 @ replicate (64 - length k0) 0
      in sha256 (map (\<lambda>b. b XOR 0x5C) k @ sha256 (map (\<lambda>b. b XOR 0x36) k @ msg)))"

text \<open>The loop of \<^verbatim>\<open>_rfc6979_k\<close>, which ends when a candidate is in range.\<close>

partial_function (option) rfc6979_loop :: "bytes \<Rightarrow> bytes \<Rightarrow> int option" where
  "rfc6979_loop k v =
     (let v1 = hmac_sha256 k v; cand = int_of_be v1
      in if 1 \<le> cand \<and> cand < secp_N then Some cand
         else let k1 = hmac_sha256 k (v1 @ [0]) in rfc6979_loop k1 (hmac_sha256 k1 v1))"

definition rfc6979_k :: "int \<Rightarrow> int \<Rightarrow> int option res" where
  "rfc6979_k priv z =
     bnd (to_bytes_be 32 priv) (\<lambda>x.
     bnd (to_bytes_be 32 (z mod secp_N)) (\<lambda>h.
       let v0 = replicate 32 1; k0 = replicate 32 0;
           k1 = hmac_sha256 k0 (v0 @ [0] @ x @ h); v1 = hmac_sha256 k1 v0;
           k2 = hmac_sha256 k1 (v1 @ [1] @ x @ h); v2 = hmac_sha256 k2 v1
       in Inr (rfc6979_loop k2 v2)))"

definition sign_digest :: "int \<Rightarrow> bytes \<Rightarrow> (int \<times> int \<times> int) option res" where
  "sign_digest priv digest =
     (let z = int_of_be digest in
      bnd (rfc6979_k priv z) (\<lambda>ko.
      case ko of
        None \<Rightarrow> Inr None
      | Some k \<Rightarrow>
          bnd (rc_mul k secp_G) (\<lambda>R.
          case R of
            None \<Rightarrow> Inl TypeError
          | Some (rx, ry) \<Rightarrow>
              let r = rx mod secp_N in
              bnd (inv_mod k secp_N) (\<lambda>ki.
                let s = ki * (z + r * priv) mod secp_N; rec = ry mod 2
                in Inr (Some (if secp_N div 2 < s then (r, secp_N - s, 1 - rec) else (r, s, rec)))))))"

section \<open>EIP-712\<close>

datatype sol_type = Uint256 | SolString

definition receipt_v1 :: "(string \<times> sol_type) list" where
  "receipt_v1 = [(''version'', Uint256), (''network'', SolString), (''resourceUrl'', SolString), (''payer'', SolString),
     (''issuedAt'', Uint256), (''transaction'', SolString)]"

definition receipt_fields :: "int \<Rightarrow> (string \<times> sol_type) list option" where
  "receipt_fields v =
     (if v = 1 then Some receipt_v1
      else if v = 2 then Some (receipt_v1 @ [(''authorizationMethod'', SolString), (''authorizationCommitment'', SolString)]) else None)"

definition eip_domain :: pydict where
  "eip_domain = [(U ''name'', S ''x402 receipt''), (U ''version'', S ''1''), (U ''chainId'', PyInt 1)]"

definition dom_fields :: "(string \<times> sol_type) list" where
  "dom_fields = [(''name'', SolString), (''version'', SolString), (''chainId'', Uint256)]"

fun sol_name :: "sol_type \<Rightarrow> string" where
  "sol_name Uint256 = ''uint256''"
| "sol_name SolString = ''string''"

definition type_string :: "string \<Rightarrow> (string \<times> sol_type) list \<Rightarrow> bytes" where
  "type_string name fs =
     utf8_total (U name @ [40] @ join [44] (map (\<lambda>(n, t). U (sol_name t) @ [32] @ U n) fs) @ [41])"

definition encode_field :: "ucd \<Rightarrow> pydict \<Rightarrow> string \<times> sol_type \<Rightarrow> bytes res" where
  "encode_field u values f =
     (let v = dget_default values (fst f) (PyStr []) in
      case snd f of
        SolString \<Rightarrow> bnd (bnd (as_str AttributeError v) utf8) (\<lambda>b. Inr (keccak256 b))
      | Uint256 \<Rightarrow> bnd (py_int u v) (to_bytes_be 32))"

definition encode_struct :: "ucd \<Rightarrow> (string \<times> sol_type) list \<Rightarrow> pydict \<Rightarrow> bytes res" where
  "encode_struct u fs values = bnd (map_r (encode_field u values) fs) (\<lambda>bs. Inr (concat bs))"

definition eip712_digest :: "ucd \<Rightarrow> pydict \<Rightarrow> int \<Rightarrow> bytes res" where
  "eip712_digest u payload types_version =
     bnd (encode_struct u dom_fields eip_domain) (\<lambda>d.
     let dom = keccak256 (keccak256 (type_string ''EIP712Domain'' dom_fields) @ d) in
     case receipt_fields types_version of
       None \<Rightarrow> Inl KeyError
     | Some fs \<Rightarrow>
         bnd (encode_struct u fs payload) (\<lambda>s.
           let struct = keccak256 (keccak256 (type_string ''Receipt'' fs) @ s) in Inr (keccak256 ([0x19, 0x01] @ dom @ struct))))"

definition sign_eip712 :: "ucd \<Rightarrow> int \<Rightarrow> pydict \<Rightarrow> int \<Rightarrow> ustr option res" where
  "sign_eip712 u priv payload types_version =
     bnd (eip712_digest u payload types_version) (\<lambda>d.
     bnd (sign_digest priv d) (\<lambda>sg.
     case sg of
       None \<Rightarrow> Inr None
     | Some (r, s, rec) \<Rightarrow>
         bnd (to_bytes_be 32 r) (\<lambda>rb. bnd (to_bytes_be 32 s) (\<lambda>sb. bnd (to_bytes_be 1 (27 + rec)) (\<lambda>vb. Inr (Some (hex0x (rb @ sb @ vb))))))))"

section \<open>The receipt\<close>

datatype rc_reason =
    PayloadMissing | UnsupportedVersion | PayloadFieldType | SignatureEncoding | RcSignatureInvalid | SignerNotAuthorized ustr
  | JwsPayloadDuplicated | UnsupportedAlg | KidUnresolved | UnsupportedFormat

text \<open>A receipt that is valid has a signer and a payload.\<close>

type_synonym rc_verdict = "rc_reason + (ustr \<times> py)"

definition known_version :: "py \<Rightarrow> bool" where
  "known_version v = (case v of PyInt i \<Rightarrow> receipt_fields i \<noteq> None | _ \<Rightarrow> False)"

definition int_value :: "py \<Rightarrow> int" where
  "int_value v = (case v of PyInt i \<Rightarrow> i | _ \<Rightarrow> 0)"

definition eip_signer :: "ucd \<Rightarrow> pydict \<Rightarrow> int \<Rightarrow> ustr \<Rightarrow> ustr option res" where
  "eip_signer u payload version sg =
     bnd (fromhex (drop 2 sg)) (\<lambda>raw.
     if length raw \<le> 64 then Inl IndexError
     else
       let r = int_of_be (take 32 raw); s = int_of_be (take 32 (drop 32 raw)); v = int (unat (raw ! 64));
           rec = (if 27 \<le> v then v - 27 else v)
       in bnd (eip712_digest u payload version) (\<lambda>d. recover_address d r s rec))"

definition lower_all :: "ucd \<Rightarrow> py \<Rightarrow> ustr list res" where
  "lower_all u v = bnd (py_iter v) (\<lambda>xs. map_r (\<lambda>x. bnd (as_str AttributeError x) (\<lambda>s. Inr (u_lower u s))) xs)"

definition check_eip712 :: "ucd \<Rightarrow> pydict \<Rightarrow> py \<Rightarrow> rc_verdict res" where
  "check_eip712 u receipt authorized =
     (case dget receipt ''payload'' of
        PyDict payload \<Rightarrow>
          (let sg = dget_default receipt ''signature'' (PyStr []); version = dget payload ''version'' in
           if \<not> known_version version then Inr (Inl UnsupportedVersion)
           else if \<not> type_is_int (dget payload ''issuedAt'') then Inr (Inl PayloadFieldType)
           else
             (case sg of
                PyStr s \<Rightarrow>
                  if \<not> (startswith s (U ''0x'') \<and> length s = 132) then Inr (Inl SignatureEncoding)
                  else
                    bnd (eip_signer u payload (int_value version) s) (\<lambda>signer.
                    case signer of
                      None \<Rightarrow> Inr (Inl RcSignatureInvalid)
                    | Some a \<Rightarrow>
                        bnd (bnd (py_get_default authorized ''eip712'' (PyList [])) (lower_all u)) (\<lambda>ok.
                          Inr (if a \<notin> set ok then Inl (SignerNotAuthorized a) else Inr (a, PyDict payload))))
              | _ \<Rightarrow> Inr (Inl SignatureEncoding)))
      | _ \<Rightarrow> Inr (Inl PayloadMissing))"

text \<open>\<^verbatim>\<open>s.split(".")\<close>.\<close>

fun split_dots :: "ustr \<Rightarrow> ustr list" where
  "split_dots [] = [[]]"
| "split_dots (c # s) = (if c = 46 then [] # split_dots s else case split_dots s of p # ps \<Rightarrow> (c # p) # ps | [] \<Rightarrow> [[c]])"

definition jws_decode :: "ustr \<Rightarrow> ustr \<Rightarrow> ustr \<Rightarrow> (py \<times> py \<times> bytes) res" where
  "jws_decode a b c =
     bnd (bnd (b64url a) json_loads_bytes) (\<lambda>head.
     bnd (bnd (b64url b) json_loads_bytes) (\<lambda>payload.
     bnd (b64url c) (\<lambda>raw. Inr (head, payload, raw))))"

definition jws_recovered :: "ustr \<Rightarrow> ustr \<Rightarrow> bytes \<Rightarrow> ustr \<Rightarrow> bool res" where
  "jws_recovered a b raw expected =
     bnd (utf8 (a @ [46] @ b)) (\<lambda>m.
     let digest = sha256 m; r = int_of_be (take 32 raw); s = int_of_be (drop 32 raw) in
     bnd (recover_address digest r s 0) (\<lambda>a0.
     bnd (recover_address digest r s 1) (\<lambda>a1. Inr (Some expected \<in> {a0, a1}))))"

definition check_jws_parts :: "ucd \<Rightarrow> py \<Rightarrow> ustr \<Rightarrow> ustr \<Rightarrow> ustr \<Rightarrow> rc_verdict res" where
  "check_jws_parts u authorized a b c =
     (case jws_decode a b c of
        Inl e \<Rightarrow> if is_value_error e then Inr (Inl SignatureEncoding) else Inl e
      | Inr (head, payload, raw) \<Rightarrow>
          bnd (py_get head ''alg'') (\<lambda>alg.
          bnd (py_get head ''kid'') (\<lambda>kid.
          if \<not> py_eq alg (S ''ES256K'') \<or> \<not> truthy kid \<or> length raw \<noteq> 64 then Inr (Inl UnsupportedAlg)
          else
            bnd (py_get payload ''version'') (\<lambda>version.
            if \<not> known_version version then Inr (Inl UnsupportedVersion)
            else
              bnd (bnd (py_get_default authorized ''jws'' (PyDict [])) (\<lambda>ks. py_get_key ks kid)) (\<lambda>expected.
              if expected = PyNone then Inr (Inl KidUnresolved)
              else
                bnd (bnd (as_str AttributeError expected) (\<lambda>s. Inr (u_lower u s))) (\<lambda>e.
                bnd (jws_recovered a b raw e) (\<lambda>ok.
                  Inr (if ok then Inr (e, payload) else Inl RcSignatureInvalid))))))))"

definition check_receipt :: "ucd \<Rightarrow> pydict \<Rightarrow> py \<Rightarrow> rc_verdict res" where
  "check_receipt u receipt authorized =
     (let fmt = dget receipt ''format'' in
      if py_eq fmt (S ''eip712'') then check_eip712 u receipt authorized
      else if py_eq fmt (S ''jws'') then
        if has_key receipt ''payload'' then Inr (Inl JwsPayloadDuplicated)
        else
          bnd (as_str AttributeError (dget_default receipt ''signature'' (PyStr []))) (\<lambda>s.
          case split_dots s of
            [a, b, c] \<Rightarrow> check_jws_parts u authorized a b c
          | _ \<Rightarrow> Inr (Inl SignatureEncoding))
      else Inr (Inl UnsupportedFormat))"

section \<open>The link\<close>

definition domain_tag :: bytes where
  "domain_tag = utf8_total (U ''x402-receipt-authorization/0'')"

definition hex_bytes :: "py \<Rightarrow> nat \<Rightarrow> bytes option" where
  "hex_bytes v n =
     (case v of
        PyStr s \<Rightarrow>
          if (startswith s (U ''0x'') \<or> startswith s (U ''0X'')) \<and> length s = 2 + 2 * n
          then (case fromhex (drop 2 s) of Inl _ \<Rightarrow> None | Inr b \<Rightarrow> Some b) else None
      | _ \<Rightarrow> None)"

definition commit_pre :: "bytes \<Rightarrow> bytes \<Rightarrow> bytes \<Rightarrow> bytes \<Rightarrow> bytes \<Rightarrow> bytes" where
  "commit_pre meth asset authorizer identifier salt = domain_tag @ [0] @ meth @ [0] @ asset @ authorizer @ identifier @ salt"

definition commitment :: "ustr \<Rightarrow> bytes \<Rightarrow> bytes \<Rightarrow> bytes \<Rightarrow> bytes \<Rightarrow> ustr res" where
  "commitment meth asset authorizer identifier salt =
     bnd (ascii_encode meth) (\<lambda>m. Inr (hex0x (sha256 (commit_pre m asset authorizer identifier salt))))"

datatype link_detail =
    NoCommitment | OneOfMethodAndCommitment | UnsupportedMethod | CommitmentEncoding | SaltNotHeld | AssetNotHeld | PayerNotAuthorizer
  | CandidatesUnobtainable | Matches nat

datatype link_result =
    NotAttempted link_detail | LinkMalformed link_detail | Incomplete link_detail | NoMatch link_detail
  | Inconsistent py py | Linked py py

text \<open>Whether a candidate's nonce opens the commitment.\<close>

definition opens_with :: "ucd \<Rightarrow> ustr \<Rightarrow> bytes \<Rightarrow> bytes \<Rightarrow> bytes \<Rightarrow> ustr \<Rightarrow> py \<Rightarrow> bool res" where
  "opens_with u meth asset authorizer salt commit c =
     bnd (py_get c ''nonce'') (\<lambda>n.
     case hex_bytes n 32 of
       None \<Rightarrow> Inr False
     | Some nonce \<Rightarrow> bnd (commitment meth asset authorizer nonce salt) (\<lambda>h. Inr (h = u_lower u commit)))"

definition link_match :: "ucd \<Rightarrow> pydict \<Rightarrow> py \<Rightarrow> link_result res" where
  "link_match u payload m =
     (let tx = py_or (dget_default payload ''transaction'' (PyStr [])) (PyStr []) in
      bnd (if truthy tx
           then bnd (as_str AttributeError tx) (\<lambda>t.
                bnd (bnd (py_item m ''tx'') (as_str AttributeError)) (\<lambda>s. Inr (u_lower u t \<noteq> u_lower u s)))
           else Inr False) (\<lambda>differs.
      bnd (py_item m ''nonce'') (\<lambda>nonce.
      bnd (py_item m ''tx'') (\<lambda>t. Inr (if differs then Inconsistent nonce t else Linked nonce t)))))"

definition link_candidates :: "ucd \<Rightarrow> pydict \<Rightarrow> ustr \<Rightarrow> ustr \<Rightarrow> bytes \<Rightarrow> bytes \<Rightarrow> bytes \<Rightarrow> py \<Rightarrow> link_result res" where
  "link_candidates u payload meth commit asset authorizer salt candidates =
     bnd (py_iter candidates) (\<lambda>cs.
     bnd (filter_r (opens_with u meth asset authorizer salt commit) cs) (\<lambda>ms.
     case ms of
       [m] \<Rightarrow> link_match u payload m
     | _ \<Rightarrow> Inr (NoMatch (Matches (length ms)))))"

definition link :: "ucd \<Rightarrow> pydict \<Rightarrow> py \<Rightarrow> py \<Rightarrow> py \<Rightarrow> link_result res" where
  "link u payload salt asset candidates =
     (if \<not> py_eq (dget payload ''version'') (PyInt 2) then Inr (NotAttempted NoCommitment)
      else
        let meth = py_or (dget_default payload ''authorizationMethod'' (PyStr [])) (PyStr []);
            commit = py_or (dget_default payload ''authorizationCommitment'' (PyStr [])) (PyStr [])
        in if (meth = PyStr []) \<noteq> (commit = PyStr []) then Inr (LinkMalformed OneOfMethodAndCommitment)
           else if meth = PyStr [] then Inr (NotAttempted NoCommitment)
           else if \<not> hashable meth then Inl TypeError
           else if meth \<noteq> S ''eip3009'' then Inr (NotAttempted UnsupportedMethod)
           else
             (case (commit, hex_bytes commit 32) of
                (PyStr ct, Some _) \<Rightarrow>
                  (case (hex_bytes salt 32, hex_bytes asset 20, hex_bytes (dget payload ''payer'') 20) of
                     (None, _, _) \<Rightarrow> Inr (NotAttempted SaltNotHeld)
                   | (_, None, _) \<Rightarrow> Inr (NotAttempted AssetNotHeld)
                   | (_, _, None) \<Rightarrow> Inr (NotAttempted PayerNotAuthorizer)
                   | (Some sb, Some ab, Some auth) \<Rightarrow>
                       if candidates = PyNone then Inr (Incomplete CandidatesUnobtainable)
                       else link_candidates u payload (U ''eip3009'') ct ab auth sb candidates)
              | _ \<Rightarrow> Inr (LinkMalformed CommitmentEncoding)))"

text \<open>\<^verbatim>\<open>evaluate\<close>: a receipt that is rejected gets no link result.\<close>

datatype rc_outcome = Rejected rc_reason | Accepted ustr link_result

definition rc_candidates :: "py \<Rightarrow> pydict \<Rightarrow> py res" where
  "rc_candidates cands snapshot =
     (if py_eq cands (S ''snapshot'') then py_item (PyDict snapshot) ''candidates''
      else Inr (case cands of PyDict d \<Rightarrow> if py_eq (dget d ''status'') (S ''unobtainable'') then PyNone else cands | _ \<Rightarrow> cands))"

definition rc_evaluate :: "ucd \<Rightarrow> pydict \<Rightarrow> pydict \<Rightarrow> rc_outcome res" where
  "rc_evaluate u vec snapshot =
     bnd (py_item (PyDict vec) ''receipt'') (\<lambda>rv.
     case rv of
       PyDict receipt \<Rightarrow>
         bnd (check_receipt u receipt (dget_default vec ''authorized_signers'' (PyDict []))) (\<lambda>r.
         case r of
           Inl reason \<Rightarrow> Inr (Rejected reason)
         | Inr (signer, payload) \<Rightarrow>
             bnd (rc_candidates (dget vec ''candidates'') snapshot) (\<lambda>cands.
             bnd (py_get (dget_default vec ''held'' (PyDict [])) ''salt'') (\<lambda>salt.
             bnd (py_get (dget_default vec ''held'' (PyDict [])) ''asset'') (\<lambda>asset.
             case payload of
               PyDict p \<Rightarrow> bnd (link u p salt asset cands) (\<lambda>l. Inr (Accepted signer l))
             | _ \<Rightarrow> Inl AttributeError))))
     | _ \<Rightarrow> Inl AttributeError)"

section \<open>Inverses\<close>

lemma inv_loop_spec:
  assumes "0 \<le> b" "0 \<le> a" "\<exists>k. a = s * x + k * m" "\<exists>k. b = t * x + k * m"
  shows "fst (inv_loop a b s t) = gcd a b \<and> (\<exists>k. fst (inv_loop a b s t) = snd (inv_loop a b s t) * x + k * m)"
  using assms
proof (induction a b s t rule: inv_loop.induct)
  case (1 a b s t)
  show ?case
  proof (cases "b \<le> 0")
    case True
    then show ?thesis using "1.prems" by (subst (1 2 3) inv_loop.simps) (auto simp: gcd_0_int)
  next
    case False
    obtain k1 k2 where k: "a = s * x + k1 * m" "b = t * x + k2 * m" using "1.prems" by blast
    define q where "q = a div b"
    have "a - q * b = (s - q * t) * x + (k1 - q * k2) * m" by (subst k(1), subst k(2)) (simp add: algebra_simps)
    then have "a mod b = (s - (a div b) * t) * x + (k1 - (a div b) * k2) * m" by (simp add: q_def minus_div_mult_eq_mod)
    then have "\<exists>k. a mod b = (s - (a div b) * t) * x + k * m" by blast
    moreover have "0 \<le> a mod b" "0 \<le> b" using False by auto
    ultimately have ih: "fst (inv_loop b (a mod b) t (s - (a div b) * t)) = gcd b (a mod b) \<and>
      (\<exists>k. fst (inv_loop b (a mod b) t (s - (a div b) * t)) = snd (inv_loop b (a mod b) t (s - (a div b) * t)) * x + k * m)"
      using "1.IH" [OF False _ _ "1.prems"(4)] by blast
    have g: "gcd a b = gcd b (a mod b)" by (rule gcd_red_int)
    have e: "inv_loop a b s t = inv_loop b (a mod b) t (s - (a div b) * t)" using False by (subst inv_loop.simps) simp
    show ?thesis unfolding e g by (rule ih)
  qed
qed

lemma inv_mod_value:
  assumes "0 < m"
  shows "(case inv_mod a m of Inr x \<Rightarrow> coprime a m \<and> 0 \<le> x \<and> x < m \<and> a * x mod m = 1 mod m | Inl e \<Rightarrow> e = ValueError \<and> \<not> coprime a m)"
proof -
  obtain g s where g: "inv_loop (a mod m) m 1 0 = (g, s)" by fastforce
  have "\<exists>k. a mod m = 1 * a + k * m" by (metis minus_mult_div_eq_mod mult.commute mult_1 mult_minus_left uminus_add_conv_diff add.commute)
  moreover have "\<exists>k. m = 0 * a + k * m" by (rule exI [of _ 1]) simp
  ultimately have s: "g = gcd (a mod m) m" "\<exists>k. g = s * a + k * m"
    using inv_loop_spec [of m "a mod m" 1 a m 0] assms g by auto
  have "coprime a m \<longleftrightarrow> g = 1" using s(1) by (simp add: coprime_iff_gcd_eq_1 gcd.commute gcd_red_int [symmetric])
  moreover have "a * (s mod m) mod m = g mod m" using s(2) by (auto simp: mod_mult_right_eq mult.commute)
  ultimately show ?thesis using g assms by (simp add: inv_mod_def)
qed

section \<open>The link is to one payment\<close>

text \<open>What it takes for a receipt to be linked: a version 2 payload with a commitment under the implemented method, the opening held, exactly
  one candidate whose nonce opens the commitment, and a stated transaction, if there is one, that is that candidate's.\<close>

definition link_held :: "pydict \<Rightarrow> py \<Rightarrow> py \<Rightarrow> ustr \<Rightarrow> bytes \<Rightarrow> bytes \<Rightarrow> bytes \<Rightarrow> bool" where
  "link_held payload salt asset ct ab auth sb \<longleftrightarrow>
     py_eq (dget payload ''version'') (PyInt 2) \<and> dget payload ''authorizationMethod'' = S ''eip3009'' \<and>
     dget payload ''authorizationCommitment'' = PyStr ct \<and> hex_bytes (PyStr ct) 32 \<noteq> None \<and>
     hex_bytes salt 32 = Some sb \<and> hex_bytes asset 20 = Some ab \<and> hex_bytes (dget payload ''payer'') 20 = Some auth"

definition same_transaction :: "ucd \<Rightarrow> pydict \<Rightarrow> py \<Rightarrow> bool" where
  "same_transaction u payload t \<longleftrightarrow>
     \<not> truthy (dget payload ''transaction'') \<or>
     (\<exists>a b. dget payload ''transaction'' = PyStr a \<and> t = PyStr b \<and> u_lower u a = u_lower u b)"

lemma truthy_default: "truthy (dget_default d k (PyStr [])) = truthy (dget d k)"
  by (auto simp: dget_def dget_default_def split: option.splits)

lemma py_or_default: "py_or (dget_default d k (PyStr [])) (PyStr []) = (if truthy (dget d k) then dget d k else PyStr [])"
  by (auto simp: dget_def dget_default_def py_or_def split: option.splits)

lemma link_match_linked:
  "link_match u payload m = Inr (Linked n t) \<longleftrightarrow> py_item m ''nonce'' = Inr n \<and> py_item m ''tx'' = Inr t \<and> same_transaction u payload t"
  unfolding link_match_def same_transaction_def Let_def py_or_default by auto

lemma link_candidates_linked:
  "link_candidates u payload meth ct ab auth sb cands = Inr (Linked n t) \<longleftrightarrow>
     (\<exists>cs m. py_iter cands = Inr cs \<and> filter_r (opens_with u meth ab auth sb ct) cs = Inr [m] \<and>
        py_item m ''nonce'' = Inr n \<and> py_item m ''tx'' = Inr t \<and> same_transaction u payload t)"
proof (cases "py_iter cands")
  case (Inr cs)
  show ?thesis
  proof (cases "filter_r (opens_with u meth ab auth sb ct) cs")
    case (Inr ms)
    consider "ms = []" | m where "ms = [m]" | a b ys where "ms = a # b # ys" by (metis neq_Nil_conv)
    then show ?thesis
      using \<open>py_iter cands = Inr cs\<close> Inr by cases (simp_all add: link_candidates_def link_match_linked)
  qed (use Inr in \<open>simp add: link_candidates_def\<close>)
qed (simp add: link_candidates_def)

lemma hex_bytes_nonempty: "hex_bytes (PyStr s) 32 \<noteq> None \<Longrightarrow> s \<noteq> []"
  by (auto simp: hex_bytes_def)

text \<open>C18. A receipt is linked to a payment exactly when it commits to one: the payload is a version 2 payload with the implemented method, the
  verifier holds an opening, exactly one candidate's nonce opens the commitment, the nonce and transaction reported are that
  candidate's, and a transaction the receipt states is the same one.\<close>

theorem link_linked:
  "link u payload salt asset cands = Inr (Linked n t) \<longleftrightarrow>
     (\<exists>ct ab auth sb cs m. link_held payload salt asset ct ab auth sb \<and> cands \<noteq> PyNone \<and> py_iter cands = Inr cs \<and>
        filter_r (opens_with u (U ''eip3009'') ab auth sb ct) cs = Inr [m] \<and>
        py_item m ''nonce'' = Inr n \<and> py_item m ''tx'' = Inr t \<and> same_transaction u payload t)"
  (is "?l \<longleftrightarrow> ?r")
proof -
  let ?m = "py_or (dget_default payload ''authorizationMethod'' (PyStr [])) (PyStr [])"
  let ?c = "py_or (dget_default payload ''authorizationCommitment'' (PyStr [])) (PyStr [])"
  have mc: "?m = S ''eip3009'' \<longleftrightarrow> dget payload ''authorizationMethod'' = S ''eip3009''"
    unfolding py_or_default by auto
  have cc: "?c = PyStr ct \<and> hex_bytes ?c 32 \<noteq> None \<longleftrightarrow> dget payload ''authorizationCommitment'' = PyStr ct \<and> hex_bytes (PyStr ct) 32 \<noteq> None" for ct
    unfolding py_or_default using hex_bytes_nonempty [of ct] by auto
  show ?thesis
  proof
    assume ?l
    then obtain ct ab auth sb where h: "py_eq (dget payload ''version'') (PyInt 2)" "?m = S ''eip3009''" "?c = PyStr ct" "hex_bytes ?c 32 \<noteq> None"
      "hex_bytes salt 32 = Some sb" "hex_bytes asset 20 = Some ab" "hex_bytes (dget payload ''payer'') 20 = Some auth" "cands \<noteq> PyNone"
      "link_candidates u payload (U ''eip3009'') ct ab auth sb cands = Inr (Linked n t)"
      unfolding link_def Let_def by (auto split: if_splits py.splits option.splits)
    then have "link_held payload salt asset ct ab auth sb" unfolding link_held_def using mc cc by metis
    with h(8,9) show ?r unfolding link_candidates_linked by blast
  next
    assume ?r
    then obtain ct ab auth sb where h: "link_held payload salt asset ct ab auth sb" "cands \<noteq> PyNone"
      "link_candidates u payload (U ''eip3009'') ct ab auth sb cands = Inr (Linked n t)" unfolding link_candidates_linked by blast
    then have "?m = S ''eip3009''" "?c = PyStr ct" "hex_bytes ?c 32 \<noteq> None" "ct \<noteq> []"
      unfolding link_held_def using mc cc hex_bytes_nonempty by metis+
    with h show ?l unfolding link_def Let_def link_held_def by (auto split: option.splits)
  qed
qed



lemma fromhex_spaces: "fromhex (replicate k 32) = Inr []"
proof (induction k)
  case (Suc k)
  then show ?case by (cases k) (auto simp: hex_space_def)
qed simp



text \<open>The width of a decoded field is not checked: the hexadecimal reader skips white space, so a text of the right length made of spaces
  is read as an empty byte string, for every width.\<close>

lemma hex_bytes_blank:
  "hex_bytes (PyStr (U ''0x'' @ replicate (2 * n) 32)) n = Some []"
  by (simp add: hex_bytes_def startswith_def fromhex_spaces)

end
