(* ===== verification/Sequence.thy ===== *)
theory Sequence
  imports Ed25519 Jcs Merkle Markers
begin

text \<open>
  \<^verbatim>\<open>examples/sequence-integrity-recompute/check_sequence_integrity.py\<close>: a log of composed envelopes under two signed tree heads. The files
  read are a record. The vendored Ed25519 arithmetic is the one of \<^verbatim>\<open>tools/_ed25519.py\<close>, with another decompression and without the rejection
  of small-order points; the vendored canonicaliser is a third one, which refuses what it cannot print.
\<close>

section \<open>Vendored Ed25519\<close>

definition sq_inv :: "int \<Rightarrow> int" where
  "sq_inv x = powmod x (nat (ed_p - 2)) ed_p"

definition recover_x :: "int \<Rightarrow> int \<Rightarrow> int option" where
  "recover_x y sign =
     (if ed_p \<le> y then None
      else
        let x2 = (y * y - 1) * sq_inv (ed_d * y * y + 1) mod ed_p in
        if x2 = 0 then (if sign \<noteq> 0 then None else Some 0)
        else
          let x = powmod x2 (nat ((ed_p + 3) div 8)) ed_p;
              x' = (if (x * x - x2) mod ed_p \<noteq> 0 then x * powmod 2 (nat ((ed_p - 1) div 4)) ed_p mod ed_p else x)
          in if (x' * x' - x2) mod ed_p \<noteq> 0 then None else Some (if x' mod 2 \<noteq> sign then ed_p - x' else x'))"

definition sq_By :: int where
  "sq_By = 4 * sq_inv 5 mod ed_p"

definition sq_B :: "ext_point res" where
  "sq_B = (case recover_x sq_By 0 of None \<Rightarrow> Inl TypeError | Some x \<Rightarrow> Inr (x, sq_By, 1, x * sq_By mod ed_p))"

definition edwards_add :: "ext_point \<Rightarrow> ext_point \<Rightarrow> ext_point" where
  "edwards_add P Q = ed_add P Q"

fun scalarmult_loop :: "ext_point \<Rightarrow> ext_point \<Rightarrow> nat \<Rightarrow> ext_point" where
  "scalarmult_loop Q P e =
     (if e = 0 then Q
      else scalarmult_loop (if odd e then edwards_add Q P else Q) (edwards_add P P) (e div 2))"

declare scalarmult_loop.simps [simp del]

definition scalarmult :: "ext_point \<Rightarrow> nat \<Rightarrow> ext_point" where
  "scalarmult P e = scalarmult_loop (0, 1, 1, 0) P e"

definition point_equal :: "ext_point \<Rightarrow> ext_point \<Rightarrow> bool" where
  "point_equal P Q = ed_eq P Q"

definition decompress :: "bytes \<Rightarrow> ext_point option" where
  "decompress s =
     (if length s \<noteq> 32 then None
      else
        let y = int_of_le s mod 2 ^ 255; sign = uint (drop_bit 7 (s ! 31)) in
        case recover_x y sign of None \<Rightarrow> None | Some x \<Rightarrow> Some (x, y, 1, x * y mod ed_p))"

definition ed25519_verify :: "bytes \<Rightarrow> bytes \<Rightarrow> bytes \<Rightarrow> bool res" where
  "ed25519_verify public_key msg signature =
     (if length public_key \<noteq> 32 \<or> length signature \<noteq> 64 then Inr False
      else
        case (decompress public_key, decompress (take 32 signature)) of
          (Some A, Some R) \<Rightarrow>
            (let s = int_of_le (drop 32 signature) in
             if ed_L \<le> s then Inr False
             else
               let h = int_of_le (sha512 (take 32 signature @ public_key @ msg)) mod ed_L in
               bnd sq_B (\<lambda>B. Inr (point_equal (scalarmult B (nat s)) (edwards_add R (scalarmult A (nat h))))))
        | _ \<Rightarrow> Inr False)"

section \<open>Vendored canonical JSON\<close>

definition seq_string :: "ustr \<Rightarrow> ustr" where
  "seq_string s = [34] @ concat (map js_char s) @ [34]"

definition seq_float :: "pyfloat \<Rightarrow> ustr res" where
  "seq_float f =
     (case f of
        FFin s m e \<Rightarrow>
          (let n = (if 0 \<le> e then int m * 2 ^ nat e else int m div 2 ^ nat (- e));
               whole = (0 \<le> e \<or> m mod 2 ^ nat (- e) = 0)
           in if whole \<and> n < 10 ^ 21 then Inr (int_dec (if s then - n else n))
              else
                let r = float_repr f in if 101 \<in> set r \<or> 69 \<in> set r then Inl AssertionError else Inr r)
      | _ \<Rightarrow> Inl ValueError)"

fun seq_jcs :: "py \<Rightarrow> ustr res" where
  "seq_jcs PyNone = Inr (U ''null'')"
| "seq_jcs (PyBool b) = Inr (if b then U ''true'' else U ''false'')"
| "seq_jcs (PyStr s) = Inr (seq_string s)"
| "seq_jcs (PyInt i) = Inr (int_dec i)"
| "seq_jcs (PyFloat f) = seq_float f"
| "seq_jcs (PyList xs) = bnd (map_r seq_jcs xs) (\<lambda>ts. Inr ([91] @ join [44] ts @ [93]))"
| "seq_jcs (PyDict d) =
     bnd (map_r (\<lambda>kr. bnd (utf16_be (fst kr)) (\<lambda>b. Inr (b, kr))) (map (\<lambda>kv. (fst kv, seq_jcs (snd kv))) d)) (\<lambda>keyed.
     bnd (map_r (\<lambda>x. bnd (snd (snd x)) (\<lambda>t. Inr (seq_string (fst (snd x)) @ [58] @ t))) (sort_key fst keyed)) (\<lambda>ps.
       Inr ([123] @ join [44] ps @ [125])))"

definition seq_bytes :: "py \<Rightarrow> bytes res" where
  "seq_bytes v = bnd (seq_jcs v) utf8"

section \<open>The log\<close>

definition b64u_d :: "py \<Rightarrow> bytes res" where
  "b64u_d v = bnd (as_str TypeError v) b64url"

definition seq_leaf :: "bytes \<Rightarrow> bytes" where
  "seq_leaf b = 0 # b"

definition seq_node :: "bytes \<Rightarrow> bytes \<Rightarrow> bytes" where
  "seq_node l r = 1 # l @ r"

definition leaf_hash :: "bytes \<Rightarrow> bytes" where
  "leaf_hash b = sha256 (seq_leaf b)"

definition node_hash :: "bytes \<Rightarrow> bytes \<Rightarrow> bytes" where
  "node_hash l r = sha256 (seq_node l r)"

text \<open>One pass of \<^verbatim>\<open>build_root\<close>: neighbours by index, the odd node appended; the loop ends with one node, or at once with none.\<close>

definition build_level :: "bytes list \<Rightarrow> bytes list" where
  "build_level cur =
     map (\<lambda>i. node_hash (cur ! (2 * i)) (cur ! (2 * i + 1))) [0..<length cur div 2] @ (if odd (length cur) then [last cur] else [])"

lemma length_build_level: "length (build_level cur) = (length cur + 1) div 2"
  by (auto simp: build_level_def)

function build_loop :: "bytes list \<Rightarrow> bytes list" where
  "build_loop cur = (if 1 < length cur then build_loop (build_level cur) else cur)"
  by pat_completeness auto
termination
  by (relation "measure length") (auto simp: length_build_level)

declare build_loop.simps [simp del]

definition build_root :: "bytes list \<Rightarrow> bytes res" where
  "build_root leaves = (case build_loop leaves of h # _ \<Rightarrow> Inr h | [] \<Rightarrow> Inl IndexError)"

type_synonym keyring = "(py \<times> bytes) list"

definition load_key :: "py \<Rightarrow> (py \<times> bytes) res" where
  "load_key k =
     bnd (and_r (bnd (py_item k ''kty'') (\<lambda>v. Inr (py_eq v (S ''OKP'')))) (bnd (py_item k ''crv'') (\<lambda>v. Inr (py_eq v (S ''Ed25519''))))) (\<lambda>ok.
     if \<not> ok then Inl AssertionError
     else
       bnd (bnd (py_item k ''x'') b64u_d) (\<lambda>x.
       bnd (py_item k ''kid'') (\<lambda>kid. if hashable kid then Inr (kid, x) else Inl TypeError)))"

definition load_jwks :: "py \<Rightarrow> keyring res" where
  "load_jwks v = bnd (bnd (py_item v ''keys'') py_iter) (map_r load_key)"

definition ring_get :: "keyring \<Rightarrow> py \<Rightarrow> bytes option res" where
  "ring_get ring kid = (if hashable kid then Inr (map_option snd (List.find (\<lambda>kv. py_eq kid (fst kv)) (rev ring))) else Inl TypeError)"

definition envelope_leg :: "keyring \<Rightarrow> py \<Rightarrow> py \<Rightarrow> bool res" where
  "envelope_leg ring env s =
     bnd (py_item s ''protected'') (\<lambda>pv.
     bnd (bnd (b64u_d pv) json_loads_bytes) (\<lambda>prot.
     bnd (py_get prot ''kid'') (\<lambda>kid.
     bnd (bnd (py_item env ''payload'') (as_str TypeError)) (\<lambda>payload.
     bnd (as_str TypeError pv) (\<lambda>p.
     bnd (ascii_encode (p @ [46] @ payload)) (\<lambda>si.
     bnd (py_get prot ''alg'') (\<lambda>alg.
     if \<not> py_eq alg (S ''EdDSA'') then Inr False
     else
       bnd (ring_get ring kid) (\<lambda>k.
       case k of
         None \<Rightarrow> Inr False
       | Some key \<Rightarrow> bnd (bnd (py_item s ''signature'') b64u_d) (ed25519_verify key si)))))))))"

definition verify_log_envelope :: "keyring \<Rightarrow> py \<Rightarrow> (bool \<times> ustr) res" where
  "verify_log_envelope ring env =
     bnd (bnd (py_item env ''payload'') b64u_d) (\<lambda>pb.
     bnd (bnd (utf8_decode False pb) json_loads) (\<lambda>obj.
     bnd (seq_bytes obj) (\<lambda>canon.
     bnd (bnd (py_item env ''signatures'') py_iter) (\<lambda>sigs.
     bnd (map_r (envelope_leg ring env) sigs) (\<lambda>oks.
       Inr (canon = pb \<and> list_all id oks, hex_of (sha256 pb)))))))"

definition verify_sth :: "py \<Rightarrow> keyring \<Rightarrow> bool res" where
  "verify_sth sth ring =
     bnd (bnd (py_item sth ''payload'') seq_bytes) (\<lambda>pb.
     bnd (bnd (py_item sth ''kid'') (ring_get ring)) (\<lambda>k.
     case k of
       None \<Rightarrow> Inr False
     | Some key \<Rightarrow> bnd (bnd (py_item sth ''signature'') b64u_d) (ed25519_verify key pb)))"

text \<open>A step of an inclusion proof: whether the sibling is on the right, and the sibling.\<close>

definition proof_step :: "py \<Rightarrow> (bool \<times> bytes) res" where
  "proof_step st =
     bnd (bnd (bnd (py_item st ''sibling'') (as_str TypeError)) fromhex) (\<lambda>sib.
     bnd (py_item st ''position'') (\<lambda>pos. Inr (py_eq pos (S ''right''), sib)))"

fun apply_steps :: "bytes \<Rightarrow> py list \<Rightarrow> bytes res" where
  "apply_steps h [] = Inr h"
| "apply_steps h (st # sts) = bnd (proof_step st) (\<lambda>(right, sib). apply_steps (if right then node_hash h sib else node_hash sib h) sts)"

definition apply_inclusion :: "bytes \<Rightarrow> py \<Rightarrow> bytes res" where
  "apply_inclusion lh p = bnd (py_iter p) (apply_steps lh)"

section \<open>The run\<close>

record seq_files =
  sf_jwks :: "py list"
  sf_log_jwks :: py
  sf_sth1 :: py
  sf_sth2 :: py
  sf_proofs :: "(ustr \<times> py) list"
  sf_entry :: "nat \<Rightarrow> py option"

definition entry_ok :: "seq_files \<Rightarrow> keyring \<Rightarrow> nat \<times> py \<Rightarrow> bool res" where
  "entry_ok fs ring nlp =
     (case sf_entry fs (fst nlp) of
        None \<Rightarrow> Inr True
      | Some env \<Rightarrow>
          bnd (verify_log_envelope ring env) (\<lambda>(ok, h).
          bnd (py_item (snd nlp) ''envelope_hash'') (\<lambda>v. Inr (ok \<and> py_eq v (PyStr (U ''sha256-'' @ h))))))"

definition leaf_of :: "py \<Rightarrow> bytes res" where
  "leaf_of lp = bnd (seq_bytes lp) (\<lambda>b. Inr (leaf_hash b))"

text \<open>\<^verbatim>\<open>leaves[:n]\<close> for an integer; a negative one counts from the end.\<close>

definition py_take :: "'a list \<Rightarrow> py \<Rightarrow> 'a list res" where
  "py_take xs n =
     (case n of
        PyInt i \<Rightarrow> Inr (take (nat (if i < 0 then i + int (length xs) else i)) xs)
      | PyBool b \<Rightarrow> Inr (take (of_bool b) xs)
      | _ \<Rightarrow> Inl TypeError)"

definition sth_payload :: "py \<Rightarrow> string \<Rightarrow> py res" where
  "sth_payload sth k = bnd (py_item sth ''payload'') (\<lambda>p. py_item p k)"

definition root_matches :: "bytes list \<Rightarrow> py \<Rightarrow> bool res" where
  "root_matches leaves sth =
     bnd (build_root leaves) (\<lambda>r. bnd (sth_payload sth ''root_hash'') (\<lambda>h. Inr (py_eq (PyStr (hex_of r)) h)))"

definition first_head_ok :: "bytes list \<Rightarrow> py \<Rightarrow> bool res" where
  "first_head_ok leaves sth =
     bnd (sth_payload sth ''tree_size'') (\<lambda>n.
     bnd (py_ge (PyInt (int (length leaves))) n) (\<lambda>big.
     if big then bnd (py_take leaves n) (\<lambda>p. root_matches p sth) else Inr False))"

definition second_head_ok :: "bytes list \<Rightarrow> py \<Rightarrow> bool res" where
  "second_head_ok leaves sth =
     bnd (sth_payload sth ''tree_size'') (\<lambda>n.
     if py_eq (PyInt (int (length leaves))) n then root_matches leaves sth else Inr False)"

text \<open>The inclusion proofs, a dictionary of the file, in the order of their numbers.\<close>

definition proof_ok :: "bytes list \<Rightarrow> py \<Rightarrow> int \<times> py \<Rightarrow> bool res" where
  "proof_ok leaves sth2 kp =
     (let i = fst kp - 1; n = int (length leaves) in
      if n \<le> i then Inr False
      else if i < - n then Inl IndexError
      else
        bnd (apply_inclusion (leaves ! nat (if i < 0 then i + n else i)) (snd kp)) (\<lambda>r.
        bnd (sth_payload sth2 ''root_hash'') (\<lambda>h. Inr (py_eq (PyStr (hex_of r)) h))))"

definition proofs_ok :: "ucd \<Rightarrow> bytes list \<Rightarrow> seq_files \<Rightarrow> bool res" where
  "proofs_ok u leaves fs =
     bnd (map_r (\<lambda>ip. bnd (int_of_str u (fst ip)) (\<lambda>k. Inr (k, snd ip))) (sf_proofs fs)) (\<lambda>ks.
     bnd (map_r (proof_ok leaves (sf_sth2 fs)) (sort_key fst ks)) (\<lambda>oks. Inr (list_all id oks)))"

text \<open>The \<^verbatim>\<open>%d\<close> of the printed lines.\<close>

fun printed_d :: "py \<Rightarrow> unit res" where
  "printed_d (PyInt _) = Inr ()"
| "printed_d (PyBool _) = Inr ()"
| "printed_d (PyFloat (FFin _ _ _)) = Inr ()"
| "printed_d (PyFloat FNan) = Inl ValueError"
| "printed_d (PyFloat _) = Inl OverflowError"
| "printed_d _ = Inl TypeError"

definition sizes_printed :: "seq_files \<Rightarrow> unit res" where
  "sizes_printed fs =
     bnd (bnd (sth_payload (sf_sth1 fs) ''tree_size'') printed_d) (\<lambda>_. bnd (sth_payload (sf_sth2 fs) ''tree_size'') printed_d)"

text \<open>\<^verbatim>\<open>run\<close> up to its assertion: the verdict.\<close>

definition seq_verdict :: "ucd \<Rightarrow> seq_files \<Rightarrow> py list \<Rightarrow> bool res" where
  "seq_verdict u fs leaf_payloads =
     bnd (map_r load_jwks (sf_jwks fs)) (\<lambda>rings.
     bnd (load_jwks (sf_log_jwks fs)) (\<lambda>log_keys.
     bnd (map_r (\<lambda>nlp. bnd (entry_ok fs (concat rings) nlp) (\<lambda>ok. bnd (leaf_of (snd nlp)) (\<lambda>l. Inr (ok, l)))) (enumerate 1 leaf_payloads)) (\<lambda>rows.
     let leaves = map snd rows in
     bnd (verify_sth (sf_sth1 fs) log_keys) (\<lambda>s1.
     bnd (verify_sth (sf_sth2 fs) log_keys) (\<lambda>s2.
     bnd (first_head_ok leaves (sf_sth1 fs)) (\<lambda>r1.
     bnd (second_head_ok leaves (sf_sth2 fs)) (\<lambda>r2.
     bnd (sizes_printed fs) (\<lambda>_.
     bnd (proofs_ok u leaves fs) (\<lambda>inc.
       Inr (list_all fst rows \<and> s1 \<and> s2 \<and> r1 \<and> r2 \<and> inc))))))))))"

definition seq_run :: "ucd \<Rightarrow> seq_files \<Rightarrow> py list \<Rightarrow> bool \<Rightarrow> bool res" where
  "seq_run u fs leaf_payloads expect_fail =
     bnd (seq_verdict u fs leaf_payloads) (\<lambda>v. if v = expect_fail then Inl AssertionError else Inr v)"

text \<open>The script: the log as it is, then with two entries swapped, then with one dropped.\<close>

definition seq_main :: "ucd \<Rightarrow> seq_files \<Rightarrow> py list \<Rightarrow> unit res" where
  "seq_main u fs lp =
     bnd (seq_run u fs lp False) (\<lambda>_.
     if length lp < 3 then Inl IndexError
     else
       bnd (seq_run u fs (lp[1 := lp ! 2, 2 := lp ! 1]) True) (\<lambda>_.
       bnd (seq_run u fs (take 4 lp @ drop 5 lp) True) (\<lambda>_. Inr ())))"

section \<open>The canonical text\<close>

lemma seq_string_jcs: "seq_string s = js_string s"
  by (simp add: seq_string_def js_string_def)

lemma seq_jcs_jcs: "jcs_plain v \<Longrightarrow> seq_jcs v = jcs v"
proof (induction v)
  case (PyInt i)
  then show ?case by (simp add: js_number_def)
next
  case (PyList xs)
  then have "map_r seq_jcs xs = map_r jcs xs" by (intro map_r_cong) (auto simp: list_all_iff)
  then show ?case by simp
next
  case (PyDict d)
  then have "map (\<lambda>kv. (fst kv, seq_jcs (snd kv))) d = map (\<lambda>kv. (fst kv, jcs (snd kv))) d"
    by (auto simp: list_all_iff)
  then show ?case unfolding seq_jcs.simps jcs.simps seq_string_jcs by (simp only:)
qed (simp_all add: seq_string_jcs)

section \<open>The tree\<close>

interpretation seqlog: merkle seq_leaf seq_node "\<lambda>_. True"
  by unfold_locales (auto simp: seq_leaf_def seq_node_def)

lemma build_level_step: "build_level (x # y # xs) = node_hash x y # build_level xs"
proof -
  have "[0..<Suc (length xs div 2)] = 0 # map Suc [0..<length xs div 2]" by (simp add: upt_conv_Cons map_Suc_upt del: upt_Suc)
  moreover have "odd (length xs) \<Longrightarrow> xs \<noteq> []" by auto
  ultimately show ?thesis by (simp add: build_level_def o_def del: upt_Suc)
qed

lemma build_level_join: "build_level cur = join_level node_hash cur"
  by (induction node_hash cur rule: join_level.induct) (simp_all add: build_level_step, simp_all add: build_level_def)

lemma build_loop_join: "build_loop cur = join_loop node_hash cur"
  by (induction cur rule: build_loop.induct) (simp add: build_loop.simps join_loop.simps build_level_join)

lemma map_leaf_hash: "map leaf_hash bs = map (\<lambda>b. sha256 (seq_leaf b)) bs"
  by (simp add: leaf_hash_def)

lemma node_hash_eta: "(\<lambda>l r. sha256 (seq_node l r)) = node_hash"
  by (simp add: fun_eq_iff node_hash_def)

lemma join_loop_nonempty: "xs \<noteq> [] \<Longrightarrow> join_loop f xs \<noteq> []"
proof (induction f xs rule: join_loop.induct)
  case (1 f xs)
  then show ?case using length_join_level [of f xs] by (subst join_loop.simps) (auto simp flip: length_greater_0_conv)
qed

lemma build_root_merkle: "build_root (map leaf_hash bs) = (if bs = [] then Inl IndexError else Inr (merkle_root seq_leaf seq_node bs))"
proof (cases "bs = []")
  case True
  then show ?thesis by (simp add: build_root_def build_loop.simps)
next
  case False
  then have "join_loop node_hash (map leaf_hash bs) \<noteq> []" by (simp add: join_loop_nonempty)
  then obtain h t where "join_loop node_hash (map leaf_hash bs) = h # t" by (cases "join_loop node_hash (map leaf_hash bs)") auto
  then show ?thesis
    using False by (simp add: build_root_def build_loop_join merkle_root_def node_hash_eta map_leaf_hash)
qed

lemma root_matches_leaves:
  "root_matches (map leaf_hash bs) sth = Inr True \<longleftrightarrow>
   bs \<noteq> [] \<and> (\<exists>h. sth_payload sth ''root_hash'' = Inr h \<and> py_eq (PyStr (hex_of (merkle_root seq_leaf seq_node bs))) h)"
  by (auto simp: root_matches_def build_root_merkle)

text \<open>Two logs whose leaves recompute to one head are the same log, in the same order.\<close>

lemma root_matches_binds:
  assumes "root_matches (map leaf_hash bs) sth = Inr True" "root_matches (map leaf_hash bs') sth = Inr True"
  shows "bs = bs' \<or> (\<exists>a \<in> root_inputs seq_leaf seq_node bs. \<exists>b \<in> root_inputs seq_leaf seq_node bs'. collision a b)"
proof -
  have "bs \<noteq> []" "bs' \<noteq> []" "merkle_root seq_leaf seq_node bs = merkle_root seq_leaf seq_node bs'"
    using assms by (auto simp: root_matches_leaves py_eq_Str_left)
  then show ?thesis using seqlog.root_binds by simp
qed

lemma apply_steps_climb:
  assumes "apply_steps h sts = Inr r"
  shows "\<exists>ps. map_r proof_step sts = Inr ps \<and> r = climb seq_node h ps"
  using assms
proof (induction h sts rule: apply_steps.induct)
  case (2 h st sts)
  from 2(2) obtain right sib where s: "proof_step st = Inr (right, sib)"
    "apply_steps (sha256 (step_input seq_node h (right, sib))) sts = Inr r"
    by (auto simp: step_input_def node_hash_def split: if_splits)
  have "(if right then node_hash h sib else node_hash sib h) = sha256 (step_input seq_node h (right, sib))"
    by (simp add: step_input_def node_hash_def)
  with 2(1) [of "(right, sib)" right sib] s obtain ps where "map_r proof_step sts = Inr ps" "r = climb seq_node (sha256 (step_input seq_node h (right, sib))) ps" by auto
  with s(1) show ?case by (intro exI [of _ "(right, sib) # ps"]) simp
qed simp

section \<open>What an accepted log shows\<close>



text \<open>C9. No reordering, no omission: two logs that recompute to the same second head have the same canonical leaves in the same order,
  or two of the inputs hashed for them are a SHA-256 collision.\<close>

theorem head_binds_log:
  assumes "second_head_ok (map leaf_hash bs) sth = Inr True" "second_head_ok (map leaf_hash bs') sth = Inr True"
  shows "bs = bs' \<or> (\<exists>a \<in> root_inputs seq_leaf seq_node bs. \<exists>b \<in> root_inputs seq_leaf seq_node bs'. collision a b)"
proof (rule root_matches_binds)
  show "root_matches (map leaf_hash bs) sth = Inr True" using assms(1) by (auto simp: second_head_ok_def split: if_splits)
  show "root_matches (map leaf_hash bs') sth = Inr True" using assms(2) by (auto simp: second_head_ok_def split: if_splits)
qed

theorem head_binds_log_witness:
  "\<exists>sth. second_head_ok (map leaf_hash [[1], [2]]) sth = Inr True \<and>
    ([[1], [2]] = [[1 :: 8 word], [2]] \<or>
      (\<exists>a \<in> root_inputs seq_leaf seq_node [[1], [2]]. \<exists>b \<in> root_inputs seq_leaf seq_node [[1], [2]]. collision a b))"
proof -
  let ?sth = "PyDict [(U ''payload'', PyDict [(U ''tree_size'', PyInt 2), (U ''root_hash'', PyStr (hex_of (merkle_root seq_leaf seq_node [[1], [2]])))])]"
  have "second_head_ok (map leaf_hash [[1], [2]]) ?sth = Inr True"
    by (simp add: second_head_ok_def root_matches_leaves sth_payload_def del: list.map)
  from this head_binds_log [OF this this] show ?thesis by blast
qed

text \<open>An inclusion proof is sound: one that leads from a leaf to the root the second head names shows that the leaf is an entry of the log,
  or there is a SHA-256 collision between an input of the path and one of the tree.\<close>

lemma inclusion_proves_entry:
  assumes "second_head_ok (map leaf_hash bs) sth = Inr True" "sth_payload sth ''root_hash'' = Inr (PyStr (hex_of r))"
    and "apply_inclusion (leaf_hash b) (PyList sts) = Inr r"
  shows "b \<in> set bs \<or>
    (\<exists>ps. map_r proof_step sts = Inr ps \<and>
      (\<exists>x \<in> insert (seq_leaf b) (path_inputs seq_node (leaf_hash b) ps). \<exists>y \<in> root_inputs seq_leaf seq_node bs. collision x y))"
proof -
  have "root_matches (map leaf_hash bs) sth = Inr True" using assms(1) by (auto simp: second_head_ok_def split: if_splits)
  then have r: "bs \<noteq> []" "r = merkle_root seq_leaf seq_node bs" using assms(2) by (auto simp: root_matches_leaves py_eq_Str_left)
  obtain ps where ps: "map_r proof_step sts = Inr ps" "r = climb seq_node (leaf_hash b) ps"
    using apply_steps_climb [of "leaf_hash b" sts r] assms(3) by (auto simp: apply_inclusion_def py_iter_def)
  have "climb seq_node (sha256 (seq_leaf b)) ps = merkle_root seq_leaf seq_node bs" using ps(2) r(2) by (simp add: leaf_hash_def)
  from seqlog.inclusion_sound [OF r(1) this] ps(1) show ?thesis by (auto simp: leaf_hash_def)
qed

lemma inclusion_proves_entry_instance:
  "\<exists>sth sts r. second_head_ok (map leaf_hash [[1], [2]]) sth = Inr True \<and> apply_inclusion (leaf_hash [1]) (PyList sts) = Inr r \<and>
    ([1] \<in> set [[1 :: 8 word], [2]] \<or>
      (\<exists>ps. map_r proof_step sts = Inr ps \<and>
        (\<exists>x \<in> insert (seq_leaf [1]) (path_inputs seq_node (leaf_hash [1]) ps). \<exists>y \<in> root_inputs seq_leaf seq_node [[1], [2]]. collision x y)))"
proof -
  let ?r = "node_hash (leaf_hash [1]) (leaf_hash [2])"
  let ?sth = "PyDict [(U ''payload'', PyDict [(U ''tree_size'', PyInt 2), (U ''root_hash'', PyStr (hex_of ?r))])]"
  let ?sts = "[PyDict [(U ''sibling'', PyStr (hex_of (leaf_hash [2]))), (U ''position'', S ''right'')]]"
  have 1: "second_head_ok (map leaf_hash [[1], [2]]) ?sth = Inr True"
    by (simp add: second_head_ok_def root_matches_def build_root_def build_loop.simps build_level_join sth_payload_def)
  have 2: "sth_payload ?sth ''root_hash'' = Inr (PyStr (hex_of ?r))" by (simp add: sth_payload_def)
  have 3: "apply_inclusion (leaf_hash [1]) (PyList ?sts) = Inr ?r"
    by (simp add: apply_inclusion_def py_iter_def proof_step_def)
  from 1 3 inclusion_proves_entry [OF 1 2 3] show ?thesis by blast
qed

end
