(* ===== verification/Procedure.thy ===== *)
theory Procedure
  imports Bip340 Report
begin

text \<open>
  \<^verbatim>\<open>examples/procedure-manifest-v003/check.py\<close>: whether a run under a procedure manifest may count as a result. The package is a value read
  from JSON; no rule is switched off (the set \<^verbatim>\<open>DISABLED\<close> of the module is empty). An eligibility term is true, false or cannot be established,
  and every path of \<^verbatim>\<open>evaluate\<close> sets the four of them.
\<close>

datatype tri = TTrue | TFalse | TUnknown

record pm_terms =
  t_authorized :: tri
  t_request :: tri
  t_terminal :: tri
  t_scope :: tri

datatype pm_reason =
    NotClaimed | NoSlot | RequestDiffers | RetryPredicate | NotDerived | NoOrdering | BrokenLog nat | BadCheckpoint
  | DisputeNotLogged | ClaimNotLogged | DisputeAfterClaim | SubmissionOnly | NoValidClaim | ClaimEquivocation
  | TerminalConflict | RetryNotCommitted | RetryAfterTerminal | NoTerminal | ScopeMissing | TerminalUnresolved

record pm_out =
  pm_state :: py
  pm_terms :: pm_terms
  pm_reasons :: "pm_reason list"
  pm_submissions :: "bool list"
  pm_eligible :: bool
  pm_result :: "py option"

text \<open>\<^verbatim>\<open>_finish\<close>: the run is a result, with its output hash, when it is eligible and the hash is there; else it is unresolved.\<close>

definition eligible :: "pm_terms \<Rightarrow> bool" where
  "eligible t = (t_authorized t = TTrue \<and> t_request t = TTrue \<and> t_terminal t = TTrue \<and> t_scope t = TTrue)"

definition finish :: "py \<Rightarrow> pm_terms \<Rightarrow> pm_reason list \<Rightarrow> bool list \<Rightarrow> py \<Rightarrow> pm_out" where
  "finish state terms reasons subs output_hash =
     \<lparr> pm_state = state, pm_terms = terms, pm_reasons = reasons, pm_submissions = subs, pm_eligible = eligible terms,
       pm_result = (if eligible terms \<and> truthy output_hash then Some output_hash else None) \<rparr>"

definition only_authorized :: "tri \<Rightarrow> pm_terms" where
  "only_authorized a = \<lparr> t_authorized = a, t_request = TUnknown, t_terminal = TUnknown, t_scope = TUnknown \<rparr>"

section \<open>Hashes and attestations\<close>

definition pm_canon :: "py \<Rightarrow> bytes res" where
  "pm_canon v = utf8 (dumps_sorted v)"

definition pm_H :: "py \<Rightarrow> ustr res" where
  "pm_H v = bnd (pm_canon v) (\<lambda>b. Inr (sha256_hex b))"

definition pm_sig_ok :: "pydict \<Rightarrow> py \<Rightarrow> bool" where
  "pm_sig_ok rec pubkey =
     try_default
       (bnd (pm_canon (PyDict (filter (\<lambda>kv. fst kv \<noteq> U ''attestation'') rec))) (\<lambda>b.
        bnd (py_fromhex pubkey) (\<lambda>k.
        bnd (bnd (py_item (PyDict rec) ''attestation'') py_fromhex) (\<lambda>s. Inr (schnorr_verify (sha256 b) k s))))) False"

definition commitment_ok :: "py \<Rightarrow> bool" where
  "commitment_ok c =
     try_default
       (bnd (map_r (\<lambda>k. bnd (py_item c k) (\<lambda>v. Inr (U k, v)))
              [''type'', ''version'', ''request_digest'', ''attempt_id'', ''sent_at'', ''requester_pubkey'']) (\<lambda>body.
        bnd (py_get c ''type'') (\<lambda>t.
        if \<not> py_eq t (S ''submission_commitment'') then Inr False
        else
          bnd (pm_canon (PyDict body)) (\<lambda>b.
          bnd (bnd (py_item c ''requester_pubkey'') py_fromhex) (\<lambda>k.
          bnd (bnd (py_item c ''sig'') py_fromhex) (\<lambda>s. Inr (schnorr_verify (sha256 b) k s))))))) False"

definition admission_receipt_recomputes :: "py \<Rightarrow> bool res" where
  "admission_receipt_recomputes r =
     bnd (py_item r ''admission_index'') (\<lambda>ai.
     bnd (py_item r ''accepted_at'') (\<lambda>aa.
     bnd (py_item r ''artifact_hash'') (\<lambda>ah.
     bnd (py_item r ''prev_receipt_hash'') (\<lambda>pr.
     bnd (py_get r ''submission_commitment_ref'') (\<lambda>scr.
     bnd (pm_H (PyDict ([(U ''admission_index'', ai), (U ''accepted_at'', aa), (U ''request_digest'', ah), (U ''prev_receipt_hash'', pr)] @
                        (if scr \<noteq> PyNone then [(U ''submission_commitment_ref'', scr)] else [])))) (\<lambda>h.
     bnd (py_get r ''receipt_hash'') (\<lambda>rh. Inr (py_eq (PyStr h) rh))))))))"

section \<open>The ordering log\<close>

definition zero_hash :: ustr where
  "zero_hash = replicate 64 48"

definition claim_core :: "pydict \<Rightarrow> py" where
  "claim_core c = PyDict [(U ''run_id'', dget c ''run_id''), (U ''attempt_id'', dget c ''attempt_id''), (U ''request_hash'', dget c ''request_hash'')]"

definition log_entry_hash :: "pydict \<Rightarrow> ustr res" where
  "log_entry_hash e = pm_H (PyDict (map (\<lambda>k. (U k, dget e k)) [''seq'', ''kind'', ''ref'', ''prev'']))"

text \<open>The loop over the entries: the index of the first that does not chain, or the head and the entries by their hash, each with its position
  (the guard makes it equal to \<^verbatim>\<open>seq\<close>).\<close>

type_synonym log_index = "(ustr \<times> nat \<times> pydict) list"

fun log_put :: "log_index \<Rightarrow> ustr \<Rightarrow> nat \<times> pydict \<Rightarrow> log_index" where
  "log_put [] k v = [(k, v)]"
| "log_put ((k', v') # d) k v = (if k' = k then (k, v) # d else (k', v') # log_put d k v)"

fun log_loop :: "nat \<Rightarrow> ustr \<Rightarrow> log_index \<Rightarrow> py list \<Rightarrow> (nat + ustr \<times> log_index) res" where
  "log_loop i prev ix [] = Inr (Inr (prev, ix))"
| "log_loop i prev ix (PyDict e # es) =
     (if \<not> py_eq (dget e ''seq'') (PyInt (int i)) \<or> dget e ''prev'' \<noteq> PyStr prev then Inr (Inl i)
      else
        bnd (log_entry_hash e) (\<lambda>h.
        if dget e ''entry_hash'' \<noteq> PyStr h then Inr (Inl i) else log_loop (Suc i) h (log_put ix h (i, e)) es))"
| "log_loop i prev ix (_ # es) = Inl AttributeError"

definition dispute_seqs :: "py \<Rightarrow> log_index \<Rightarrow> nat list res" where
  "dispute_seqs ds ix =
     bnd (filter_r (\<lambda>(h, i, e).
       bnd (py_item (PyDict e) ''kind'') (\<lambda>kind.
       if \<not> py_eq kind (S ''dispute_commitment'') then Inr False
       else bnd (py_item (PyDict e) ''ref'') (\<lambda>r. bnd (pm_H ds) (\<lambda>d. Inr (py_eq r (PyStr d)))))) ix) (\<lambda>xs.
     Inr (map (\<lambda>x. fst (snd x)) xs))"

fun claim_seqs :: "log_index \<Rightarrow> pydict list \<Rightarrow> nat list option res" where
  "claim_seqs ix [] = Inr (Some [])"
| "claim_seqs ix (c # cs) =
     (let p = dget c ''ordering_proof'' in
      if \<not> hashable p then Inl TypeError
      else
        (case (case p of PyStr s \<Rightarrow> map_of ix s | _ \<Rightarrow> None) of
           None \<Rightarrow> Inr None
         | Some (i, e) \<Rightarrow>
             bnd (py_item (PyDict e) ''kind'') (\<lambda>kind.
             if \<not> py_eq kind (S ''claim'') then Inr None
             else
               bnd (py_item (PyDict e) ''ref'') (\<lambda>r.
               bnd (pm_H (claim_core c)) (\<lambda>h.
               if \<not> py_eq r (PyStr h) then Inr None
               else bnd (claim_seqs ix cs) (\<lambda>rest. Inr (map_option (Cons i) rest)))))))"

definition ordering :: "py \<Rightarrow> py \<Rightarrow> py \<Rightarrow> pydict list \<Rightarrow> (tri \<times> pm_reason option) res" where
  "ordering pkg acq ds claims =
     bnd (py_get pkg ''ordering_log'') (\<lambda>log.
     bnd (py_get acq ''ordering_anchor_pubkey'') (\<lambda>anchor.
     if \<not> truthy log \<or> \<not> truthy anchor then Inr (TUnknown, Some NoOrdering)
     else
       bnd (bnd (py_get_default log ''entries'' (PyList [])) py_iter) (\<lambda>entries.
       bnd (log_loop 0 zero_hash [] entries) (\<lambda>walked.
       case walked of
         Inl i \<Rightarrow> Inr (TUnknown, Some (BrokenLog i))
       | Inr (head, ix) \<Rightarrow>
           bnd (py_get log ''checkpoint'') (\<lambda>cp0.
           case py_or cp0 (PyDict []) of
             PyDict cp \<Rightarrow>
               if dget cp ''head'' \<noteq> PyStr head \<or> \<not> py_eq (dget cp ''seq'') (PyInt (int (length entries) - 1)) \<or> \<not> pm_sig_ok cp anchor
               then Inr (TUnknown, Some BadCheckpoint)
               else
                 bnd (dispute_seqs ds ix) (\<lambda>dseq.
                 if dseq = [] then Inr (TUnknown, Some DisputeNotLogged)
                 else
                   bnd (claim_seqs ix claims) (\<lambda>cs.
                   case cs of
                     None \<Rightarrow> Inr (TUnknown, Some ClaimNotLogged)
                   | Some cseq \<Rightarrow>
                       Inr (if cseq \<noteq> [] \<and> Min (set cseq) < Min (set dseq) then (TFalse, Some DisputeAfterClaim) else (TTrue, None))))
           | _ \<Rightarrow> Inl AttributeError)))))"

section \<open>Sets\<close>

text \<open>\<^verbatim>\<open>set(xs)\<close> keeps the first of equal elements; \<^verbatim>\<open>sorted\<close> raises exactly when two of its elements cannot be compared.\<close>

fun first_of_equal :: "py list \<Rightarrow> py list \<Rightarrow> py list" where
  "first_of_equal seen [] = rev seen"
| "first_of_equal seen (x # xs) = first_of_equal (if py_in x seen then seen else x # seen) xs"

definition py_set :: "py \<Rightarrow> py list res" where
  "py_set v = bnd (py_iter v) (\<lambda>xs. if list_all hashable xs then Inr (first_of_equal [] xs) else Inl TypeError)"

fun sorted_py :: "py list \<Rightarrow> unit res" where
  "sorted_py [] = Inr ()"
| "sorted_py (x # xs) = bnd (map_r (py_lt x) xs) (\<lambda>_. sorted_py xs)"

section \<open>The walk over the attempts\<close>

text \<open>What the loop ends with: conflicting terminals, or the chosen claim, terminal and status, whether a retry was not allowed, the state and the
  reasons.\<close>

datatype walk_end = Conflict | Walked "(pydict \<times> pydict \<times> py) option" bool py "pm_reason list"

definition terminals_for :: "py list \<Rightarrow> py \<Rightarrow> pydict \<Rightarrow> pydict list res" where
  "terminals_for terminals prov c =
     bnd (pm_H (PyDict c)) (\<lambda>crh.
     bnd (map_r (\<lambda>t. case t of PyDict d \<Rightarrow> Inr d | _ \<Rightarrow> Inl AttributeError) terminals) (\<lambda>ds.
       Inr (filter (\<lambda>d. dget d ''claim_receipt_hash'' = PyStr crh \<and> pm_sig_ok d prov) ds)))"

definition terminal_pair :: "pydict \<Rightarrow> (py \<times> py) res" where
  "terminal_pair t =
     bnd (py_item (PyDict t) ''terminal_status'') (\<lambda>s.
     let out = dget t ''output_hash'' in if hashable s \<and> hashable out then Inr (s, out) else Inl TypeError)"

definition same_pair :: "py \<times> py \<Rightarrow> py \<times> py \<Rightarrow> bool" where
  "same_pair p q = (py_eq (fst p) (fst q) \<and> py_eq (snd p) (snd q))"

fun walk :: "(pydict \<Rightarrow> pydict list res) \<Rightarrow> bool \<Rightarrow> pydict list \<Rightarrow> walk_end res" where
  "walk tf retry_committed [] = Inr (Walked None False (S ''CLAIMED'') [])"
| "walk tf retry_committed (c # later) =
     bnd (tf c) (\<lambda>ts.
     bnd (map_r terminal_pair ts) (\<lambda>pairs.
     if list_ex (\<lambda>p. \<not> same_pair (hd pairs) p) (tl pairs) then Inr Conflict
     else
       let status = (case pairs of [] \<Rightarrow> PyNone | p # _ \<Rightarrow> fst p) in
       if status = S ''NO_RESULT'' then
         (if later = [] then Inr (Walked None False (S ''ATTESTED_NO_RESULT'') [])
          else if retry_committed then walk tf retry_committed later
          else Inr (Walked None True (S ''ATTESTED_NO_RESULT'') [RetryNotCommitted]))
       else
         let violation = (later \<noteq> []);
             reasons = (if violation then [RetryAfterTerminal] else [])
         in if status = PyNone then Inr (Walked None violation (S ''CLAIMED'') (if violation then reasons else reasons @ [NoTerminal]))
            else Inr (Walked (Some (c, hd ts, status)) violation (S ''CLAIMED'') reasons)))"

section \<open>The evaluation\<close>

definition pm_first :: "py \<Rightarrow> py res" where
  "pm_first v =
     (case v of
        PyList xs \<Rightarrow> (case xs of [] \<Rightarrow> Inl IndexError | x # _ \<Rightarrow> Inr x)
      | PyStr s \<Rightarrow> (case s of [] \<Rightarrow> Inl IndexError | c # _ \<Rightarrow> Inr (PyStr [c]))
      | PyDict _ \<Rightarrow> Inl KeyError
      | _ \<Rightarrow> Inl TypeError)"

definition pm_admission :: "py \<Rightarrow> py \<Rightarrow> bool list \<Rightarrow> pm_out res" where
  "pm_admission pkg req subs =
     bnd (py_get pkg ''admission_receipt'') (\<lambda>rec.
     if \<not> truthy rec then Inr (finish (S ''AUTHORIZED'') (only_authorized TFalse) [NotClaimed] subs PyNone)
     else
       bnd (admission_receipt_recomputes rec) (\<lambda>ok.
       bnd (bnd (bnd (py_item req ''request_text'') (as_str AttributeError)) utf8) (\<lambda>text.
       bnd (and_r (Inr ok) (bnd (py_item rec ''artifact_hash'') (\<lambda>ah. Inr (py_eq ah (PyStr (sha256_hex text)))))) (\<lambda>bound.
         Inr (finish (S (if ok then ''CLAIMED'' else ''AUTHORIZED''))
           \<lparr> t_authorized = TUnknown, t_request = (if bound then TTrue else TFalse), t_terminal = TUnknown, t_scope = TUnknown \<rparr>
           (NoSlot # (if bound then [] else [RequestDiffers])) subs PyNone)))))"

definition retry_allowed :: "py \<Rightarrow> py list res" where
  "retry_allowed acq =
     bnd (bnd (py_item acq ''retry_policy'') (\<lambda>rp. py_get_default rp ''allowed_after'' (PyList []))) py_iter"

definition claim_valid :: "py \<Rightarrow> ustr \<Rightarrow> ustr list \<Rightarrow> py \<Rightarrow> py \<Rightarrow> bool res" where
  "claim_valid acq run_id attempt_ids prov c =
     (case c of
        PyDict d \<Rightarrow>
          if dget d ''run_id'' \<noteq> PyStr run_id \<or> \<not> py_in (dget d ''attempt_id'') (map PyStr attempt_ids) then Inr False
          else bnd (py_item acq ''provenance_profile'') (\<lambda>pp. Inr (py_eq (dget d ''provenance_profile'') pp \<and> pm_sig_ok d prov))
      | _ \<Rightarrow> Inl AttributeError)"

definition the_dict :: "py \<Rightarrow> pydict" where
  "the_dict v = (case v of PyDict d \<Rightarrow> d | _ \<Rightarrow> [])"

definition attempt_index :: "ustr list \<Rightarrow> pydict \<Rightarrow> nat" where
  "attempt_index attempt_ids c = length (takeWhile (\<lambda>a. PyStr a \<noteq> dget c ''attempt_id'') attempt_ids)"

definition claims_equivocate :: "(py \<times> ustr) list \<Rightarrow> bool" where
  "claims_equivocate hs = list_ex (\<lambda>x. list_ex (\<lambda>y. fst x = fst y \<and> snd x \<noteq> snd y) hs) hs"

text \<open>The dispute, the run and its attempts, from the committed state.\<close>

definition derived_dispute :: "py \<Rightarrow> ustr \<Rightarrow> ustr res" where
  "derived_dispute ds manifest_hash =
     bnd (py_item ds ''contract_id'') (\<lambda>ci.
     bnd (py_item ds ''dispute_nonce'') (\<lambda>dn.
       pm_H (PyDict [(U ''manifest_hash'', PyStr manifest_hash), (U ''contract_id'', ci), (U ''dispute_nonce'', dn)])))"

definition derived_run :: "py \<Rightarrow> py \<Rightarrow> ustr \<Rightarrow> ustr res" where
  "derived_run req dispute_id manifest_hash =
     bnd (py_item req ''requirement_id'') (\<lambda>ri.
     bnd (py_item req ''judge_id'') (\<lambda>ji.
       pm_H (PyDict [(U ''manifest_hash'', PyStr manifest_hash), (U ''dispute_id'', dispute_id), (U ''requirement_id'', ri),
                     (U ''judge_id'', ji), (U ''run_index'', PyInt 0)])))"

definition derived_attempts :: "ustr \<Rightarrow> int \<Rightarrow> ustr list res" where
  "derived_attempts run_id max_att =
     map_r (\<lambda>k. pm_H (PyDict [(U ''run_id'', PyStr run_id), (U ''attempt_index'', PyInt (int k))])) [0..<nat max_att]"

text \<open>From the chosen terminal on.\<close>

definition settle :: "py \<Rightarrow> tri \<Rightarrow> pm_reason list \<Rightarrow> bool list \<Rightarrow> pydict \<times> pydict \<times> py \<Rightarrow> pm_out res" where
  "settle req authorized reasons subs chosen =
     (let (c, t, status) = chosen;
          state = (if status = S ''RESULT'' then S ''TERMINAL_RESULT'' else if status = S ''UNRESOLVED'' then S ''TERMINAL_UNRESOLVED'' else status)
      in
      bnd (py_item (PyDict c) ''request_hash'') (\<lambda>rh.
      bnd (bnd (py_item req ''request'') pm_H) (\<lambda>want.
      bnd (bnd (py_item req ''required_scope'') py_set) (\<lambda>need.
      bnd (py_set (py_or (dget t ''observed_scope'') (PyList []))) (\<lambda>got.
      let bound = py_eq rh (PyStr want);
          covers = list_all (\<lambda>x. py_in x got) need
      in
      bnd (if covers then Inr () else bnd (sorted_py got) (\<lambda>_. sorted_py need)) (\<lambda>_.
        Inr (finish state
          \<lparr> t_authorized = authorized, t_request = (if bound then TTrue else TFalse), t_terminal = TTrue,
            t_scope = (if covers then TTrue else TFalse) \<rparr>
          (reasons @ (if bound then [] else [RequestDiffers]) @ (if covers then [] else [ScopeMissing]) @
            (if status = S ''UNRESOLVED'' then [TerminalUnresolved] else []))
          subs (if status = S ''UNRESOLVED'' then PyNone else dget t ''output_hash''))))))))"

definition auth16 :: "bool \<Rightarrow> tri \<Rightarrow> tri" where
  "auth16 derived_ok order = (if \<not> derived_ok \<or> order = TFalse then TFalse else order)"

text \<open>From the valid claims on.\<close>

definition pm_claims :: "py \<Rightarrow> py \<Rightarrow> bool list \<Rightarrow> py \<Rightarrow> bool \<Rightarrow> tri \<Rightarrow> pm_reason list \<Rightarrow> pydict list \<Rightarrow> pm_out res" where
  "pm_claims pkg req subs prov retry_committed authorized reasons valid =
     bnd (map_r (\<lambda>c. bnd (pm_H (PyDict c)) (\<lambda>h. Inr (dget c ''attempt_id'', h))) valid) (\<lambda>hs.
     if claims_equivocate hs then
       Inr (finish (S ''EQUIVOCATION'') (only_authorized TFalse) (reasons @ [ClaimEquivocation]) subs PyNone)
     else
       bnd (bnd (py_get_default pkg ''terminals'' (PyList [])) py_iter) (\<lambda>terminals.
       bnd (walk (terminals_for terminals prov) retry_committed valid) (\<lambda>w.
       case w of
         Conflict \<Rightarrow>
           Inr (finish (S ''EQUIVOCATION'')
             \<lparr> t_authorized = authorized, t_request = TUnknown, t_terminal = TFalse, t_scope = TUnknown \<rparr>
             (reasons @ [TerminalConflict]) subs PyNone)
       | Walked chosen violation state rs \<Rightarrow>
           let a = (if violation then TFalse else authorized) in
           (case chosen of
              None \<Rightarrow> Inr (finish state (only_authorized a) (reasons @ rs) subs PyNone)
            | Some ch \<Rightarrow> settle req a (reasons @ rs) subs ch))))"

definition pm_slots :: "ucd \<Rightarrow> py \<Rightarrow> py \<Rightarrow> py \<Rightarrow> py \<Rightarrow> py list \<Rightarrow> bool list \<Rightarrow> bool \<Rightarrow> pm_out res" where
  "pm_slots u pkg m acq req raw_subs subs retry_committed =
     bnd (pm_H m) (\<lambda>manifest_hash.
     bnd (py_item pkg ''dispute_state'') (\<lambda>ds.
     bnd (derived_dispute ds manifest_hash) (\<lambda>derived.
     bnd (py_get_default pkg ''claims'' (PyList [])) (\<lambda>claims.
     bnd (py_item pkg ''dispute_id'') (\<lambda>dispute_id.
     let derived_ok = py_eq dispute_id (PyStr derived) in
     bnd (derived_run req dispute_id manifest_hash) (\<lambda>run_id.
     bnd (bnd (bnd (py_item acq ''retry_policy'') (\<lambda>rp. py_item rp ''max_attempts'')) (py_int u)) (\<lambda>max_att.
     bnd (derived_attempts run_id max_att) (\<lambda>attempt_ids.
     bnd (py_item acq ''provider_pubkey'') (\<lambda>prov.
     bnd (bnd (py_iter claims) (filter_r (claim_valid acq run_id attempt_ids prov))) (\<lambda>valid0.
     let valid = sort_key (attempt_index attempt_ids) (map the_dict valid0) in
     bnd (ordering pkg acq ds valid) (\<lambda>(order, why).
     let reasons = (if derived_ok then [] else [NotDerived]) @ (case why of None \<Rightarrow> [] | Some r \<Rightarrow> [r]) in
     if valid = [] then
       Inr (finish (S ''AUTHORIZED'') (only_authorized TFalse)
         (reasons @ (if raw_subs \<noteq> [] \<and> \<not> truthy claims then [SubmissionOnly] else if truthy claims then [NoValidClaim] else []))
         subs PyNone)
     else pm_claims pkg req subs prov retry_committed (auth16 derived_ok order) reasons valid)))))))))))"

definition pm_evaluate :: "ucd \<Rightarrow> py \<Rightarrow> pm_out res" where
  "pm_evaluate u pkg =
     bnd (py_item pkg ''manifest'') (\<lambda>m.
     bnd (py_item m ''acquisition'') (\<lambda>acq.
     bnd (bnd (py_item m ''requirements'') pm_first) (\<lambda>req.
     bnd (bnd (py_get_default pkg ''submission_commitments'' (PyList [])) py_iter) (\<lambda>raw_subs.
     let subs = map commitment_ok raw_subs in
     bnd (py_get acq ''provenance_profile'') (\<lambda>profile.
     if py_eq profile (S ''invinoveritas-admission-chain-v1'') then pm_admission pkg req subs
     else
       bnd (retry_allowed acq) (\<lambda>allowed.
       if list_ex (\<lambda>x. x \<noteq> S ''ATTESTED_NO_RESULT'') allowed then
         bnd (sorted_py allowed) (\<lambda>_.
           Inr (finish (S ''FORMATION_REFUSED'') (only_authorized TFalse) [RetryPredicate] subs PyNone))
       else pm_slots u pkg m acq req raw_subs subs (S ''ATTESTED_NO_RESULT'' \<in> set allowed)))))))"

text \<open>\<^verbatim>\<open>check_vectors\<close> on the packages of the vector files, in order: the number that differ from their \<^verbatim>\<open>expect\<close> block.\<close>

fun tri_text :: "tri \<Rightarrow> py" where
  "tri_text TTrue = S ''true''"
| "tri_text TFalse = S ''false''"
| "tri_text TUnknown = S ''cannot_establish''"

definition term_text :: "pm_terms \<Rightarrow> ustr \<Rightarrow> py" where
  "term_text t k =
     (if k = U ''authorized_execution'' then tri_text (t_authorized t)
      else if k = U ''exact_request_binding'' then tri_text (t_request t)
      else if k = U ''unique_terminal_execution'' then tri_text (t_terminal t)
      else if k = U ''sufficient_scope'' then tri_text (t_scope t)
      else PyNone)"

definition vector_agrees :: "pm_out \<Rightarrow> py \<Rightarrow> bool res" where
  "vector_agrees r e =
     and_r (bnd (py_item e ''run_verdict'') (\<lambda>v. Inr (py_eq (S (if pm_result r = None then ''UNRESOLVED'' else ''RESULT'')) v)))
    (and_r (bnd (py_item e ''eligible'') (\<lambda>v. Inr (py_eq (PyBool (pm_eligible r)) v)))
    (and_r (bnd (py_item e ''state'') (\<lambda>v. Inr (py_eq (pm_state r) v)))
           (bnd (py_get_default e ''terms'' (PyDict [])) (\<lambda>ts.
              case ts of
                PyDict d \<Rightarrow> Inr (list_all (\<lambda>kv. py_eq (term_text (pm_terms r) (fst kv)) (snd kv)) d)
              | _ \<Rightarrow> Inl AttributeError))))"

definition check_vectors :: "ucd \<Rightarrow> py list \<Rightarrow> nat res" where
  "check_vectors u pkgs =
     bnd (map_r (\<lambda>pkg. bnd (pm_evaluate u pkg) (\<lambda>r. bnd (py_item pkg ''expect'') (vector_agrees r))) pkgs) (\<lambda>oks.
       Inr (length (filter (\<lambda>ok. \<not> ok) oks)))"

section \<open>When a run is a result\<close>

text \<open>The status the provider attests for a claim: none when its terminals conflict, \<^verbatim>\<open>None\<close> as a value when there are none.\<close>

definition attested_status :: "(pydict \<Rightarrow> pydict list res) \<Rightarrow> pydict \<Rightarrow> py option res" where
  "attested_status tf c =
     bnd (bnd (tf c) (map_r terminal_pair)) (\<lambda>pairs.
       Inr (if list_ex (\<lambda>p. \<not> same_pair (hd pairs) p) (tl pairs) then None
            else Some (case pairs of [] \<Rightarrow> PyNone | p # _ \<Rightarrow> fst p)))"

definition binds_request :: "py \<Rightarrow> pydict \<Rightarrow> bool" where
  "binds_request req c \<longleftrightarrow>
     (\<exists>want. bnd (py_item req ''request'') pm_H = Inr want \<and> py_item (PyDict c) ''request_hash'' = Inr (PyStr want))"

definition scope_covered :: "py \<Rightarrow> pydict \<Rightarrow> bool" where
  "scope_covered req t \<longleftrightarrow>
     (\<exists>need got. bnd (py_item req ''required_scope'') py_set = Inr need \<and> py_set (py_or (dget t ''observed_scope'') (PyList [])) = Inr got \<and>
       list_all (\<lambda>x. py_in x got) need)"

text \<open>The last valid claim is the one that counts: every claim before it is attested to have no result, which the manifest must allow as the reason
  for a retry.\<close>

definition reaches :: "(pydict \<Rightarrow> pydict list res) \<Rightarrow> bool \<Rightarrow> pydict list \<Rightarrow> pydict \<Rightarrow> bool" where
  "reaches tf rc valid c \<longleftrightarrow>
     (\<exists>pre. valid = pre @ [c] \<and> (pre = [] \<or> rc) \<and> (\<forall>p \<in> set pre. attested_status tf p = Inr (Some (S ''NO_RESULT''))))"

definition last_attempt_result :: "(pydict \<Rightarrow> pydict list res) \<Rightarrow> bool \<Rightarrow> py \<Rightarrow> pydict list \<Rightarrow> py \<Rightarrow> bool" where
  "last_attempt_result tf rc req valid out \<longleftrightarrow>
     (\<exists>c t ts s. reaches tf rc valid c \<and> tf c = Inr (t # ts) \<and> attested_status tf c = Inr (Some s) \<and>
       s \<notin> {PyNone, S ''NO_RESULT'', S ''UNRESOLVED''} \<and>
       binds_request req c \<and> scope_covered req t \<and> dget t ''output_hash'' = out \<and> truthy out)"

text \<open>The run the package is about: its dispute, slot and attempts are derived from the manifest and the committed dispute state, the ordering log
  shows that the dispute was committed first, and no attempt has two claims.\<close>

definition slot_authoritative :: "ucd \<Rightarrow> py \<Rightarrow> py \<Rightarrow> py \<Rightarrow> py \<Rightarrow> bool \<Rightarrow> py \<Rightarrow> bool" where
  "slot_authoritative u pkg m acq req rc out \<longleftrightarrow>
     (\<exists>mh ds d run_id n attempts prov cv claims valid order hs terminals.
       pm_H m = Inr mh \<and> py_item pkg ''dispute_state'' = Inr ds \<and>
       derived_dispute ds mh = Inr d \<and> py_item pkg ''dispute_id'' = Inr (PyStr d) \<and> derived_run req (PyStr d) mh = Inr run_id \<and>
       bnd (bnd (py_item acq ''retry_policy'') (\<lambda>rp. py_item rp ''max_attempts'')) (py_int u) = Inr n \<and>
       derived_attempts run_id n = Inr attempts \<and> py_item acq ''provider_pubkey'' = Inr prov \<and>
       py_get_default pkg ''claims'' (PyList []) = Inr cv \<and> bnd (py_iter cv) (filter_r (claim_valid acq run_id attempts prov)) = Inr claims \<and>
       valid = sort_key (attempt_index attempts) (map the_dict claims) \<and>
       ordering pkg acq ds valid = Inr order \<and> fst order = TTrue \<and>
       map_r (\<lambda>c. bnd (pm_H (PyDict c)) (\<lambda>h. Inr (dget c ''attempt_id'', h))) valid = Inr hs \<and> \<not> claims_equivocate hs \<and>
       bnd (py_get_default pkg ''terminals'' (PyList [])) py_iter = Inr terminals \<and>
       last_attempt_result (terminals_for terminals prov) rc req valid out)"

definition run_authoritative :: "ucd \<Rightarrow> py \<Rightarrow> py \<Rightarrow> bool" where
  "run_authoritative u pkg out \<longleftrightarrow>
     (\<exists>m acq req subs profile allowed.
       py_item pkg ''manifest'' = Inr m \<and> py_item m ''acquisition'' = Inr acq \<and> bnd (py_item m ''requirements'') pm_first = Inr req \<and>
       bnd (py_get_default pkg ''submission_commitments'' (PyList [])) py_iter = Inr subs \<and>
       py_get acq ''provenance_profile'' = Inr profile \<and> profile \<noteq> S ''invinoveritas-admission-chain-v1'' \<and>
       retry_allowed acq = Inr allowed \<and> set allowed \<subseteq> {S ''ATTESTED_NO_RESULT''} \<and>
       slot_authoritative u pkg m acq req (allowed \<noteq> []) out)"

definition gives :: "pm_out res \<Rightarrow> py \<Rightarrow> bool" where
  "gives m out \<longleftrightarrow> (\<exists>r. m = Inr r \<and> pm_result r = Some out)"

lemma gives_simps [simp]:
  "gives (Inl e) out = False"
  "gives (Inr r) out = (pm_result r = Some out)"
  "gives (bnd m f) out = (\<exists>x. m = Inr x \<and> gives (f x) out)"
  "gives (if b then g else g') out = (if b then gives g out else gives g' out)"
  by (auto simp: gives_def)

lemma finish_result [simp]: "pm_result (finish st t rs subs oh) = Some out \<longleftrightarrow> eligible t \<and> truthy oh \<and> oh = out"
  by (auto simp: finish_def)

lemma eligible_simps [simp]:
  "eligible (only_authorized a) = False"
  "eligible \<lparr> t_authorized = a, t_request = b, t_terminal = c, t_scope = d \<rparr> \<longleftrightarrow> a = TTrue \<and> b = TTrue \<and> c = TTrue \<and> d = TTrue"
  by (auto simp: eligible_def only_authorized_def)

lemma settle_gives:
  "gives (settle req a rs subs (c, t, s)) out \<longleftrightarrow>
   a = TTrue \<and> s \<noteq> S ''UNRESOLVED'' \<and> binds_request req c \<and> scope_covered req t \<and> dget t ''output_hash'' = out \<and> truthy out"
  unfolding settle_def Let_def prod.case binds_request_def scope_covered_def
  by (simp add: py_eq_Str_right del: py_item.simps) (auto simp del: py_item.simps)

lemma walk_Cons:
  "walk tf rc (c # later) =
     bnd (attested_status tf c) (\<lambda>st.
     case st of
       None \<Rightarrow> Inr Conflict
     | Some s \<Rightarrow>
         if s = S ''NO_RESULT'' then
           (if later = [] then Inr (Walked None False (S ''ATTESTED_NO_RESULT'') [])
            else if rc then walk tf rc later
            else Inr (Walked None True (S ''ATTESTED_NO_RESULT'') [RetryNotCommitted]))
         else
           let violation = (later \<noteq> []); reasons = (if violation then [RetryAfterTerminal] else []) in
           if s = PyNone then Inr (Walked None violation (S ''CLAIMED'') (if violation then reasons else reasons @ [NoTerminal]))
           else bnd (tf c) (\<lambda>ts. Inr (Walked (Some (c, hd ts, s)) violation (S ''CLAIMED'') reasons)))"
proof (cases "tf c")
  case (Inr ts)
  then show ?thesis by (cases "map_r terminal_pair ts") (simp_all add: attested_status_def Let_def)
qed (simp add: attested_status_def)

declare walk.simps(2) [simp del]

lemma attested_terminals:
  assumes "attested_status tf c = Inr (Some s)" "s \<noteq> PyNone"
  shows "\<exists>t ts. tf c = Inr (t # ts)"
proof -
  obtain ts pairs where t: "tf c = Inr ts" "map_r terminal_pair ts = Inr pairs" using assms(1) by (auto simp: attested_status_def)
  then have "ts \<noteq> []" using assms by (auto simp: attested_status_def)
  with t(1) show ?thesis by (cases ts) auto
qed

lemma reaches_Cons:
  "reaches tf rc (c' # later) c \<longleftrightarrow>
   (if later = [] then c' = c else rc \<and> attested_status tf c' = Inr (Some (S ''NO_RESULT'')) \<and> reaches tf rc later c)"
  unfolding reaches_def by (auto simp: Cons_eq_append_conv)

lemma walk_chosen:
  "walk tf rc valid = Inr (Walked (Some (c, t, s)) False st rs) \<longleftrightarrow>
   st = S ''CLAIMED'' \<and> rs = [] \<and> s \<notin> {PyNone, S ''NO_RESULT''} \<and> reaches tf rc valid c \<and>
   attested_status tf c = Inr (Some s) \<and> (\<exists>ts. tf c = Inr (t # ts))"
proof (induction valid)
  case (Cons c' later)
  show ?case
  proof (cases "attested_status tf c'")
    case (Inl e)
    then show ?thesis by (auto simp: walk_Cons reaches_Cons)
  next
    case (Inr o')
    show ?thesis
    proof (cases o')
      case None
      then show ?thesis using Inr by (auto simp: walk_Cons reaches_Cons)
    next
      case (Some s')
      then show ?thesis
        using Inr Cons.IH attested_terminals [of tf c' s'] by (auto simp: walk_Cons reaches_Cons Let_def split: if_splits)
    qed
  qed
qed (simp add: reaches_def)

lemma claims_gives:
  "gives (pm_claims pkg req subs prov rc a rs valid) out \<longleftrightarrow>
   a = TTrue \<and>
   (\<exists>hs. map_r (\<lambda>c. bnd (pm_H (PyDict c)) (\<lambda>h. Inr (dget c ''attempt_id'', h))) valid = Inr hs \<and> \<not> claims_equivocate hs) \<and>
   (\<exists>terminals. bnd (py_get_default pkg ''terminals'' (PyList [])) py_iter = Inr terminals \<and>
     last_attempt_result (terminals_for terminals prov) rc req valid out)"
proof -
  have w: "gives (case w of Conflict \<Rightarrow> Inr (finish st \<lparr> t_authorized = a, t_request = TUnknown, t_terminal = TFalse, t_scope = TUnknown \<rparr> rs' subs PyNone)
      | Walked chosen violation state rs \<Rightarrow>
          let a = (if violation then TFalse else a) in
          (case chosen of None \<Rightarrow> Inr (finish state (only_authorized a) (rs0 @ rs) subs PyNone) | Some ch \<Rightarrow> settle req a (rs0 @ rs) subs ch)) out \<longleftrightarrow>
    a = TTrue \<and> (\<exists>c t s st rs. w = Walked (Some (c, t, s)) False st rs \<and>
      s \<noteq> S ''UNRESOLVED'' \<and> binds_request req c \<and> scope_covered req t \<and> dget t ''output_hash'' = out \<and> truthy out)"
    (is "gives ?m out \<longleftrightarrow> ?r") for w st rs' rs0
  proof (cases w)
    case (Walked chosen violation state rs)
    then show ?thesis by (cases chosen) (auto simp: settle_gives)
  qed simp
  have l: "(\<exists>w. walk tf rc valid = Inr w \<and> a = TTrue \<and> (\<exists>c t s st rs. w = Walked (Some (c, t, s)) False st rs \<and>
      s \<noteq> S ''UNRESOLVED'' \<and> binds_request req c \<and> scope_covered req t \<and> dget t ''output_hash'' = out \<and> truthy out)) \<longleftrightarrow>
    a = TTrue \<and> last_attempt_result tf rc req valid out" (is "?l \<longleftrightarrow> ?r") for tf
  proof
    assume ?l
    then obtain c t s st rs where "a = TTrue" "walk tf rc valid = Inr (Walked (Some (c, t, s)) False st rs)"
      "s \<noteq> S ''UNRESOLVED''" "binds_request req c" "scope_covered req t" "dget t ''output_hash'' = out" "truthy out" by metis
    then show ?r unfolding walk_chosen last_attempt_result_def by blast
  next
    assume ?r
    then obtain c t ts s where s: "a = TTrue" "reaches tf rc valid c" "tf c = Inr (t # ts)" "attested_status tf c = Inr (Some s)"
      "s \<notin> {PyNone, S ''NO_RESULT''}" "s \<noteq> S ''UNRESOLVED''" "binds_request req c" "scope_covered req t" "dget t ''output_hash'' = out" "truthy out"
      unfolding last_attempt_result_def by blast
    then have "walk tf rc valid = Inr (Walked (Some (c, t, s)) False (S ''CLAIMED'') [])" unfolding walk_chosen by blast
    with s show ?l by blast
  qed
  have "gives (pm_claims pkg req subs prov rc a rs valid) out \<longleftrightarrow>
    (\<exists>hs. map_r (\<lambda>c. bnd (pm_H (PyDict c)) (\<lambda>h. Inr (dget c ''attempt_id'', h))) valid = Inr hs \<and> \<not> claims_equivocate hs \<and>
      (\<exists>terminals. bnd (py_get_default pkg ''terminals'' (PyList [])) py_iter = Inr terminals \<and> a = TTrue \<and>
        last_attempt_result (terminals_for terminals prov) rc req valid out))"
    unfolding pm_claims_def gives_simps w l finish_result eligible_simps simp_thms if_bool_eq_disj ..
  then show ?thesis by (simp only:) blast
qed

lemma auth16_true: "auth16 ok order = TTrue \<longleftrightarrow> ok \<and> order = TTrue"
  by (auto simp: auth16_def)

lemma nothing_reached: "\<not> last_attempt_result tf rc req [] out"
  by (simp add: last_attempt_result_def reaches_def)

lemma gives_slot:
  "gives (case x of (order, why) \<Rightarrow>
      if valid = [] then Inr (finish st (only_authorized TFalse) (rs why) subs PyNone)
      else pm_claims pkg req subs prov rc (auth16 ok order) (rs' why) valid) out \<longleftrightarrow>
   ok \<and> fst x = TTrue \<and> valid \<noteq> [] \<and>
   (\<exists>hs. map_r (\<lambda>c. bnd (pm_H (PyDict c)) (\<lambda>h. Inr (dget c ''attempt_id'', h))) valid = Inr hs \<and> \<not> claims_equivocate hs) \<and>
   (\<exists>terminals. bnd (py_get_default pkg ''terminals'' (PyList [])) py_iter = Inr terminals \<and>
     last_attempt_result (terminals_for terminals prov) rc req valid out)"
  by (cases x) (simp add: claims_gives auth16_true)

lemma slots_give: "gives (pm_slots u pkg m acq req raw subs rc) out \<longleftrightarrow> slot_authoritative u pkg m acq req rc out" (is "?l \<longleftrightarrow> ?r")
proof
  assume ?l
  then show ?r
    unfolding pm_slots_def Let_def gives_simps gives_slot py_eq_Str_right slot_authoritative_def
    by (elim exE conjE, intro exI conjI) (assumption | simp only:)+
next
  assume ?r
  then obtain mh ds d run_id n attempts prov cv claims valid order hs terminals where r:
    "pm_H m = Inr mh" "py_item pkg ''dispute_state'' = Inr ds" "derived_dispute ds mh = Inr d"
    "py_item pkg ''dispute_id'' = Inr (PyStr d)" "derived_run req (PyStr d) mh = Inr run_id"
    "bnd (bnd (py_item acq ''retry_policy'') (\<lambda>rp. py_item rp ''max_attempts'')) (py_int u) = Inr n"
    "derived_attempts run_id n = Inr attempts" "py_item acq ''provider_pubkey'' = Inr prov"
    "py_get_default pkg ''claims'' (PyList []) = Inr cv" "bnd (py_iter cv) (filter_r (claim_valid acq run_id attempts prov)) = Inr claims"
    and v: "valid = sort_key (attempt_index attempts) (map the_dict claims)"
    and o: "ordering pkg acq ds valid = Inr order" "fst order = TTrue"
    and h: "map_r (\<lambda>c. bnd (pm_H (PyDict c)) (\<lambda>h. Inr (dget c ''attempt_id'', h))) valid = Inr hs" "\<not> claims_equivocate hs"
    and t: "bnd (py_get_default pkg ''terminals'' (PyList [])) py_iter = Inr terminals"
      "last_attempt_result (terminals_for terminals prov) rc req valid out"
    unfolding slot_authoritative_def by (elim exE conjE)
  have "valid \<noteq> []" using t(2) nothing_reached by metis
  with o h t show ?l
    unfolding pm_slots_def Let_def r bnd_Inr gives_simps gives_slot py_eq_Str_right v by (intro exI [of _ order] conjI) blast+
qed

text \<open>C4. A run counts as a result exactly when it is authoritative: the profile has slots, the only retry predicate is an attested absence, the
  dispute is the derived one and committed before every claim in the attested ordering log, no attempt is claimed twice, every earlier attempt is
  attested to have no result, and the last one has an attested terminal for the committed request, with the required scope and an output.\<close>

theorem result_iff_authoritative:
  "(\<exists>r. pm_evaluate u pkg = Inr r \<and> pm_result r = Some out) \<longleftrightarrow> run_authoritative u pkg out"
proof -
  have a: "gives (pm_admission pkg req subs) out = False" for req subs by (auto simp: pm_admission_def)
  have f: "list_ex (\<lambda>x. x \<noteq> S ''ATTESTED_NO_RESULT'') allowed \<longleftrightarrow> \<not> set allowed \<subseteq> {S ''ATTESTED_NO_RESULT''}" for allowed
    by (auto simp: list_ex_iff)
  have e: "gives (if list_ex (\<lambda>x. x \<noteq> S ''ATTESTED_NO_RESULT'') allowed
      then bnd (sorted_py allowed) (\<lambda>_. Inr (finish st (only_authorized TFalse) rs subs PyNone))
      else pm_slots u pkg m acq req raw subs (S ''ATTESTED_NO_RESULT'' \<in> set allowed)) out \<longleftrightarrow>
    set allowed \<subseteq> {S ''ATTESTED_NO_RESULT''} \<and> slot_authoritative u pkg m acq req (allowed \<noteq> []) out" for allowed st rs m acq req raw subs
  proof (cases "set allowed \<subseteq> {S ''ATTESTED_NO_RESULT''}")
    case True
    then have "S ''ATTESTED_NO_RESULT'' \<in> set allowed \<longleftrightarrow> allowed \<noteq> []" by (cases allowed) auto
    with True show ?thesis by (simp only: f simp_thms if_False slots_give)
  next
    case False
    then show ?thesis by (simp add: f)
  qed
  have "gives (pm_evaluate u pkg) out \<longleftrightarrow> run_authoritative u pkg out"
    unfolding pm_evaluate_def Let_def run_authoritative_def py_eq_Str_right gives_simps a if_bool_eq_disj simp_thms
      e [unfolded gives_simps if_bool_eq_disj] by blast
  then show ?thesis by (simp add: gives_def)
qed

end
