(* ===== verification/WarToken.thy ===== *)
theory WarToken
  imports Complex_Main Ed25519 Jcs EvidenceSet
begin

text \<open>
  What \<^verbatim>\<open>examples/work-acceptance-record-cold/war_check.py\<close> reads with: the Ed25519 reference of
  \<^verbatim>\<open>examples/x402-receipt-private-opening/ed25519_ref.py\<close>, canonical base64, the two time forms as exact fractions, the RFC 8785 writer, and the
  DER reader for time-stamp tokens. Reading a token walks nested elements with a stack; the loop is given as much fuel as the token has
  bytes and one more, which is proved to be enough.
\<close>

section \<open>The Ed25519 reference\<close>

fun ref_mul_loop :: "ext_point \<Rightarrow> ext_point \<Rightarrow> nat \<Rightarrow> ext_point" where
  "ref_mul_loop Q P s = (if s = 0 then Q else ref_mul_loop (if odd s then ed_add Q P else Q) (ed_add P P) (s div 2))"

declare ref_mul_loop.simps [simp del]

definition ref_mul :: "nat \<Rightarrow> ext_point \<Rightarrow> ext_point" where
  "ref_mul s P = ref_mul_loop ed_O P s"

text \<open>The product is not reduced before it is compared with zero.\<close>

definition ref_recover_x :: "int \<Rightarrow> int \<Rightarrow> int option" where
  "ref_recover_x y sign =
     (if ed_p \<le> y then None
      else
        let x2 = (y * y - 1) * powmod (ed_d * y * y + 1) (nat (ed_p - 2)) ed_p in
        if x2 = 0 then (if sign \<noteq> 0 then None else Some 0)
        else
          let x = powmod x2 (nat ((ed_p + 3) div 8)) ed_p;
              x' = (if (x * x - x2) mod ed_p \<noteq> 0 then x * ed_I mod ed_p else x)
          in if (x' * x' - x2) mod ed_p \<noteq> 0 then None else Some (if x' mod 2 \<noteq> sign then ed_p - x' else x'))"

definition ref_G :: "ext_point res" where
  "ref_G = (case ref_recover_x ed_By 0 of None \<Rightarrow> Inl TypeError | Some x \<Rightarrow> Inr (x, ed_By, 1, x * ed_By mod ed_p))"

definition ref_compress :: "ext_point \<Rightarrow> bytes res" where
  "ref_compress P =
     (let (X, Y, Z, T) = P; zi = powmod Z (nat (ed_p - 2)) ed_p; x = X * zi mod ed_p; y = Y * zi mod ed_p
      in to_bytes_le 32 (y OR push_bit 255 (x AND 1)))"

definition ref_decompress :: "bytes \<Rightarrow> ext_point option" where
  "ref_decompress s =
     (if length s \<noteq> 32 then None
      else
        let n = int_of_le s; sign = n div 2 ^ 255; y = n mod 2 ^ 255 in
        case ref_recover_x y sign of None \<Rightarrow> None | Some x \<Rightarrow> Some (x, y, 1, x * y mod ed_p))"

definition ref_expand :: "bytes \<Rightarrow> (int \<times> bytes) res" where
  "ref_expand secret =
     (if length secret \<noteq> 32 then Inl ValueError
      else
        let h = sha512 secret; a = int_of_le (take 32 h)
        in Inr ((a AND (2 ^ 254 - 8)) OR 2 ^ 254, drop 32 h))"

definition ref_public_key :: "bytes \<Rightarrow> bytes res" where
  "ref_public_key secret = bnd (ref_expand secret) (\<lambda>(a, _). bnd ref_G (\<lambda>G. ref_compress (ref_mul (nat a) G)))"

definition ref_sign :: "bytes \<Rightarrow> bytes \<Rightarrow> bytes res" where
  "ref_sign secret msg =
     bnd (ref_expand secret) (\<lambda>(a, prefix).
     bnd ref_G (\<lambda>G.
     bnd (ref_compress (ref_mul (nat a) G)) (\<lambda>A.
     let r = int_of_le (sha512 (prefix @ msg)) mod ed_L in
     bnd (ref_compress (ref_mul (nat r) G)) (\<lambda>R.
     let h = int_of_le (sha512 (R @ A @ msg)) mod ed_L in
     bnd (to_bytes_le 32 ((r + h * a) mod ed_L)) (\<lambda>S. Inr (R @ S))))))"

definition ref_key_ok :: "bytes \<Rightarrow> bool" where
  "ref_key_ok pub =
     (if length pub \<noteq> 32 \<or> ed_p \<le> int_of_le pub mod 2 ^ 255 then False
      else
        case ref_decompress pub of
          None \<Rightarrow> False
        | Some P \<Rightarrow> \<not> ed_eq P ed_O \<and> ed_eq (ref_mul (nat ed_L) P) ed_O)"

definition ref_verify :: "bytes \<Rightarrow> bytes \<Rightarrow> bytes \<Rightarrow> bool res" where
  "ref_verify public msg signature =
     (if length public \<noteq> 32 \<or> length signature \<noteq> 64 then Inr False
      else if \<not> ref_key_ok public \<or> ed_p \<le> int_of_le (take 32 signature) mod 2 ^ 255 then Inr False
      else
        case (ref_decompress public, ref_decompress (take 32 signature)) of
          (Some A, Some R) \<Rightarrow>
            (let s = int_of_le (drop 32 signature) in
             if ed_L \<le> s then Inr False
             else
               let h = int_of_le (sha512 (take 32 signature @ public @ msg)) mod ed_L in
               bnd ref_G (\<lambda>G. Inr (ed_eq (ref_mul (nat s) G) (ed_add R (ref_mul (nat h) A)))))
        | _ \<Rightarrow> Inr False)"

section \<open>Canonical base64\<close>

definition b64_digit :: "nat \<Rightarrow> nat" where
  "b64_digit v = (if v < 26 then v + 65 else if v < 52 then v + 71 else if v < 62 then v - 4 else if v = 62 then 43 else 47)"

fun b64encode :: "bytes \<Rightarrow> ustr" where
  "b64encode (a # b # c # r) =
     [b64_digit (unat a div 4), b64_digit (unat a mod 4 * 16 + unat b div 16), b64_digit (unat b mod 16 * 4 + unat c div 64),
      b64_digit (unat c mod 64)] @ b64encode r"
| "b64encode [a, b] = [b64_digit (unat a div 4), b64_digit (unat a mod 4 * 16 + unat b div 16), b64_digit (unat b mod 16 * 4), 61]"
| "b64encode [a] = [b64_digit (unat a div 4), b64_digit (unat a mod 4 * 16), 61, 61]"
| "b64encode [] = []"

text \<open>\<^verbatim>\<open>[A-Za-z0-9+/]*={0,2}\<close>.\<close>

definition b64_shape :: "ustr \<Rightarrow> bool" where
  "b64_shape s = (length (dropWhile (\<lambda>c. b64_value c \<noteq> None) s) \<le> 2 \<and> list_all (\<lambda>c. c = 61) (dropWhile (\<lambda>c. b64_value c \<noteq> None) s))"

definition b64c :: "py \<Rightarrow> bytes option" where
  "b64c v =
     (case v of
        PyStr s \<Rightarrow>
          if length s mod 4 \<noteq> 0 \<or> \<not> b64_shape s then None
          else (case a2b_base64 0 0 0 s of Inl _ \<Rightarrow> None | Inr b \<Rightarrow> if b64encode b = s then Some b else None)
      | _ \<Rightarrow> None)"

text \<open>\<^verbatim>\<open>base64.b64decode(a)\<close>, lax.\<close>

definition b64decode :: "py \<Rightarrow> bytes res" where
  "b64decode v = bnd (as_str TypeError v) (\<lambda>s. if list_all (\<lambda>c. c < 128) s then a2b_base64 0 0 0 s else Inl ValueError)"

section \<open>Times\<close>

text \<open>\<^verbatim>\<open>calendar.timegm\<close> on calendar fields.\<close>

definition days_before_year :: "nat \<Rightarrow> int" where
  "days_before_year y = (let k = int y - 1 in k * 365 + k div 4 - k div 100 + k div 400)"

definition days_before_month :: "nat \<Rightarrow> nat \<Rightarrow> int" where
  "days_before_month y mo = int (sum_list (map (days_in_month y) [1..<mo]))"

definition timegm :: "nat \<Rightarrow> nat \<Rightarrow> nat \<Rightarrow> nat \<Rightarrow> nat \<Rightarrow> nat \<Rightarrow> int" where
  "timegm y mo d h mi se =
     (let days = days_before_year y + days_before_month y mo + int d - 1 - 719162
      in ((days * 24 + int h) * 60 + int mi) * 60 + int se)"

definition real_fields :: "nat \<Rightarrow> nat \<Rightarrow> nat \<Rightarrow> nat \<Rightarrow> nat \<Rightarrow> nat \<Rightarrow> bool" where
  "real_fields y mo d h mi se =
     (1 \<le> y \<and> y \<le> 9999 \<and> 1 \<le> mo \<and> mo \<le> 12 \<and> 1 \<le> d \<and> d \<le> days_in_month y mo \<and> h \<le> 23 \<and> mi \<le> 59 \<and> se \<le> 59)"

definition cal :: "ucd \<Rightarrow> nat \<Rightarrow> nat \<Rightarrow> nat \<Rightarrow> nat \<Rightarrow> nat \<Rightarrow> nat \<Rightarrow> ustr \<Rightarrow> rat option" where
  "cal u y mo d h mi se f =
     (if \<not> real_fields y mo d h mi se then None
      else Some (of_int (timegm y mo d h mi se) + (if f = [] then 0 else of_nat (num_at u f 0 (length f)) / 10 ^ length f)))"

text \<open>The optional fraction and the \<^verbatim>\<open>Z\<close>: the digits, empty when there is no fraction.\<close>

definition frac_Z :: "ustr \<Rightarrow> ustr option" where
  "frac_Z s =
     (if s = [90] then Some []
      else if 3 \<le> length s \<and> hd s = 46 \<and> last s = 90 then Some (butlast (tl s)) else None)"

definition gen_time :: "ucd \<Rightarrow> ustr \<Rightarrow> rat option" where
  "gen_time u g =
     (if \<not> match_pat u ''##############'' (take 14 g) then None
      else
        case frac_Z (drop 14 g) of
          None \<Rightarrow> None
        | Some f \<Rightarrow>
            if f \<noteq> [] \<and> \<not> (list_all (\<lambda>c. u_digit u c \<noteq> None) (butlast f) \<and> 49 \<le> last f \<and> last f \<le> 57) then None
            else cal u (num_at u g 0 4) (num_at u g 4 2) (num_at u g 6 2) (num_at u g 8 2) (num_at u g 10 2) (num_at u g 12 2) f)"

definition rfc_time :: "ucd \<Rightarrow> py \<Rightarrow> rat option" where
  "rfc_time u v =
     (case v of
        PyStr t \<Rightarrow>
          if \<not> match_pat u ''####-##-##T##:##:##'' (take 19 t) then None
          else
            (case frac_Z (drop 19 t) of
               None \<Rightarrow> None
             | Some f \<Rightarrow>
                 if 3 < length f \<or> \<not> list_all (\<lambda>c. u_digit u c \<noteq> None) f then None
                 else cal u (num_at u t 0 4) (num_at u t 5 2) (num_at u t 8 2) (num_at u t 11 2) (num_at u t 14 2) (num_at u t 17 2) f)
      | _ \<Rightarrow> None)"

definition ms_up :: "rat \<Rightarrow> int" where
  "ms_up x = \<lceil>x * 1000\<rceil>"

definition ms_down :: "rat \<Rightarrow> int" where
  "ms_down x = \<lfloor>x * 1000\<rfloor>"

section \<open>Canonical JSON\<close>

definition es_layout :: "ustr \<Rightarrow> ustr" where
  "es_layout r =
     (let mant = before 101 r;
          ex = (if 101 \<in> set r then exp_int (after 101 r) else 0);
          ip = before 46 mant;
          fp0 = (if 46 \<in> set mant then after 46 mant else []);
          fp = (if fp0 = [48] then [] else fp0);
          digits0 = lstrip0 (ip @ fp);
          lead = length (ip @ fp) - length digits0;
          n = int (length ip) - int lead + ex;
          digits1 = rstrip0 digits0;
          digits = (if digits1 = [] then [48] else digits1);
          k = int (length digits)
      in if k \<le> n \<and> n \<le> 21 then digits @ zeros (n - k)
         else if 0 < n \<and> n \<le> 21 then take (nat n) digits @ [46] @ drop (nat n) digits
         else if - 6 < n \<and> n \<le> 0 then U ''0.'' @ zeros (- n) @ digits
         else
           (let e = n - 1
            in [hd digits] @ (if 1 < k then [46] @ tl digits else []) @ U ''e'' @ (if 0 \<le> e then U ''+'' else U ''-'') @ int_dec \<bar>e\<bar>))"

definition es_float :: "pyfloat \<Rightarrow> ustr res" where
  "es_float x =
     (case x of
        FFin s m e \<Rightarrow> if m = 0 then Inr (U ''0'') else Inr ((if s then U ''-'' else []) @ es_layout (float_repr (FFin False m e)))
      | _ \<Rightarrow> Inl ValueError)"

definition es_number :: "py \<Rightarrow> ustr res" where
  "es_number v =
     (case v of
        PyInt i \<Rightarrow> if 2 ^ 53 < \<bar>i\<bar> then bnd (float_of_int i) es_float else Inr (int_dec i)
      | PyFloat x \<Rightarrow> es_float x
      | _ \<Rightarrow> Inl TypeError)"

fun war_enc :: "py \<Rightarrow> ustr res" where
  "war_enc PyNone = Inr (U ''null'')"
| "war_enc (PyBool b) = Inr (if b then U ''true'' else U ''false'')"
| "war_enc (PyInt i) = es_number (PyInt i)"
| "war_enc (PyFloat x) = es_number (PyFloat x)"
| "war_enc (PyStr s) = Inr (json_str False s)"
| "war_enc (PyList xs) = bnd (map_r war_enc xs) (\<lambda>ts. Inr ([91] @ join [44] ts @ [93]))"
| "war_enc (PyDict d) =
     bnd (map_r (\<lambda>kr. bnd (utf16_be (fst kr)) (\<lambda>b. Inr (b, kr))) (map (\<lambda>kv. (fst kv, war_enc (snd kv))) d)) (\<lambda>keyed.
     bnd (map_r (\<lambda>x. bnd (snd (snd x)) (\<lambda>t. Inr (json_str False (fst (snd x)) @ [58] @ t))) (sort_key fst keyed)) (\<lambda>ps.
       Inr ([123] @ join [44] ps @ [125])))"

definition war_jcs :: "py \<Rightarrow> bytes res" where
  "war_jcs v = bnd (war_enc v) utf8"

section \<open>DER\<close>

text \<open>\<^verbatim>\<open>_tlv(b, i)\<close>: the tag, the content, cut at the end of the bytes, and where the next element starts. Reading a byte past the end raises.\<close>

definition der_tlv :: "bytes \<Rightarrow> nat \<Rightarrow> (nat \<times> bytes \<times> nat) res" where
  "der_tlv b i =
     (if length b \<le> i + 1 then Inl IndexError
      else
        let tag = unat (b ! i); ln0 = unat (b ! (i + 1)); i2 = i + 2;
            n = ln0 mod 128;
            (ln, i3) = (if 128 \<le> ln0 then (nat (int_of_be (take n (drop i2 b))), i2 + n) else (ln0, i2))
        in Inr (tag, take ln (drop i3 b), i3 + ln))"

lemma der_tlv_next: "der_tlv b i = Inr (t, v, j) \<Longrightarrow> i + 2 \<le> j \<and> i + 1 < length b"
  by (auto simp: der_tlv_def Let_def split: if_splits)

function der_children :: "bytes \<Rightarrow> nat \<Rightarrow> (nat \<times> bytes) list res" where
  "der_children b i =
     (if length b \<le> i then Inr []
      else bnd (der_tlv b i) (\<lambda>(t, v, j). bnd (der_children b j) (\<lambda>kids. Inr ((t, v) # kids))))"
  by pat_completeness auto
termination
  by (relation "measure (\<lambda>(b, i). length b - i)") (auto dest: der_tlv_next)

declare der_children.simps [simp del]

abbreviation children :: "bytes \<Rightarrow> (nat \<times> bytes) list res" where
  "children b \<equiv> der_children b 0"

fun oid_parts :: "nat \<Rightarrow> bytes \<Rightarrow> nat list" where
  "oid_parts n [] = []"
| "oid_parts n (x # xs) =
     (let n' = n * 128 + unat x mod 128 in if unat x < 128 then n' # oid_parts 0 xs else oid_parts n' xs)"

definition der_oid :: "bytes \<Rightarrow> ustr res" where
  "der_oid v =
     (case oid_parts 0 v of
        [] \<Rightarrow> Inl IndexError
      | first # parts \<Rightarrow>
          let a = min (first div 40) 2 in Inr (join [46] (map nat_dec ([a, first - 40 * a] @ parts))))"

definition oid_tstinfo :: ustr where
  "oid_tstinfo = U ''1.2.840.113549.1.9.16.1.4''"

definition oid_sha256 :: ustr where
  "oid_sha256 = U ''2.16.840.1.101.3.4.2.1''"

definition first_child :: "(nat \<times> bytes) list \<Rightarrow> (nat \<times> bytes) res" where
  "first_child kids = (case kids of [] \<Rightarrow> Inl IndexError | k # _ \<Rightarrow> Inr k)"

text \<open>The inner loop over the children: the content found, or the stack with the containers pushed.\<close>

definition is_container :: "nat \<times> bytes \<Rightarrow> bool" where
  "is_container k = (fst k \<in> {0x30, 0x31, 0xA0, 0xA1, 0xA2, 0xA3} \<or> (fst k = 4 \<and> take 1 (snd k) = [0x30]))"

fun scan_kids :: "(nat \<times> bytes) list \<Rightarrow> bytes list \<Rightarrow> (bytes + bytes list) res" where
  "scan_kids [] stack = Inr (Inr stack)"
| "scan_kids ((t, v) # rest) stack =
     bnd (if t = 6 then bnd (der_oid v) (\<lambda>o'. Inr (o' = oid_tstinfo)) else Inr False) (\<lambda>is_tst.
     if is_tst \<and> rest \<noteq> [] \<and> fst (hd rest) = 0xA0 then
       bnd (bnd (children (snd (hd rest))) first_child) (\<lambda>k. Inr (Inl (snd k)))
     else scan_kids rest (if is_container (t, v) then v # stack else stack))"

fun find_loop :: "nat \<Rightarrow> bytes list \<Rightarrow> bytes option res" where
  "find_loop fuel [] = Inr None"
| "find_loop 0 (cur # stack) = Inl OutOfFuel"
| "find_loop (Suc fuel) (cur # stack) =
     (case children cur of
        Inl _ \<Rightarrow> find_loop fuel stack
      | Inr kids \<Rightarrow>
          bnd (scan_kids kids stack) (\<lambda>r. case r of Inl found \<Rightarrow> Inr (Some found) | Inr stack' \<Rightarrow> find_loop fuel stack'))"

definition find_tstinfo :: "bytes \<Rightarrow> bytes option res" where
  "find_tstinfo b = find_loop (length b + 1) [b]"

section \<open>Time-stamp tokens\<close>

datatype tok = NoToken | NonCanonical | Token ustr ustr ustr rat

definition nth_r :: "'a list \<Rightarrow> nat \<Rightarrow> 'a res" where
  "nth_r xs i = (if i < length xs then Inr (xs ! i) else Inl IndexError)"

definition accuracy :: "(nat \<times> bytes) list \<Rightarrow> rat" where
  "accuracy kids =
     sum_list (map (\<lambda>(t, v). (if t = 0x02 then 1 else if t = 0x80 then 1 / 1000 else if t = 0x81 then 1 / 10 ^ 6 else 0) * of_int (int_of_be v)) kids)"

definition tst_fields :: "bytes \<Rightarrow> tok res" where
  "tst_fields info =
     bnd (children info) (\<lambda>f0.
     bnd (if length f0 = 1 \<and> fst (hd f0) = 0x30 then children (snd (hd f0)) else Inr f0) (\<lambda>f.
     bnd (bnd (nth_r f 2) (\<lambda>k. children (snd k))) (\<lambda>mi.
     bnd (bnd (bnd (nth_r mi 0) (\<lambda>k. children (snd k))) (\<lambda>ks. bnd (nth_r ks 0) (\<lambda>k. der_oid (snd k)))) (\<lambda>alg.
     let gi = length (takeWhile (\<lambda>k. fst k \<noteq> 0x18) f) in
     if length f \<le> gi then Inl StopIteration
     else
       let gen = map unat (snd (f ! gi)) in
       bnd (if gi + 1 < length f \<and> fst (f ! (gi + 1)) = 0x30 then bnd (children (snd (f ! (gi + 1)))) (\<lambda>ks. Inr (accuracy ks)) else Inr 0) (\<lambda>acc.
       bnd (nth_r mi 1) (\<lambda>k. Inr (Token alg (hex_of (snd k)) gen acc)))))))"

definition tst :: "py \<Rightarrow> tok res" where
  "tst token =
     (if \<not> truthy token then Inr NoToken
      else
        case b64c token of
          None \<Rightarrow> Inr NonCanonical
        | Some raw \<Rightarrow> bnd (find_tstinfo raw) (\<lambda>r. case r of None \<Rightarrow> Inr NoToken | Some info \<Rightarrow> tst_fields info))"

section \<open>The walk ends\<close>

abbreviation weight :: "bytes list \<Rightarrow> nat" where
  "weight bs \<equiv> sum_list (map (\<lambda>b. length b + 1) bs)"

lemma der_tlv_content:
  assumes "der_tlv b i = Inr (t, v, j)"
  shows "length v + 1 + (length b - j) \<le> length b - i"
proof -
  obtain i3 ln where v: "v = take ln (drop i3 b)" "j = i3 + ln" "i + 2 \<le> i3" and i: "i + 1 < length b"
    using assms by (auto simp: der_tlv_def Let_def split: if_splits)
  then show ?thesis by auto
qed

text \<open>The contents of the elements, with one byte each for their headers, fit in the bytes read.\<close>

lemma children_weight: "der_children b i = Inr kids \<Longrightarrow> weight (map snd kids) \<le> length b - i"
proof (induction b i arbitrary: kids rule: der_children.induct)
  case (1 b i)
  show ?case
  proof (cases "length b \<le> i")
    case True
    then show ?thesis using 1(2) by (simp add: der_children.simps)
  next
    case False
    then obtain t v j rest where t: "der_tlv b i = Inr (t, v, j)" "der_children b j = Inr rest" "kids = (t, v) # rest"
      using 1(2) by (auto simp: der_children.simps [of b i])
    have "weight (map snd rest) \<le> length b - j" using 1(1) [OF False] t by simp
    with der_tlv_content [OF t(1)] t(3) show ?thesis by simp
  qed
qed

lemma der_tlv_error: "der_tlv b i = Inl e \<Longrightarrow> e = IndexError"
  by (auto simp: der_tlv_def Let_def split: if_splits prod.splits)

lemma children_error: "der_children b i = Inl e \<Longrightarrow> e = IndexError"
proof (induction b i rule: der_children.induct)
  case (1 b i)
  then show ?case by (auto simp: der_children.simps [of b i] bnd_eq_Inl dest: der_tlv_error split: if_splits)
qed

lemma der_oid_error: "der_oid v = Inl e \<Longrightarrow> e = IndexError"
  by (auto simp: der_oid_def Let_def split: list.splits)

lemma first_child_error: "bnd (der_children b i) first_child = Inl e \<Longrightarrow> e = IndexError"
  by (cases "der_children b i") (auto simp: first_child_def dest: children_error split: list.splits)

text \<open>One step of the inner loop: it raises, finds the content, or goes on with the container pushed.\<close>

lemma scan_kids_step:
  "(\<exists>e. scan_kids ((t, v) # rest) stack = Inl e \<and> e = IndexError) \<or>
   (\<exists>found. scan_kids ((t, v) # rest) stack = Inr (Inl found)) \<or>
   scan_kids ((t, v) # rest) stack = scan_kids rest (if is_container (t, v) then v # stack else stack)"
proof (cases "if t = 6 then bnd (der_oid v) (\<lambda>o'. Inr (o' = oid_tstinfo)) else Inr False")
  case (Inl e)
  then have "e = IndexError" using der_oid_error by (auto simp: bnd_eq_Inl split: if_splits)
  with Inl show ?thesis by simp
next
  case (Inr is_tst)
  show ?thesis
  proof (cases "is_tst \<and> rest \<noteq> [] \<and> fst (hd rest) = 0xA0")
    case True
    show ?thesis
    proof (cases "bnd (children (snd (hd rest))) first_child")
      case e: (Inl e)
      then have "e = IndexError" by (rule first_child_error)
      with e Inr True show ?thesis by simp
    next
      case k: (Inr k)
      have "scan_kids ((t, v) # rest) stack = Inr (Inl (snd k))" unfolding scan_kids.simps Inr bnd_Inr k using True by simp
      then show ?thesis by blast
    qed
  next
    case False
    have "scan_kids ((t, v) # rest) stack = scan_kids rest (if is_container (t, v) then v # stack else stack)"
      unfolding scan_kids.simps Inr bnd_Inr if_not_P [OF False] ..
    then show ?thesis by blast
  qed
qed

declare scan_kids.simps(2) [simp del]

lemma scan_kids_error: "scan_kids kids stack = Inl e \<Longrightarrow> e = IndexError"
proof (induction kids arbitrary: stack)
  case (Cons k kids)
  then show ?case using scan_kids_step [of "fst k" "snd k" kids stack] by fastforce
qed simp

lemma scan_kids_weight: "scan_kids kids stack = Inr (Inr stack') \<Longrightarrow> weight stack' \<le> weight (map snd kids) + weight stack"
proof (induction kids arbitrary: stack)
  case (Cons k kids)
  let ?s = "if is_container (fst k, snd k) then snd k # stack else stack"
  have "scan_kids kids ?s = Inr (Inr stack')"
    using scan_kids_step [of "fst k" "snd k" kids stack] Cons.prems by (auto split del: if_split)
  from Cons.IH [OF this] show ?case by (auto split: if_splits)
qed simp

lemma find_loop_fuel: "weight stack \<le> fuel \<Longrightarrow> find_loop fuel stack \<noteq> Inl OutOfFuel"
proof (induction fuel stack rule: find_loop.induct)
  case (3 fuel cur stack)
  show ?case
  proof (cases "children cur")
    case (Inl e)
    then show ?thesis using 3 by simp
  next
    case (Inr kids)
    show ?thesis
    proof (cases "scan_kids kids stack")
      case s: (Inl e)
      then have "e = IndexError" by (rule scan_kids_error)
      with s Inr show ?thesis by simp
    next
      case s: (Inr r)
      show ?thesis
      proof (cases r)
        case (Inr stack')
        then have "weight stack' \<le> weight (map snd kids) + weight stack" using s scan_kids_weight by blast
        moreover have "weight (map snd kids) \<le> length cur" using children_weight [OF \<open>children cur = Inr kids\<close>] by simp
        ultimately show ?thesis using 3 s Inr \<open>children cur = Inr kids\<close> by simp
      qed (use s Inr in simp)
    qed
  qed
qed simp_all

text \<open>C32. The search for the time-stamp content ends on every input within as many steps as the token has bytes and one more: the containers it
  pushes are, with their headers, no longer than the element they come from.\<close>

theorem find_tstinfo_terminates: "find_tstinfo b \<noteq> Inl OutOfFuel"
  unfolding find_tstinfo_def by (rule find_loop_fuel) simp

section \<open>The same canonical text\<close>

lemma war_enc_jcs: "jcs_plain v \<Longrightarrow> war_enc v = jcs v"
proof (induction v)
  case (PyInt i)
  then show ?case by (simp add: es_number_def js_number_def)
next
  case (PyList xs)
  then have "map_r war_enc xs = map_r jcs xs" by (intro map_r_cong) (auto simp: list_all_iff)
  then show ?case by simp
next
  case (PyDict d)
  then have "map (\<lambda>kv. (fst kv, war_enc (snd kv))) d = map (\<lambda>kv. (fst kv, jcs (snd kv))) d"
    by (auto simp: list_all_iff)
  then show ?case unfolding war_enc.simps jcs.simps js_string_json by (simp only:)
qed (simp_all add: js_string_json)


end
