(* ===== verification/War.thy ===== *)
theory War
  imports WarToken
begin

text \<open>
  \<^verbatim>\<open>check\<close> of \<^verbatim>\<open>examples/work-acceptance-record-cold/war_check.py\<close>: the twelve steps of the profile on a record and its inputs. The CMS signature
  of a time-stamp token is checked by \<^verbatim>\<open>tsa_sig.py\<close> through the \<^verbatim>\<open>cryptography\<close> package and is an argument, as are \<^verbatim>\<open>str.casefold\<close> and the
  rule of the environment variable \<^verbatim>\<open>WAR_REF_RULE\<close>.
\<close>

datatype problem =
    KEY_REJECTED | SIGNATURE_INVALID | CHECKER_NOT_SIGNER | CRITERIA_HASH_MISMATCH | CRITERIA_RESULTS_MISMATCH | CRITERIA_TIME_MISMATCH
  | CRITERIA_TIMESTAMP_MISMATCH | RECEIPT_TIME_UNREADABLE | CRITERIA_COMMITTED_AFTER_CHECK | KEY_COLLISION | INDEPENDENCE_INCONSISTENT
  | RESULT_VOCABULARY | VERDICT_MISMATCH

datatype warning = CRITERIA_COMMITMENT_UNVERIFIED | SELF_CHECKED | PRODUCER_UNDECLARED

record war_env =
  w_ucd :: ucd
  w_casefold :: "ustr \<Rightarrow> ustr"
  w_tsa :: "bytes \<Rightarrow> bytes list \<Rightarrow> string res"
  w_earlier :: bool

section \<open>Types\<close>

definition str_or_none :: "py \<Rightarrow> bool" where
  "str_or_none v = (v = PyNone \<or> is_str v)"

definition the_d :: "py \<Rightarrow> pydict" where
  "the_d v = (case v of PyDict d \<Rightarrow> d | _ \<Rightarrow> [])"

definition party_ok :: "pydict \<Rightarrow> bool" where
  "party_ok p = (str_or_none (dget p ''name'') \<and> str_or_none (dget p ''key_id''))"

definition result_ok :: "py \<Rightarrow> bool" where
  "result_ok x = (case x of PyDict d \<Rightarrow> is_str (dget d ''id'') \<and> is_str (dget d ''result'') | _ \<Rightarrow> False)"

definition key_entry_ok :: "py \<Rightarrow> bool" where
  "key_entry_ok k = (case k of PyDict d \<Rightarrow> is_str (dget d ''key_id'') \<and> is_str (dget d ''public_key_base64'') | _ \<Rightarrow> False)"

definition all_in :: "(py \<Rightarrow> bool) \<Rightarrow> py \<Rightarrow> bool" where
  "all_in f v = (case v of PyList xs \<Rightarrow> list_all f xs | _ \<Rightarrow> False)"

definition record_types_ok :: "pydict \<Rightarrow> pydict \<Rightarrow> pydict \<Rightarrow> bool" where
  "record_types_ok inputs rec r =
     (is_dict (dget rec ''signature'') \<and>
      is_str (dget (the_d (dget rec ''signature'')) ''value'') \<and> is_str (dget (the_d (dget rec ''signature'')) ''key_id'') \<and>
      is_str (dget r ''key_id'') \<and> is_str (dget r ''issued_utc'') \<and>
      is_dict (dget r ''parties'') \<and> is_dict (dget (the_d (dget r ''parties'')) ''checker'') \<and>
      (dget (the_d (dget r ''parties'')) ''producer'' = PyNone \<or> is_dict (dget (the_d (dget r ''parties'')) ''producer'')) \<and>
      party_ok (the_d (dget (the_d (dget r ''parties'')) ''checker'')) \<and> party_ok (the_d (dget (the_d (dget r ''parties'')) ''producer'')) \<and>
      is_dict (dget r ''criteria'') \<and> is_str (dget (the_d (dget r ''criteria'')) ''sha256'') \<and>
      str_or_none (dget (the_d (dget r ''criteria'')) ''committed_at'') \<and>
      all_in result_ok (dget r ''results'') \<and>
      is_dict (dget inputs ''keys'') \<and> all_in key_entry_ok (dget (the_d (dget inputs ''keys'')) ''keys''))"

definition types_ok :: "py \<Rightarrow> bool" where
  "types_ok v =
     (case v of
        PyDict inputs \<Rightarrow>
          (case dget inputs ''receipt'' of
             PyDict rec \<Rightarrow> (case dget rec ''receipt'' of PyDict r \<Rightarrow> record_types_ok inputs rec r | _ \<Rightarrow> False)
           | _ \<Rightarrow> False)
      | _ \<Rightarrow> False)"

section \<open>Keys and the signature\<close>

definition text_of :: "py \<Rightarrow> ustr" where
  "text_of v = (case v of PyStr s \<Rightarrow> s | _ \<Rightarrow> [])"

definition list_of :: "py \<Rightarrow> py list" where
  "list_of v = (case v of PyList xs \<Rightarrow> xs | _ \<Rightarrow> [])"

type_synonym keydict = "(ustr \<times> bytes option) list"

definition key_ids :: "pydict \<Rightarrow> ustr list" where
  "key_ids inputs = map (\<lambda>k. text_of (dget (the_d k) ''key_id'')) (list_of (dget (the_d (dget inputs ''keys'')) ''keys''))"

text \<open>The first entry of a key id counts: \<^verbatim>\<open>map_of\<close> finds it.\<close>

definition key_dec :: "pydict \<Rightarrow> keydict" where
  "key_dec inputs =
     map (\<lambda>k. (text_of (dget (the_d k) ''key_id''), b64c (dget (the_d k) ''public_key_base64'')))
       (list_of (dget (the_d (dget inputs ''keys'')) ''keys''))"

definition dup_ids :: "ustr list \<Rightarrow> ustr list" where
  "dup_ids ids = filter (\<lambda>i. 1 < count_list ids i) ids"

definition signature_step :: "pydict \<Rightarrow> pydict \<Rightarrow> ustr list \<Rightarrow> keydict \<Rightarrow> (bool \<times> problem list) res" where
  "signature_step rec r ids dec =
     (let skid = text_of (dget r ''key_id''); sg = the_d (dget rec ''signature'') in
      if skid \<in> set (dup_ids ids) \<or> map_of dec skid = Some None then Inr (False, [KEY_REJECTED])
      else
        case map_of dec skid of
          Some (Some pub) \<Rightarrow>
            if \<not> ref_key_ok pub then Inr (False, [KEY_REJECTED])
            else
              bnd (case b64c (dget sg ''value'') of
                     None \<Rightarrow> Inr False
                   | Some sig \<Rightarrow>
                       if pub \<noteq> [] \<and> length sig = 64 \<and> dget sg ''key_id'' = PyStr skid
                       then bnd (war_jcs (PyDict r)) (\<lambda>m. ref_verify pub m sig) else Inr False) (\<lambda>ok.
                Inr (ok, if ok then [] else [SIGNATURE_INVALID]))
        | _ \<Rightarrow> Inr (False, [SIGNATURE_INVALID]))"

section \<open>Criteria\<close>

datatype crit_hash = Match bytes | Mismatch | Absent

definition criteria_hash :: "pydict \<Rightarrow> pydict \<Rightarrow> crit_hash" where
  "criteria_hash inputs r =
     (let v = dget inputs ''criteria_file_base64'' in
      if truthy v then
        (case b64c v of
           Some cb \<Rightarrow> if PyStr (sha256_hex cb) = dget (the_d (dget r ''criteria'')) ''sha256'' then Match cb else Mismatch
         | None \<Rightarrow> Mismatch)
      else Absent)"

text \<open>A dictionary keyed by values: a later item replaces an equal key's value.\<close>

fun kput :: "(py \<times> bool) list \<Rightarrow> py \<Rightarrow> bool \<Rightarrow> (py \<times> bool) list" where
  "kput [] k v = [(k, v)]"
| "kput ((k', v') # d) k v = (if py_eq k k' then (k', v) # d else (k', v') # kput d k v)"

definition kdict :: "(py \<times> bool) list \<Rightarrow> (py \<times> bool) list" where
  "kdict kvs = foldl (\<lambda>d kv. kput d (fst kv) (snd kv)) [] kvs"

definition kdict_eq :: "(py \<times> bool) list \<Rightarrow> (py \<times> bool) list \<Rightarrow> bool" where
  "kdict_eq a b = (length a = length b \<and> list_all (\<lambda>x. list_ex (\<lambda>y. py_eq (fst x) (fst y) \<and> snd x = snd y) b) a)"

definition criterion :: "py \<Rightarrow> (py \<times> bool) res" where
  "criterion c =
     bnd (py_item c ''id'') (\<lambda>i.
     bnd (py_get c ''required'') (\<lambda>req. if hashable i then Inr (i, truthy req) else Inl TypeError))"

definition read_criteria :: "bytes \<Rightarrow> (py \<times> bool) list option" where
  "read_criteria cb =
     (case bnd (json_loads_bytes cb) (\<lambda>doc. bnd (py_item doc ''criteria'') (\<lambda>cs. bnd (py_iter cs) (map_r criterion))) of
        Inl _ \<Rightarrow> None
      | Inr kvs \<Rightarrow> Some (kdict kvs))"

definition stated_criteria :: "pydict \<Rightarrow> (py \<times> bool) list" where
  "stated_criteria r = kdict (map (\<lambda>x. (dget (the_d x) ''id'', truthy (dget (the_d x) ''required''))) (list_of (dget r ''results'')))"

definition criteria_problems :: "crit_hash \<Rightarrow> pydict \<Rightarrow> problem list" where
  "criteria_problems h r =
     (case h of
        Absent \<Rightarrow> []
      | Mismatch \<Rightarrow> [CRITERIA_HASH_MISMATCH]
      | Match cb \<Rightarrow>
          (case read_criteria cb of
             None \<Rightarrow> [CRITERIA_RESULTS_MISMATCH]
           | Some crit \<Rightarrow> if kdict_eq (stated_criteria r) crit then [] else [CRITERIA_RESULTS_MISMATCH]))"

section \<open>Time stamps\<close>

datatype stamp = NoStamp | ImprintMatch | ImprintMismatch

definition receipt_stamp :: "pydict \<Rightarrow> tok \<Rightarrow> stamp res" where
  "receipt_stamp r rt =
     (case rt of
        NoToken \<Rightarrow> Inr NoStamp
      | NonCanonical \<Rightarrow> Inr ImprintMismatch
      | Token alg imprint gen acc \<Rightarrow>
          if alg \<noteq> oid_sha256 then Inr ImprintMismatch
          else bnd (war_jcs (PyDict r)) (\<lambda>b. Inr (if imprint = sha256_hex b then ImprintMatch else ImprintMismatch)))"

definition tsa_of :: "war_env \<Rightarrow> bytes list \<Rightarrow> py \<Rightarrow> string option res" where
  "tsa_of w anchors token =
     (if \<not> truthy token then Inr None
      else
        case b64c token of
          None \<Rightarrow> Inr (Some (if anchors \<noteq> [] then ''failed'' else ''not_evaluated''))
        | Some raw \<Rightarrow>
            bnd (w_tsa w raw anchors) (\<lambda>v.
            bnd (tst token) (\<lambda>t.
              Inr (Some (case t of
                  Token alg imprint gen acc \<Rightarrow> if anchors \<noteq> [] \<and> gen_time (w_ucd w) gen = None then ''failed'' else v
                | _ \<Rightarrow> v)))))"

text \<open>A usable criteria token: its time and its accuracy.\<close>

definition usable :: "war_env \<Rightarrow> pydict \<Rightarrow> tok \<Rightarrow> (rat \<times> rat) option" where
  "usable w r ct =
     (case ct of
        Token alg imprint gen acc \<Rightarrow>
          if alg = oid_sha256 \<and> PyStr imprint = dget (the_d (dget r ''criteria'')) ''sha256''
          then map_option (\<lambda>t. (t, acc)) (gen_time (w_ucd w) gen) else None
      | _ \<Rightarrow> None)"

definition imprint_other :: "pydict \<Rightarrow> tok \<Rightarrow> bool" where
  "imprint_other r ct =
     (case ct of
        NoToken \<Rightarrow> False
      | NonCanonical \<Rightarrow> True
      | Token alg imprint gen acc \<Rightarrow> \<not> (alg = oid_sha256 \<and> PyStr imprint = dget (the_d (dget r ''criteria'')) ''sha256''))"

text \<open>The commitment time in milliseconds, if it can be read, with the problems and warnings on the way.\<close>

definition commitment_step :: "war_env \<Rightarrow> pydict \<Rightarrow> tok \<Rightarrow> rat option \<times> problem list \<times> warning list" where
  "commitment_step w r ct =
     (let stated = rfc_time (w_ucd w) (dget (the_d (dget r ''criteria'')) ''committed_at'') in
      case usable w r ct of
        Some (tc, acc) \<Rightarrow>
          (Some (of_int (ms_up tc) + acc * 1000),
           if (case stated of None \<Rightarrow> True | Some t \<Rightarrow> \<lfloor>t\<rfloor> \<noteq> \<lfloor>tc\<rfloor>) then [CRITERIA_TIME_MISMATCH] else [], [])
      | None \<Rightarrow>
          (map_option (\<lambda>t. of_int (ms_up t)) stated,
           if imprint_other r ct then [CRITERIA_TIMESTAMP_MISMATCH] else [], [CRITERIA_COMMITMENT_UNVERIFIED]))"

definition reference_ms :: "war_env \<Rightarrow> pydict \<Rightarrow> stamp \<Rightarrow> tok \<Rightarrow> int option" where
  "reference_ms w r stamp rt =
     (case rfc_time (w_ucd w) (dget r ''issued_utc'') of
        None \<Rightarrow> None
      | Some issued \<Rightarrow>
          Some (case rt of
              Token alg imprint gen acc \<Rightarrow>
                (case gen_time (w_ucd w) gen of
                   Some g \<Rightarrow>
                     if stamp = ImprintMatch then
                       (let tr = ms_down (g - acc) in if w_earlier w then min (ms_down issued) tr else tr)
                     else ms_down issued
                 | None \<Rightarrow> ms_down issued)
            | _ \<Rightarrow> ms_down issued))"

definition precedence :: "rat option \<Rightarrow> int option \<Rightarrow> bool \<times> problem list" where
  "precedence crit_ms ref_ms =
     (case (crit_ms, ref_ms) of
        (Some c, Some t) \<Rightarrow> if c < of_int t then (True, []) else (False, [CRITERIA_COMMITTED_AFTER_CHECK])
      | _ \<Rightarrow> (False, [RECEIPT_TIME_UNREADABLE]))"

section \<open>Independence\<close>

definition name_of :: "war_env \<Rightarrow> py \<Rightarrow> ustr option" where
  "name_of w x =
     (if x = PyNone \<or> x = PyBool False \<or> (is_num x \<and> \<not> is_bool x \<and> py_eq x (PyInt 0)) \<or> py_in x [PyStr [], PyList [], PyDict []] then None
      else case x of PyStr s \<Rightarrow> Some (w_casefold w (strip (w_ucd w) s)) | _ \<Rightarrow> Some (py_repr (w_ucd w) x))"

definition kid_unreadable :: "keydict \<Rightarrow> py \<Rightarrow> bool" where
  "kid_unreadable dec kid = (case kid of PyStr s \<Rightarrow> map_of dec s = Some None | _ \<Rightarrow> False)"

definition kid_in :: "ustr list \<Rightarrow> py \<Rightarrow> bool" where
  "kid_in ids kid = (case kid of PyStr s \<Rightarrow> s \<in> set ids | _ \<Rightarrow> False)"

definition kid_key :: "keydict \<Rightarrow> py \<Rightarrow> bytes option" where
  "kid_key dec kid = (case kid of PyStr s \<Rightarrow> (case map_of dec s of Some (Some b) \<Rightarrow> Some b | _ \<Rightarrow> None) | _ \<Rightarrow> None)"

definition keys_collide :: "keydict \<Rightarrow> py \<Rightarrow> py \<Rightarrow> bool" where
  "keys_collide dec pk ck = (pk \<noteq> PyNone \<and> (py_eq pk ck \<or> (kid_key dec pk \<noteq> None \<and> kid_key dec pk = kid_key dec ck)))"

definition kid_not_once :: "ustr list \<Rightarrow> py \<Rightarrow> bool" where
  "kid_not_once ids kid = (case kid of PyStr s \<Rightarrow> s = [] \<or> count_list ids s \<noteq> 1 | _ \<Rightarrow> kid \<noteq> PyNone)"

definition relying_rule :: "pydict \<Rightarrow> keydict \<Rightarrow> bool \<Rightarrow> py \<Rightarrow> bool res" where
  "relying_rule inputs dec claim_ind pk =
     (case dget inputs ''relying_party_keys'' of
        PyDict rpk \<Rightarrow>
          if claim_ind \<and> pk \<noteq> PyNone then
            bnd (py_iter (dget_default rpk ''keys'' (PyList []))) (\<lambda>ks.
              Inr (case kid_key dec pk of
                  None \<Rightarrow> True
                | Some b \<Rightarrow> Some b \<notin> set (map (\<lambda>k. b64c (dget_default (the_d k) ''public_key_base64'' (PyStr []))) (filter is_dict ks))))
          else Inr False
      | _ \<Rightarrow> Inr False)"

definition derived_independence :: "ustr option \<Rightarrow> ustr option \<Rightarrow> bool \<Rightarrow> bool \<Rightarrow> string" where
  "derived_independence pn cn collide key_rule =
     (if pn = None \<or> pn = Some (U ''unspecified'') \<or> pn = Some (U ''unknown'') then ''undeclared''
      else if pn = cn \<or> collide \<or> key_rule then ''self-checked'' else ''independent'')"

definition independence_step :: "war_env \<Rightarrow> pydict \<Rightarrow> pydict \<Rightarrow> ustr list \<Rightarrow> keydict \<Rightarrow> (problem list \<times> warning list) res" where
  "independence_step w inputs r ids dec =
     (let parties = the_d (dget r ''parties'');
          checker = the_d (dget parties ''checker'');
          producer = the_d (dget parties ''producer'');
          pk = dget producer ''key_id''; ck = dget checker ''key_id'';
          unreadable = kid_unreadable dec pk \<or> kid_unreadable dec ck;
          by_key = unreadable \<or> kid_in (dup_ids ids) pk \<or> kid_in (dup_ids ids) ck;
          collide = keys_collide dec pk ck;
          stated = dget r ''independence'';
          claim_ind = py_eq stated (S ''independent'');
          rule0 = by_key \<or> (claim_ind \<and> (kid_not_once ids pk \<or> kid_not_once ids ck))
      in
      bnd (relying_rule inputs dec claim_ind pk) (\<lambda>rule1.
        let derived = derived_independence (name_of w (dget producer ''name'')) (name_of w (dget checker ''name'')) collide (rule0 \<or> rule1)
        in Inr ((if unreadable then [KEY_REJECTED] else []) @ (if collide then [KEY_COLLISION] else []) @
                (if \<not> py_eq (S derived) stated then [INDEPENDENCE_INCONSISTENT] else []),
                (if py_eq stated (S ''self-checked'') then [SELF_CHECKED] else []) @ (if derived = ''undeclared'' then [PRODUCER_UNDECLARED] else []))))"

section \<open>The verdict\<close>

definition results_vocabulary :: "py list" where
  "results_vocabulary = [S ''pass'', S ''fail'', S ''not-evaluated'', S ''error'']"

definition verdict_recomputed :: "pydict \<Rightarrow> string" where
  "verdict_recomputed r =
     (let req = map (\<lambda>x. dget (the_d x) ''result'') (filter (\<lambda>x. truthy (dget (the_d x) ''required'')) (list_of (dget r ''results'')))
      in if S ''fail'' \<in> set req then ''fail'' else if list_all (\<lambda>x. x = S ''pass'') req then ''pass'' else ''incomplete'')"

definition verdict_problems :: "pydict \<Rightarrow> problem list" where
  "verdict_problems r =
     (if list_ex (\<lambda>x. dget (the_d x) ''result'' \<notin> set results_vocabulary) (list_of (dget r ''results'')) then [RESULT_VOCABULARY] else []) @
     (if \<not> py_eq (S (verdict_recomputed r)) (dget r ''verdict'') then [VERDICT_MISMATCH] else [])"

section \<open>The check\<close>

record war_out =
  wo_problems :: "problem list"
  wo_warnings :: "warning list"
  wo_signature_valid :: bool
  wo_criteria_hash :: crit_hash
  wo_receipt_timestamp :: stamp
  wo_tsa :: "string option \<times> string option"
  wo_times :: "rat option \<times> int option"
  wo_before :: bool
  wo_independence :: py
  wo_verdict :: string
  wo_stated :: py

datatype war_result = Refused | Checked war_out

text \<open>A code is listed once, where it was first reported.\<close>

fun listed :: "'a list \<Rightarrow> 'a list \<Rightarrow> 'a list" where
  "listed out [] = out"
| "listed out (c # cs) = listed (if c \<in> set out then out else out @ [c]) cs"

definition known_profile :: "pydict \<Rightarrow> bool res" where
  "known_profile r =
     (let s = dget r ''schema'' in
      if \<not> hashable s then Inl TypeError
      else Inr (py_eq s (S ''trilatic.acceptance-receipt/1.2'') \<and> py_eq (dget r ''canonicalization'') (S ''JCS-RFC8785'') \<and>
                py_eq (dget r ''suite'') (PyDict [(U ''digest'', S ''sha-256''), (U ''signature'', S ''Ed25519'')])))"

definition check_record :: "war_env \<Rightarrow> pydict \<Rightarrow> pydict \<Rightarrow> pydict \<Rightarrow> war_out res" where
  "check_record w inputs rec r =
     (let ids = key_ids inputs; dec = key_dec inputs in
      bnd (signature_step rec r ids dec) (\<lambda>(sig_ok, p2).
      let checker = the_d (dget (the_d (dget r ''parties'')) ''checker'');
          p3 = (if dget checker ''key_id'' \<noteq> dget r ''key_id'' then [CHECKER_NOT_SIGNER] else []);
          ch = criteria_hash inputs r
      in
      bnd (tst (dget inputs ''receipt_tsr_base64'')) (\<lambda>rt.
      bnd (receipt_stamp r rt) (\<lambda>stamp.
      bnd (tst (dget inputs ''criteria_tsr_base64'')) (\<lambda>ct.
      bnd (bnd (py_iter (py_or (dget inputs ''tsa_roots_base64'') (PyList []))) (map_r b64decode)) (\<lambda>anchors.
      bnd (tsa_of w anchors (dget inputs ''criteria_tsr_base64'')) (\<lambda>tsa_c.
      bnd (tsa_of w anchors (dget inputs ''receipt_tsr_base64'')) (\<lambda>tsa_r.
      let (crit_ms, p5, w5) = commitment_step w r ct;
          ref_ms = reference_ms w r stamp rt;
          (before_check, p5') = precedence crit_ms ref_ms
      in
      bnd (independence_step w inputs r ids dec) (\<lambda>(p8, w8).
        Inr \<lparr> wo_problems = listed [] ((if dup_ids ids \<noteq> [] then [KEY_REJECTED] else []) @ p2 @ p3 @ criteria_problems ch r @ p5 @ p5' @ p8 @
                verdict_problems r),
              wo_warnings = listed [] (w5 @ w8), wo_signature_valid = sig_ok, wo_criteria_hash = ch, wo_receipt_timestamp = stamp,
              wo_tsa = (tsa_c, tsa_r), wo_times = (crit_ms, ref_ms), wo_before = before_check, wo_independence = dget r ''independence'',
              wo_verdict = verdict_recomputed r, wo_stated = dget r ''verdict'' \<rparr>)))))))))"

definition war_check :: "war_env \<Rightarrow> py \<Rightarrow> war_result res" where
  "war_check w v =
     (if \<not> types_ok v then Inr Refused
      else
        let inputs = the_d v; rec = the_d (dget inputs ''receipt''); r = the_d (dget rec ''receipt'') in
        bnd (known_profile r) (\<lambda>known.
        if \<not> known then Inr Refused else bnd (check_record w inputs rec r) (\<lambda>out. Inr (Checked out))))"

section \<open>A record without problems\<close>

text \<open>The record is signed by the key its signed \<^verbatim>\<open>key_id\<close> names, a canonical key of prime order.\<close>

definition record_signed :: "pydict \<Rightarrow> pydict \<Rightarrow> keydict \<Rightarrow> bool" where
  "record_signed rec r dec \<longleftrightarrow>
     (\<exists>pub sig m. map_of dec (text_of (dget r ''key_id'')) = Some (Some pub) \<and> ref_key_ok pub \<and>
       b64c (dget (the_d (dget rec ''signature'')) ''value'') = Some sig \<and> length sig = 64 \<and>
       dget (the_d (dget rec ''signature'')) ''key_id'' = PyStr (text_of (dget r ''key_id'')) \<and>
       war_jcs (PyDict r) = Inr m \<and> ref_verify pub m sig = Inr True)"

text \<open>The criteria file, where it is given, is the one the record names, and lists the criteria of the results.\<close>

definition criteria_correspond :: "crit_hash \<Rightarrow> pydict \<Rightarrow> bool" where
  "criteria_correspond h r \<longleftrightarrow>
     h = Absent \<or> (\<exists>cb crit. h = Match cb \<and> read_criteria cb = Some crit \<and> kdict_eq (stated_criteria r) crit)"

text \<open>The criteria were committed before the reference time, by a token that agrees with the stated time or by the stated time alone.\<close>

definition committed_before :: "war_env \<Rightarrow> pydict \<Rightarrow> stamp \<Rightarrow> tok \<Rightarrow> tok \<Rightarrow> bool" where
  "committed_before w r stamp rt ct \<longleftrightarrow>
     (\<exists>t stated. reference_ms w r stamp rt = Some t \<and>
       rfc_time (w_ucd w) (dget (the_d (dget r ''criteria'')) ''committed_at'') = Some stated \<and>
       (case usable w r ct of
          Some (tc, acc) \<Rightarrow> \<lfloor>stated\<rfloor> = \<lfloor>tc\<rfloor> \<and> of_int (ms_up tc) + acc * 1000 < of_int t
        | None \<Rightarrow> \<not> imprint_other r ct \<and> ms_up stated < t))"

text \<open>The stated independence is the derived one, with readable and different party keys.\<close>

definition independence_stated :: "war_env \<Rightarrow> pydict \<Rightarrow> pydict \<Rightarrow> ustr list \<Rightarrow> keydict \<Rightarrow> bool" where
  "independence_stated w inputs r ids dec \<longleftrightarrow>
     (let parties = the_d (dget r ''parties'');
          checker = the_d (dget parties ''checker''); producer = the_d (dget parties ''producer'');
          pk = dget producer ''key_id''; ck = dget checker ''key_id'';
          claim_ind = (dget r ''independence'' = S ''independent'')
      in \<not> kid_unreadable dec pk \<and> \<not> kid_unreadable dec ck \<and> \<not> keys_collide dec pk ck \<and>
         (\<exists>rule. relying_rule inputs dec claim_ind pk = Inr rule \<and>
           dget r ''independence'' =
             S (derived_independence (name_of w (dget producer ''name'')) (name_of w (dget checker ''name'')) False
                 (kid_in (dup_ids ids) pk \<or> kid_in (dup_ids ids) ck \<or> (claim_ind \<and> (kid_not_once ids pk \<or> kid_not_once ids ck)) \<or> rule))))"

definition verdict_stated :: "pydict \<Rightarrow> bool" where
  "verdict_stated r \<longleftrightarrow>
     list_all (\<lambda>x. dget (the_d x) ''result'' \<in> set results_vocabulary) (list_of (dget r ''results'')) \<and>
     dget r ''verdict'' = S (verdict_recomputed r)"

definition record_clean :: "war_env \<Rightarrow> pydict \<Rightarrow> pydict \<Rightarrow> pydict \<Rightarrow> bool" where
  "record_clean w inputs rec r \<longleftrightarrow>
     distinct (key_ids inputs) \<and> record_signed rec r (key_dec inputs) \<and>
     dget (the_d (dget (the_d (dget r ''parties'')) ''checker'')) ''key_id'' = dget r ''key_id'' \<and>
     criteria_correspond (criteria_hash inputs r) r \<and>
     (\<exists>rt stamp ct anchors tsa_c tsa_r.
       tst (dget inputs ''receipt_tsr_base64'') = Inr rt \<and> receipt_stamp r rt = Inr stamp \<and> tst (dget inputs ''criteria_tsr_base64'') = Inr ct \<and>
       bnd (py_iter (py_or (dget inputs ''tsa_roots_base64'') (PyList []))) (map_r b64decode) = Inr anchors \<and>
       tsa_of w anchors (dget inputs ''criteria_tsr_base64'') = Inr tsa_c \<and> tsa_of w anchors (dget inputs ''receipt_tsr_base64'') = Inr tsa_r \<and>
       committed_before w r stamp rt ct) \<and>
     independence_stated w inputs r (key_ids inputs) (key_dec inputs) \<and> verdict_stated r"

lemma listed_Nil: "listed out cs = [] \<longleftrightarrow> out = [] \<and> cs = []"
  by (induction out cs rule: listed.induct) auto

lemma count_distinct: "distinct ids \<Longrightarrow> count_list ids i \<le> 1"
  by (induction ids) (auto simp: count_list_0_iff)

lemma distinct_count: "\<forall>i \<in> set ids. count_list ids i \<le> 1 \<Longrightarrow> distinct ids"
proof (induction ids)
  case (Cons a ids)
  have "count_list ids a = 0" using Cons.prems by auto
  moreover have "count_list ids i \<le> 1" if "i \<in> set ids" for i
    using that Cons.prems by (cases "i = a") (auto simp: calculation)
  ultimately show ?case using Cons.IH by (simp add: count_list_0_iff)
qed simp

lemma dup_ids_Nil: "dup_ids ids = [] \<longleftrightarrow> distinct ids"
proof -
  have "dup_ids ids = [] \<longleftrightarrow> (\<forall>i \<in> set ids. count_list ids i \<le> 1)" by (auto simp: dup_ids_def filter_empty_conv not_less)
  moreover have "(\<forall>i \<in> set ids. count_list ids i \<le> 1) \<longleftrightarrow> distinct ids"
    by (rule iffI [OF distinct_count]) (simp_all add: count_distinct del: One_nat_def)
  ultimately show ?thesis by simp
qed

lemma signature_clean:
  assumes "dup_ids ids = []"
  shows "(\<exists>ok. signature_step rec r ids dec = Inr (ok, [])) \<longleftrightarrow> record_signed rec r dec"
proof (cases "map_of dec (text_of (dget r ''key_id''))")
  case None
  then show ?thesis using assms by (simp add: signature_step_def record_signed_def)
next
  case (Some k)
  show ?thesis
  proof (cases k)
    case None
    then show ?thesis using Some by (simp add: signature_step_def record_signed_def)
  next
    case p: (Some pub)
    have "ref_key_ok pub \<Longrightarrow> pub \<noteq> []" by (auto simp: ref_key_ok_def)
    then show ?thesis
      using assms Some p by (cases "b64c (dget (the_d (dget rec ''signature'')) ''value'')") (auto simp: signature_step_def record_signed_def Let_def)
  qed
qed

lemma criteria_clean: "criteria_problems h r = [] \<longleftrightarrow> criteria_correspond h r"
  by (auto simp: criteria_problems_def criteria_correspond_def split: crit_hash.splits option.splits if_splits)

lemma precedence_clean: "snd (precedence c t) = [] \<longleftrightarrow> (\<exists>x y. c = Some x \<and> t = Some y \<and> x < of_int y)"
  by (auto simp: precedence_def split: option.splits)

lemma commitment_clean:
  "fst (snd (commitment_step w r ct)) = [] \<and> snd (precedence (fst (commitment_step w r ct)) (reference_ms w r stamp rt)) = [] \<longleftrightarrow>
   committed_before w r stamp rt ct"
proof (cases "usable w r ct")
  case None
  then show ?thesis by (auto simp: precedence_clean commitment_step_def committed_before_def)
next
  case (Some x)
  then show ?thesis
    by (cases x; cases "rfc_time (w_ucd w) (dget (the_d (dget r ''criteria'')) ''committed_at'')")
      (auto simp: precedence_clean commitment_step_def committed_before_def)
qed

lemma independence_clean: "(\<exists>ws. independence_step w inputs r ids dec = Inr ([], ws)) \<longleftrightarrow> independence_stated w inputs r ids dec"
  unfolding independence_step_def independence_stated_def Let_def py_eq_Str_right py_eq_Str_left
  by (auto simp: disj_assoc)

lemma verdict_clean: "verdict_problems r = [] \<longleftrightarrow> verdict_stated r"
  by (auto simp: verdict_problems_def verdict_stated_def list_ex_iff list_all_iff py_eq_Str_left)

definition clean :: "war_out res \<Rightarrow> bool" where
  "clean m \<longleftrightarrow> (\<exists>out. m = Inr out \<and> wo_problems out = [])"

lemma clean_bnd: "clean (bnd m f) \<longleftrightarrow> (\<exists>x. m = Inr x \<and> clean (f x))"
  by (auto simp: clean_def)

lemma clean_Inr: "clean (Inr out) \<longleftrightarrow> wo_problems out = []"
  by (auto simp: clean_def)

lemma clean_prod: "clean (case x of (a, b) \<Rightarrow> f a b) \<longleftrightarrow> clean (f (fst x) (snd x))"
  by (simp add: case_prod_beta)

lemma clean_pair: "(\<exists>x. m = Inr x \<and> snd x = [] \<and> P) \<longleftrightarrow> (\<exists>a. m = Inr (a, [])) \<and> P"
  by auto

lemma check_clean: "clean (check_record w inputs rec r) \<longleftrightarrow> record_clean w inputs rec r"
proof -
  let ?ids = "key_ids inputs" and ?dec = "key_dec inputs"
  let ?cp = "dget (the_d (dget (the_d (dget r ''parties'')) ''checker'')) ''key_id'' = dget r ''key_id''"
  let ?tok = "\<lambda>rt stamp ct anchors tsa_c tsa_r. tst (dget inputs ''receipt_tsr_base64'') = Inr rt \<and> receipt_stamp r rt = Inr stamp \<and>
    tst (dget inputs ''criteria_tsr_base64'') = Inr ct \<and>
    bnd (py_iter (py_or (dget inputs ''tsa_roots_base64'') (PyList []))) (map_r b64decode) = Inr anchors \<and>
    tsa_of w anchors (dget inputs ''criteria_tsr_base64'') = Inr tsa_c \<and> tsa_of w anchors (dget inputs ''receipt_tsr_base64'') = Inr tsa_r"
  have "clean (check_record w inputs rec r) \<longleftrightarrow>
    (\<exists>x rt stamp ct anchors tsa_c tsa_r y. signature_step rec r ?ids ?dec = Inr x \<and> ?tok rt stamp ct anchors tsa_c tsa_r \<and>
      independence_step w inputs r ?ids ?dec = Inr y \<and> dup_ids ?ids = [] \<and> snd x = [] \<and> ?cp \<and> criteria_correspond (criteria_hash inputs r) r \<and>
      (fst (snd (commitment_step w r ct)) = [] \<and> snd (precedence (fst (commitment_step w r ct)) (reference_ms w r stamp rt)) = []) \<and>
      fst y = [] \<and> verdict_stated r)"
    unfolding check_record_def Let_def clean_bnd clean_prod clean_Inr war_out.simps listed_Nil append_is_Nil_conv criteria_clean verdict_clean
    by (auto split: if_splits)
  also have "\<dots> \<longleftrightarrow> dup_ids ?ids = [] \<and> (\<exists>ok. signature_step rec r ?ids ?dec = Inr (ok, [])) \<and> ?cp \<and>
      criteria_correspond (criteria_hash inputs r) r \<and>
      (\<exists>rt stamp ct anchors tsa_c tsa_r. ?tok rt stamp ct anchors tsa_c tsa_r \<and> committed_before w r stamp rt ct) \<and>
      (\<exists>ws. independence_step w inputs r ?ids ?dec = Inr ([], ws)) \<and> verdict_stated r"
    unfolding commitment_clean split_paired_Ex fst_conv snd_conv by blast
  also have "\<dots> \<longleftrightarrow> record_clean w inputs rec r"
    unfolding record_clean_def independence_clean dup_ids_Nil [symmetric] using signature_clean [of ?ids rec r ?dec] by blast
  finally show ?thesis .
qed

text \<open>C5. A record is reported without a problem exactly when it is clean: of the right types and profile, signed under its own key id by a canonical
  key of prime order that is listed once, checked by its signer, with the criteria it names committed strictly before the reference time, with
  the independence and the verdict that its parties and results give.\<close>

theorem no_problem_iff_clean:
  "(\<exists>out. war_check w v = Inr (Checked out) \<and> wo_problems out = []) \<longleftrightarrow>
   (let inputs = the_d v; rec = the_d (dget inputs ''receipt''); r = the_d (dget rec ''receipt'')
    in types_ok v \<and> known_profile r = Inr True \<and> record_clean w inputs rec r)"
  unfolding check_clean [symmetric] clean_def war_check_def Let_def by auto

text \<open>A schema that is a list or an object makes the check raise: it is looked up in a set, so the record is not refused as one of an unknown
  schema is.\<close>

lemma unhashable_schema_raises:
  assumes "types_ok v" "is_list (dget (the_d (dget (the_d (dget (the_d v) ''receipt'')) ''receipt'')) ''schema'')"
  shows "war_check w v = Inl TypeError"
proof -
  have "\<not> hashable s" if "is_list s" for s using that by (cases s) auto
  then show ?thesis using assms by (simp add: war_check_def known_profile_def Let_def)
qed

definition sample_inputs :: py where
  "sample_inputs =
     PyDict
       [(U ''receipt'', PyDict
          [(U ''signature'', PyDict [(U ''value'', PyStr []), (U ''key_id'', S ''k'')]),
           (U ''receipt'', PyDict
              [(U ''schema'', PyList []), (U ''key_id'', S ''k''), (U ''issued_utc'', S ''2026-03-01T00:00:00Z''),
               (U ''parties'', PyDict [(U ''checker'', PyDict [])]), (U ''criteria'', PyDict [(U ''sha256'', PyStr [])]), (U ''results'', PyList [])])]),
        (U ''keys'', PyDict [(U ''keys'', PyList [])])]"

lemma unhashable_schema_raises_instance:
  "types_ok sample_inputs \<and> (\<forall>w. war_check w sample_inputs = Inl TypeError)"
proof -
  have t: "types_ok sample_inputs"
    by (simp add: sample_inputs_def types_ok_def record_types_ok_def all_in_def party_ok_def str_or_none_def the_d_def dget_simps)
  have l: "is_list (dget (the_d (dget (the_d (dget (the_d sample_inputs) ''receipt'')) ''receipt'')) ''schema'')"
    by (simp add: sample_inputs_def the_d_def dget_simps)
  from t unhashable_schema_raises [OF t l] show ?thesis by blast
qed

end
