(* ===== verification/Approval.thy ===== *)
theory Approval
  imports Commit WarToken
begin

text \<open>
  \<^verbatim>\<open>examples/musubi-approver-v2/verify_approval_v2.py\<close>: a third party's approval of one action under a contract. The contract pins its approvers,
  the approval is signed over the digest of the whole contract, and the verifier names the first condition that fails.
\<close>

section \<open>What is signed\<close>

definition CONTRACT_CONTEXT :: bytes where
  "CONTRACT_CONTEXT = utf8_total (U ''a2a-contract-v0'' @ [10])"

definition APPROVAL_V2_CONTEXT :: bytes where
  "APPROVAL_V2_CONTEXT = utf8_total (U ''a2a-approval-v2'' @ [10])"

text \<open>\<^verbatim>\<open>^[0-9a-f]{32}\Z\<close>.\<close>

definition is_hex32 :: "ustr \<Rightarrow> bool" where
  "is_hex32 s \<longleftrightarrow> length s = 32 \<and> list_all is_lower_hex s"

definition contract_body :: "pydict \<Rightarrow> py" where
  "contract_body c = PyDict (filter (\<lambda>kv. fst kv \<noteq> U ''signatures'') c)"

definition contract_sha256 :: "py \<Rightarrow> ustr res" where
  "contract_sha256 contract =
     (case contract of
        PyDict c \<Rightarrow> bnd (utf8 (dumps_sorted (contract_body c))) (\<lambda>b. Inr (sha256_hex (CONTRACT_CONTEXT @ b)))
      | _ \<Rightarrow> Inl AttributeError)"

text \<open>\<^verbatim>\<open>base64.b64decode(s, validate=True)\<close> of a text that is the encoding of what it decodes to.\<close>

definition b64_raw :: "py \<Rightarrow> nat \<Rightarrow> bytes option" where
  "b64_raw v n =
     (case v of
        PyStr s \<Rightarrow>
          if s = [] \<or> \<not> b64_shape s then None
          else (case a2b_base64 0 0 0 s of Inl _ \<Rightarrow> None | Inr raw \<Rightarrow> if length raw = n \<and> b64encode raw = s then Some raw else None)
      | _ \<Rightarrow> None)"

definition approval_object :: "ustr \<Rightarrow> pydict \<Rightarrow> py \<Rightarrow> py" where
  "approval_object h e key =
     PyDict [(U ''contract_sha256'', PyStr h), (U ''action'', dget e ''action''), (U ''approver_key'', key),
       (U ''valid_until_height'', dget e ''valid_until_height''), (U ''nonce'', dget e ''nonce''), (U ''single_use'', dget e ''single_use'')]"

definition approval_v2_bytes :: "py \<Rightarrow> pydict \<Rightarrow> py \<Rightarrow> bytes res" where
  "approval_v2_bytes contract e key =
     bnd (contract_sha256 contract) (\<lambda>h. bnd (utf8 (dumps_sorted (approval_object h e key))) (\<lambda>b. Inr (APPROVAL_V2_CONTEXT @ b)))"

section \<open>The verifier\<close>

definition approvers :: "py \<Rightarrow> py list res" where
  "approvers contract =
     bnd (py_get contract ''grant'') (\<lambda>g.
     bnd (py_get (py_or g (PyDict [])) ''approval_policy'') (\<lambda>p.
       Inr (case py_or p (PyDict []) of
              PyDict ap \<Rightarrow> (case dget ap ''approvers'' of PyList xs \<Rightarrow> xs | _ \<Rightarrow> [])
            | _ \<Rightarrow> [])))"

datatype policy = Pinned | ApprovalSelfAsserted

definition policy_reading :: "py \<Rightarrow> policy res" where
  "policy_reading contract = bnd (approvers contract) (\<lambda>a. Inr (if a \<noteq> [] then Pinned else ApprovalSelfAsserted))"

datatype approval_reason =
    NotAnApproverApproval | EntryMalformed | ApproverNotPinned | ActionNotPermitted | MalformedKeyOrSignature | BadSignature

datatype approval = Approved | ApprovalUnverified approval_reason

definition entry_formed :: "pydict \<Rightarrow> bool" where
  "entry_formed e \<longleftrightarrow>
     is_str (dget e ''action'') \<and> (case dget e ''valid_until_height'' of PyInt i \<Rightarrow> 0 \<le> i | _ \<Rightarrow> False) \<and>
     (case dget e ''nonce'' of PyStr s \<Rightarrow> is_hex32 s | _ \<Rightarrow> False) \<and> is_bool (dget e ''single_use'')"

definition names_approver :: "pydict \<Rightarrow> py \<Rightarrow> bool" where
  "names_approver e a = (case a of PyDict p \<Rightarrow> py_eq (dget p ''name'') (dget e ''approver'') | _ \<Rightarrow> False)"

definition pinned_entry :: "pydict \<Rightarrow> py list \<Rightarrow> pydict option" where
  "pinned_entry e aps = (case List.find (names_approver e) aps of Some (PyDict p) \<Rightarrow> Some p | _ \<Rightarrow> None)"

definition verify_signed :: "py \<Rightarrow> pydict \<Rightarrow> pydict \<Rightarrow> approval res" where
  "verify_signed contract e pin =
     (case (b64_raw (dget pin ''public_key_ed25519_b64'') 32, b64_raw (dget e ''sig_b64'') 64) of
        (Some pk, Some sg) \<Rightarrow>
          bnd (approval_v2_bytes contract e (dget pin ''public_key_ed25519_b64'')) (\<lambda>m.
            Inr (if ed_verify pk m sg then Approved else ApprovalUnverified BadSignature))
      | _ \<Rightarrow> Inr (ApprovalUnverified MalformedKeyOrSignature))"

definition verify_approval_v2 :: "py \<Rightarrow> py \<Rightarrow> approval res" where
  "verify_approval_v2 contract entry =
     (case entry of
        PyDict e \<Rightarrow>
          if \<not> py_eq (dget e ''by'') (S ''approver'') then Inr (ApprovalUnverified NotAnApproverApproval)
          else if \<not> entry_formed e then Inr (ApprovalUnverified EntryMalformed)
          else
            bnd (approvers contract) (\<lambda>aps.
            case pinned_entry e aps of
              None \<Rightarrow> Inr (ApprovalUnverified ApproverNotPinned)
            | Some pin \<Rightarrow>
                bnd (py_contains (py_or (dget pin ''actions'') (PyList [])) (dget e ''action'')) (\<lambda>ok.
                if \<not> ok then Inr (ApprovalUnverified ActionNotPermitted) else verify_signed contract e pin))
      | _ \<Rightarrow> Inr (ApprovalUnverified NotAnApproverApproval))"

section \<open>Batches\<close>

text \<open>\<^verbatim>\<open>batch_approval_v2.py\<close>: one answer per named case, an exception included.\<close>

datatype batch_answer = ContractMissing | BatchApproval approval | BatchPolicy policy | BatchRaised exn

definition batch_answer_of :: "pydict \<Rightarrow> batch_answer res" where
  "batch_answer_of c =
     (case dget c ''contract'' of
        PyDict k \<Rightarrow>
          (case dget c ''approval'' of
             PyNone \<Rightarrow> bnd (policy_reading (PyDict k)) (\<lambda>p. Inr (BatchPolicy p))
           | a \<Rightarrow> bnd (verify_approval_v2 (PyDict k) a) (\<lambda>r. Inr (BatchApproval r)))
      | _ \<Rightarrow> Inr ContractMissing)"

definition case_name :: "py \<Rightarrow> (ustr \<times> pydict) option" where
  "case_name v = (case v of PyDict c \<Rightarrow> (case dget c ''name'' of PyStr n \<Rightarrow> Some (n, c) | _ \<Rightarrow> None) | _ \<Rightarrow> None)"

definition batch_step :: "(ustr \<rightharpoonup> batch_answer) \<Rightarrow> py \<Rightarrow> (ustr \<rightharpoonup> batch_answer)" where
  "batch_step out v =
     (case case_name v of
        None \<Rightarrow> out
      | Some (n, c) \<Rightarrow> out(n \<mapsto> (case batch_answer_of c of Inl e \<Rightarrow> BatchRaised e | Inr a \<Rightarrow> a)))"

definition batch :: "py list \<Rightarrow> (ustr \<rightharpoonup> batch_answer)" where
  "batch cases = foldl batch_step Map.empty cases"

section \<open>When an action is approved\<close>

text \<open>The action is in the approver's list, or part of the text where the contract has a text for the list, or a key of a table.\<close>

definition permitted :: "pydict \<Rightarrow> pydict \<Rightarrow> bool" where
  "permitted pin e \<longleftrightarrow> py_contains (py_or (dget pin ''actions'') (PyList [])) (dget e ''action'') = Inr True"

lemma verify_signed_approved:
  "verify_signed contract e pin = Inr Approved \<longleftrightarrow>
     (\<exists>pk sg m. b64_raw (dget pin ''public_key_ed25519_b64'') 32 = Some pk \<and> b64_raw (dget e ''sig_b64'') 64 = Some sg \<and>
        approval_v2_bytes contract e (dget pin ''public_key_ed25519_b64'') = Inr m \<and> ed_verify pk m sg)"
  by (auto simp: verify_signed_def split: option.splits)

text \<open>C19. An action is approved exactly when the entry is a well-formed approver entry, the contract pins an approver of that name whose list
  permits the action (the first one so named), the key pinned and the signature are canonical base64 of the right lengths, and the signature
  over the contract's digest and the entry's fields verifies under the pinned key.\<close>

theorem approved_iff:
  "verify_approval_v2 contract entry = Inr Approved \<longleftrightarrow>
     (\<exists>e aps pin pk sg m. entry = PyDict e \<and> dget e ''by'' = S ''approver'' \<and> entry_formed e \<and> approvers contract = Inr aps \<and>
        pinned_entry e aps = Some pin \<and> permitted pin e \<and>
        b64_raw (dget pin ''public_key_ed25519_b64'') 32 = Some pk \<and> b64_raw (dget e ''sig_b64'') 64 = Some sg \<and>
        approval_v2_bytes contract e (dget pin ''public_key_ed25519_b64'') = Inr m \<and> ed_verify pk m sg)"
proof (cases entry)
  case (PyDict e)
  have if_approved: "(if b then Inr (ApprovalUnverified x) else y) = Inr Approved \<longleftrightarrow> \<not> b \<and> y = Inr Approved" for b x and y :: "approval res" by simp
  have opt: "(case p of None \<Rightarrow> Inr (ApprovalUnverified x) | Some q \<Rightarrow> f q) = Inr Approved \<longleftrightarrow> (\<exists>q. p = Some q \<and> f q = Inr Approved)"
    for p x and f :: "pydict \<Rightarrow> approval res" by (cases p) auto
  show ?thesis
    unfolding PyDict verify_approval_v2_def py.case if_approved bnd_eq_Inr opt verify_signed_approved permitted_def
    by (auto simp: py_eq_Str_right)
qed (auto simp: verify_approval_v2_def)

section \<open>What an approval binds\<close>







section \<open>A batch answers every named case\<close>

lemma batch_step_other: "\<forall>c. case_name v \<noteq> Some (n, c) \<Longrightarrow> batch_step out v n = out n"
  by (auto simp: batch_step_def split: option.splits)

text \<open>The answer under a name is that of the last case so named, whatever the cases around it raise.\<close>

lemma batch_answers:
  assumes "case_name v = Some (n, c)" "\<forall>w \<in> set later. \<forall>d. case_name w \<noteq> Some (n, d)"
  shows "batch (earlier @ v # later) n = Some (case batch_answer_of c of Inl e \<Rightarrow> BatchRaised e | Inr a \<Rightarrow> a)"
proof -
  have "foldl batch_step out later n = out n" for out
    using assms(2) by (induction later arbitrary: out) (auto simp: batch_step_other)
  then show ?thesis using assms(1) by (simp add: batch_def batch_step_def)
qed

lemma batch_dom: "dom (batch cases) = {n. \<exists>v \<in> set cases. \<exists>c. case_name v = Some (n, c)}"
proof -
  have "dom (foldl batch_step out cases) = dom out \<union> {n. \<exists>v \<in> set cases. \<exists>c. case_name v = Some (n, c)}" for out
  proof (induction cases arbitrary: out)
    case (Cons v cases)
    have "dom (batch_step out v) = dom out \<union> {n. \<exists>c. case_name v = Some (n, c)}"
      by (auto simp: batch_step_def split: option.splits)
    with Cons show ?case by auto
  qed simp
  then show ?thesis by (simp add: batch_def)
qed

end
