(* ===== verification/Payments.thy ===== *)
theory Payments
  imports Receipt WarToken
begin

text \<open>
  What two parties to a payment derive from it: the fingerprint of \<^verbatim>\<open>examples/x402-payment-fingerprint/fingerprint.py\<close>, which buyer and seller
  compute on their own copies, and the salted commitment of \<^verbatim>\<open>examples/x402-receipt-authorization-commitment/commitment.py\<close>, which the holder
  of a receipt opens against the nonces consumed on chain. Conditions are the texts the code reports.
\<close>

section \<open>Fixed-width hexadecimal texts\<close>

text \<open>The text \<^verbatim>\<open>0x\<close> and \<open>n\<close> hexadecimal digits in either case, to the end of the string.\<close>

definition hex_field :: "nat \<Rightarrow> ustr \<Rightarrow> bool" where
  "hex_field n s \<longleftrightarrow> startswith s (U ''0x'') \<and> length s = 2 + n \<and> list_all (\<lambda>c. hex_value c \<noteq> None) (drop 2 s)"

definition py_hex_field :: "nat \<Rightarrow> py \<Rightarrow> bool" where
  "py_hex_field n v = (case v of PyStr s \<Rightarrow> hex_field n s | _ \<Rightarrow> False)"

section \<open>Payment fingerprints\<close>

definition RECIPE :: ustr where
  "RECIPE = U ''x402-payment-fingerprint/0''"

definition UINT256_MAX :: nat where
  "UINT256_MAX = 2 ^ 256 - 1"

definition NETWORK_ALIASES :: "(ustr \<times> ustr) list" where
  "NETWORK_ALIASES = map (\<lambda>(a, b). (U a, U b))
     [(''abstract'', ''eip155:2741''), (''abstract-testnet'', ''eip155:11124''), (''base-sepolia'', ''eip155:84532''), (''base'', ''eip155:8453''),
      (''avalanche-fuji'', ''eip155:43113''), (''avalanche'', ''eip155:43114''), (''iotex'', ''eip155:4689''), (''sei'', ''eip155:1329''),
      (''sei-testnet'', ''eip155:1328''), (''polygon'', ''eip155:137''), (''polygon-amoy'', ''eip155:80002''), (''peaq'', ''eip155:3338''),
      (''story'', ''eip155:1514''), (''educhain'', ''eip155:41923''), (''skale-base-sepolia'', ''eip155:324705682''),
      (''ethereum'', ''eip155:1''), (''sepolia'', ''eip155:11155111''), (''megaeth'', ''eip155:4326''), (''monad'', ''eip155:143''),
      (''monad-testnet'', ''eip155:10143''), (''stable'', ''eip155:988''), (''stable-testnet'', ''eip155:2201''), (''celo'', ''eip155:42220''),
      (''flare'', ''eip155:14'')]"

text \<open>\<^verbatim>\<open>\Aeip155:[1-9][0-9]{0,31}\Z\<close> and \<^verbatim>\<open>\A(0|[1-9][0-9]*)\Z\<close>.\<close>

definition is_caip2 :: "ustr \<Rightarrow> bool" where
  "is_caip2 s \<longleftrightarrow>
     startswith s (U ''eip155:'') \<and>
     (case drop 7 s of [] \<Rightarrow> False | c # r \<Rightarrow> 49 \<le> c \<and> c \<le> 57 \<and> length r \<le> 31 \<and> list_all is_digit r)"

definition is_dec :: "ustr \<Rightarrow> bool" where
  "is_dec s \<longleftrightarrow> s = [48] \<or> (case s of [] \<Rightarrow> False | c # r \<Rightarrow> 49 \<le> c \<and> c \<le> 57 \<and> list_all is_digit r)"

definition fp_network :: "py \<Rightarrow> ustr option" where
  "fp_network v =
     (case v of
        PyStr n \<Rightarrow> (let m = (case map_of NETWORK_ALIASES n of None \<Rightarrow> n | Some m \<Rightarrow> m) in if is_caip2 m then Some m else None)
      | _ \<Rightarrow> None)"

definition fp_value :: "py \<Rightarrow> ustr + ustr" where
  "fp_value v =
     (case v of
        PyStr s \<Rightarrow>
          if \<not> is_dec s then Inl (U ''value_not_canonical_decimal_string'')
          else if 78 < length s \<or> length s = 78 \<and> UINT256_MAX < dec_nat s then Inl (U ''value_exceeds_uint256'')
          else Inr s
      | _ \<Rightarrow> Inl (U ''value_not_canonical_decimal_string''))"

definition lowered :: "ucd \<Rightarrow> py \<Rightarrow> ustr" where
  "lowered u v = (case v of PyStr s \<Rightarrow> u_lower u s | _ \<Rightarrow> [])"

text \<open>\<^verbatim>\<open>preimage\<close>: the object that is hashed, or the first condition that fails.\<close>

definition preimage :: "ucd \<Rightarrow> py \<Rightarrow> ustr + py" where
  "preimage u payment =
     (case payment of
        PyDict p \<Rightarrow>
          (case dget p ''authorization'' of
             PyDict a \<Rightarrow>
               if \<not> py_eq (dget p ''scheme'') (S ''exact'') then Inl (U ''scheme_not_exact'')
               else
                 (case fp_network (dget p ''network'') of
                    None \<Rightarrow> Inl (U ''network_not_caip2_mappable'')
                  | Some net \<Rightarrow>
                      if \<not> py_hex_field 40 (dget p ''asset'') then Inl (U ''asset_not_evm_address'')
                      else if \<not> py_hex_field 40 (dget a ''from'') then Inl (U ''from_not_evm_address'')
                      else if \<not> py_hex_field 40 (dget a ''to'') then Inl (U ''to_not_evm_address'')
                      else if \<not> py_hex_field 64 (dget a ''nonce'') then Inl (U ''nonce_not_bytes32_hex'')
                      else
                        (case fp_value (dget a ''value'') of
                           Inl e \<Rightarrow> Inl e
                         | Inr val \<Rightarrow>
                             Inr (PyDict [(U ''v'', PyStr RECIPE), (U ''network'', PyStr net), (U ''asset'', PyStr (lowered u (dget p ''asset''))),
                               (U ''from'', PyStr (lowered u (dget a ''from''))), (U ''to'', PyStr (lowered u (dget a ''to''))),
                               (U ''value'', PyStr val), (U ''nonce'', PyStr (lowered u (dget a ''nonce'')))])))
           | _ \<Rightarrow> Inl (U ''authorization_missing''))
      | _ \<Rightarrow> Inl (U ''authorization_missing''))"

definition canonicalize :: "py \<Rightarrow> bytes res" where
  "canonicalize v = bnd (jcs v) utf8"

definition fingerprint :: "ucd \<Rightarrow> py \<Rightarrow> (ustr + ustr) res" where
  "fingerprint u payment =
     (case preimage u payment of
        Inl err \<Rightarrow> Inr (Inl err)
      | Inr pre \<Rightarrow> bnd (canonicalize pre) (\<lambda>b. Inr (Inr (U ''sha256:'' @ sha256_hex b))))"

section \<open>Authorization commitments\<close>

text \<open>An exception of the module's own classes, or one of Python's.\<close>

datatype rac_exn = RacMalformed ustr | RacNotAttempted ustr | RacExn exn

type_synonym 'a rac = "rac_exn + 'a"

definition rbnd :: "'a rac \<Rightarrow> ('a \<Rightarrow> 'b rac) \<Rightarrow> 'b rac" where
  "rbnd m f = (case m of Inl e \<Rightarrow> Inl e | Inr x \<Rightarrow> f x)"

definition hex_payload :: "nat \<Rightarrow> ustr \<Rightarrow> ucd \<Rightarrow> py \<Rightarrow> bytes rac" where
  "hex_payload n err u v =
     (case v of
        PyStr s \<Rightarrow>
          if hex_field n s then (case fromhex (u_lower u (drop 2 s)) of Inl e \<Rightarrow> Inl (RacExn e) | Inr b \<Rightarrow> Inr b) else Inl (RacMalformed err)
      | _ \<Rightarrow> Inl (RacMalformed err))"

definition rac_addr :: "ucd \<Rightarrow> py \<Rightarrow> string \<Rightarrow> bytes rac" where
  "rac_addr u v name = hex_payload 40 (U name @ U ''_not_address'') u v"

definition rac_b32 :: "ucd \<Rightarrow> py \<Rightarrow> string \<Rightarrow> bytes rac" where
  "rac_b32 u v name = hex_payload 64 (U name @ U ''_not_bytes32'') u v"

definition rac_commit :: "ucd \<Rightarrow> py \<Rightarrow> py \<Rightarrow> py \<Rightarrow> py \<Rightarrow> py \<Rightarrow> ustr rac" where
  "rac_commit u meth asset authorizer nonce salt =
     (if \<not> py_in meth [S ''eip3009''] then Inl (RacNotAttempted (U ''unsupported_method''))
      else
        rbnd (rac_addr u asset ''asset'') (\<lambda>a.
        rbnd (rac_addr u authorizer ''authorizer'') (\<lambda>b.
        rbnd (rac_b32 u nonce ''nonce'') (\<lambda>n.
        rbnd (rac_b32 u salt ''salt'') (\<lambda>s.
          Inr (hex0x (sha256 (domain_tag @ [0] @ utf8_total (U ''eip3009'') @ [0] @ a @ b @ n @ s))))))))"

datatype rac_result = RacLinked ustr | RacNoMatch | RacAmbiguous "py list"

fun rac_hits :: "(py \<Rightarrow> ustr rac) \<Rightarrow> ustr \<Rightarrow> py list \<Rightarrow> py list rac" where
  "rac_hits c target [] = Inr []"
| "rac_hits c target (n # ns) = rbnd (c n) (\<lambda>h. rbnd (rac_hits c target ns) (\<lambda>hs. Inr (if h = target then n # hs else hs)))"

definition rac_link :: "ucd \<Rightarrow> py \<Rightarrow> py \<Rightarrow> py \<Rightarrow> py \<Rightarrow> py \<Rightarrow> py list \<Rightarrow> rac_result rac" where
  "rac_link u com salt meth asset authorizer candidates =
     rbnd (rac_b32 u com ''commitment'') (\<lambda>_.
     rbnd (rac_hits (\<lambda>n. rac_commit u meth asset authorizer n salt) (lowered u com) candidates) (\<lambda>hits.
       Inr (case hits of [n] \<Rightarrow> RacLinked (lowered u n) | [] \<Rightarrow> RacNoMatch | _ \<Rightarrow> RacAmbiguous hits)))"

section \<open>What a fingerprint says\<close>

lemma hex_field_ascii: "hex_field n s \<Longrightarrow> list_all (\<lambda>c. c < 128) s"
proof -
  assume h: "hex_field n s"
  then have "list_all (\<lambda>c. c < 128) (drop 2 s)"
    by (auto simp: hex_field_def list_all_iff hex_value_def split: if_splits)
  moreover have "list_all (\<lambda>c. c < 128) (take 2 s)"
    using h by (auto simp: hex_field_def startswith_def U_def numeral_2_eq_2)
  ultimately show ?thesis using append_take_drop_id [of 2 s] by (metis list_all_append)
qed

lemma ascii_scalar: "list_all (\<lambda>c. c < 128) s \<Longrightarrow> scalar_str s"
  by (auto simp: scalar_str_def list_all_iff)

lemma ascii_lower_ascii: "list_all (\<lambda>c. c < 128) s \<Longrightarrow> list_all (\<lambda>c. c < 128) (ascii_lower s)"
  by (auto simp: ascii_lower_def list_all_iff)

lemma lower_ascii: "ucd_ascii u \<Longrightarrow> list_all (\<lambda>c. c < 128) s \<Longrightarrow> u_lower u s = ascii_lower s"
  by (simp add: ucd_ascii_def list_all_iff)

lemma lowered_scalar: "ucd_ascii u \<Longrightarrow> py_hex_field n v \<Longrightarrow> scalar_str (lowered u v)"
  by (cases v) (auto simp: py_hex_field_def lowered_def lower_ascii hex_field_ascii intro!: ascii_scalar ascii_lower_ascii)

lemma digits_scalar: "list_all is_digit s \<Longrightarrow> scalar_str s"
  by (auto simp: list_all_iff is_digit_def scalar_str_def)

lemma caip2_scalar: "is_caip2 s \<Longrightarrow> scalar_str s"
proof -
  assume c: "is_caip2 s"
  then have "take 7 s = U ''eip155:''" by (simp add: is_caip2_def startswith_def U_def eval_nat_numeral)
  moreover have "scalar_str (drop 7 s)" using c by (auto simp: is_caip2_def digits_scalar split: list.splits)
  ultimately show ?thesis using append_take_drop_id [of 7 s] scalar_simps(2) scalar_U by metis
qed

lemma network_scalar: "fp_network v = Some net \<Longrightarrow> scalar_str net"
  by (auto simp: fp_network_def Let_def caip2_scalar split: py.splits if_splits)

lemma value_scalar: "fp_value v = Inr s \<Longrightarrow> scalar_str s"
  by (auto simp: fp_value_def is_dec_def digits_scalar split: py.splits if_splits list.splits)

text \<open>What a payment has to be for a fingerprint, and the object that is then hashed.\<close>

definition fp_payment :: "py \<Rightarrow> pydict \<Rightarrow> pydict \<Rightarrow> ustr \<Rightarrow> ustr \<Rightarrow> bool" where
  "fp_payment payment p a net val \<longleftrightarrow>
     payment = PyDict p \<and> dget p ''authorization'' = PyDict a \<and> dget p ''scheme'' = S ''exact'' \<and>
     fp_network (dget p ''network'') = Some net \<and> py_hex_field 40 (dget p ''asset'') \<and> py_hex_field 40 (dget a ''from'') \<and>
     py_hex_field 40 (dget a ''to'') \<and> py_hex_field 64 (dget a ''nonce'') \<and> fp_value (dget a ''value'') = Inr val"

definition fp_object :: "ucd \<Rightarrow> pydict \<Rightarrow> pydict \<Rightarrow> ustr \<Rightarrow> ustr \<Rightarrow> py" where
  "fp_object u p a net val =
     PyDict [(U ''v'', PyStr RECIPE), (U ''network'', PyStr net), (U ''asset'', PyStr (lowered u (dget p ''asset''))),
       (U ''from'', PyStr (lowered u (dget a ''from''))), (U ''to'', PyStr (lowered u (dget a ''to''))),
       (U ''value'', PyStr val), (U ''nonce'', PyStr (lowered u (dget a ''nonce'')))]"

lemma preimage_ok:
  "preimage u payment = Inr pre \<longleftrightarrow> (\<exists>p a net val. fp_payment payment p a net val \<and> pre = fp_object u p a net val)"
  unfolding preimage_def fp_payment_def fp_object_def
  by (auto simp: py_eq_Str_right split: py.splits option.splits sum.splits)

lemma fp_object_plain: "ucd_ascii u \<Longrightarrow> fp_payment payment p a net val \<Longrightarrow> jcs_plain (fp_object u p a net val)"
  by (auto simp: fp_payment_def fp_object_def lowered_scalar network_scalar value_scalar RECIPE_def U_def)

lemma fp_object_sorted:
  "jcs_sort (fp_object u p a net val) =
     PyDict [(U ''asset'', PyStr (lowered u (dget p ''asset''))), (U ''from'', PyStr (lowered u (dget a ''from''))), (U ''network'', PyStr net),
       (U ''nonce'', PyStr (lowered u (dget a ''nonce''))), (U ''to'', PyStr (lowered u (dget a ''to''))), (U ''v'', PyStr RECIPE),
       (U ''value'', PyStr val)]"
proof -
  have "bmp_keys (fp_object u p a net val)" by (simp add: fp_object_def U_def)
  then show ?thesis by (simp only: bmp_sort) (simp add: fp_object_def U_def)
qed

text \<open>The fields a fingerprint covers, as both parties may write them differently: the network up to its alias, the addresses and
  the nonce up to the case of their digits, the value exactly.\<close>

definition same_payment :: "ucd \<Rightarrow> py \<Rightarrow> py \<Rightarrow> bool" where
  "same_payment u payment payment' \<longleftrightarrow>
     (case (payment, payment') of
        (PyDict p, PyDict q) \<Rightarrow>
          (case (dget p ''authorization'', dget q ''authorization'') of
             (PyDict a, PyDict b) \<Rightarrow>
               fp_network (dget p ''network'') = fp_network (dget q ''network'') \<and> lowered u (dget p ''asset'') = lowered u (dget q ''asset'') \<and>
               lowered u (dget a ''from'') = lowered u (dget b ''from'') \<and> lowered u (dget a ''to'') = lowered u (dget b ''to'') \<and>
               dget a ''value'' = dget b ''value'' \<and> lowered u (dget a ''nonce'') = lowered u (dget b ''nonce'')
           | _ \<Rightarrow> False)
      | _ \<Rightarrow> False)"

lemma fp_value_Inr: "fp_value v = Inr s \<Longrightarrow> v = PyStr s"
  by (auto simp: fp_value_def split: py.splits if_splits)

lemma same_payment_object:
  "fp_payment x p a net val \<Longrightarrow> fp_payment y q b net' val' \<Longrightarrow>
     same_payment u x y \<longleftrightarrow> jcs_sort (fp_object u p a net val) = jcs_sort (fp_object u q b net' val')"
  unfolding fp_object_sorted by (auto simp: fp_payment_def same_payment_def dest!: fp_value_Inr)

lemma fp_object_bytes:
  assumes "ucd_ascii u" "fp_payment payment p a net val"
  shows "canonicalize (fp_object u p a net val) = Inr (utf8_total (dumps_compact (jcs_sort (fp_object u p a net val))))"
    and "scalar_str (dumps_compact (jcs_sort (fp_object u p a net val)))"
proof -
  have "scalar_py (jcs_sort (fp_object u p a net val))"
    using assms unfolding fp_object_sorted
    by (auto simp: fp_payment_def lowered_scalar network_scalar value_scalar RECIPE_def)
  then show s: "scalar_str (dumps_compact (jcs_sort (fp_object u p a net val)))" by (rule scalar_dumps)
  show "canonicalize (fp_object u p a net val) = Inr (utf8_total (dumps_compact (jcs_sort (fp_object u p a net val))))"
    using s jcs_text [OF fp_object_plain [OF assms]] by (simp add: canonicalize_def utf8_def)
qed

lemma fingerprint_ok:
  assumes "ucd_ascii u"
  shows "fingerprint u payment = Inr (Inr fp) \<longleftrightarrow>
    (\<exists>p a net val. fp_payment payment p a net val \<and>
       fp = U ''sha256:'' @ sha256_hex (utf8_total (dumps_compact (jcs_sort (fp_object u p a net val)))))"
proof (cases "preimage u payment")
  case (Inl e)
  then have "\<not> fp_payment payment p a net val" for p a net val using preimage_ok [of u payment] by (metis Inl_Inr_False)
  then show ?thesis using Inl by (simp add: fingerprint_def)
next
  case (Inr pre)
  then obtain p a net val where h: "fp_payment payment p a net val" "pre = fp_object u p a net val" unfolding preimage_ok by blast
  define F where "F v = U ''sha256:'' @ sha256_hex (utf8_total (dumps_compact (jcs_sort v)))" for v
  have u: "fp_object u q b n w = fp_object u p a net val" if "fp_payment payment q b n w" for q b n w
    using h(1) that by (simp add: fp_payment_def fp_object_def)
  have "fingerprint u payment = Inr (Inr (F (fp_object u p a net val)))"
    using Inr h(2) fp_object_bytes(1) [OF assms h(1)] by (simp add: fingerprint_def F_def)
  then have "fingerprint u payment = Inr (Inr fp) \<longleftrightarrow> fp = F (fp_object u p a net val)" by auto
  also have "\<dots> \<longleftrightarrow> (\<exists>q b n w. fp_payment payment q b n w \<and> fp = F (fp_object u q b n w))" using h(1) u by metis
  finally show ?thesis unfolding F_def .
qed

subsection \<open>Sample fields\<close>

definition sample_addr :: "nat \<Rightarrow> py" where
  "sample_addr c = PyStr (U ''0x'' @ replicate 40 c)"

definition sample_b32 :: "nat \<Rightarrow> py" where
  "sample_b32 c = PyStr (U ''0x'' @ replicate 64 c)"

lemma sample_fields:
  "hex_value c \<noteq> None \<Longrightarrow> py_hex_field 40 (sample_addr c)" "hex_value c \<noteq> None \<Longrightarrow> py_hex_field 64 (sample_b32 c)"
  by (auto simp: py_hex_field_def sample_addr_def sample_b32_def hex_field_def startswith_def U_def list_all_iff)

text \<open>A payment on a network, with a nonce in one letter case and an envelope of its own.\<close>

definition sample_payment :: "ustr \<Rightarrow> nat \<Rightarrow> py \<Rightarrow> py" where
  "sample_payment net c extra =
     PyDict [(U ''scheme'', S ''exact''), (U ''network'', PyStr net), (U ''asset'', sample_addr 48), (U ''resource'', extra),
       (U ''authorization'', PyDict [(U ''from'', sample_addr 49), (U ''to'', sample_addr 48), (U ''value'', S ''25''), (U ''nonce'', sample_b32 c)])]"

lemma sample_networks:
  "fp_network (S ''base'') = Some (U ''eip155:8453'')" "fp_network (S ''eip155:8453'') = Some (U ''eip155:8453'')"
  by (simp_all add: fp_network_def NETWORK_ALIASES_def is_caip2_def startswith_def U_def is_digit_def)

lemma sample_value: "fp_value (S ''25'') = Inr (U ''25'')"
  by (simp add: fp_value_def is_dec_def U_def is_digit_def)

lemma sample_fingerprint:
  assumes "fp_network (PyStr net) = Some m" "hex_value c \<noteq> None"
  shows "\<exists>fp. fingerprint sample_ucd (sample_payment net c extra) = Inr (Inr fp)"
proof -
  have "hex_value 48 \<noteq> None" "hex_value 49 \<noteq> None" by (simp_all add: hex_value_def)
  then have "\<exists>p a. fp_payment (sample_payment net c extra) p a m (U ''25'')"
    using assms sample_fields sample_value by (simp add: fp_payment_def sample_payment_def lit_simps)
  then show ?thesis unfolding fingerprint_ok [OF sample_ucd_ascii] by blast
qed

text \<open>C16. Two copies of a payment that both have a fingerprint have the same one whenever they name the same network, asset, payer, payee,
  amount and nonce, whatever the letter case, the network alias and the rest of the two envelopes; and where the fingerprints agree the copies
  name the same payment, or two different texts with one SHA-256 digest are in hand.\<close>

theorem fingerprint_joins:
  assumes "ucd_ascii u" "fingerprint u x = Inr (Inr fp)" "fingerprint u y = Inr (Inr fp')"
  shows "(if same_payment u x y then fp = fp'
    else fp = fp' \<longrightarrow> (\<exists>v w a b. preimage u x = Inr v \<and> preimage u y = Inr w \<and> canonicalize v = Inr a \<and> canonicalize w = Inr b \<and> collision a b))"
proof -
  obtain p a net val q b net' val' where h: "fp_payment x p a net val" "fp_payment y q b net' val'"
    and f: "fp = U ''sha256:'' @ sha256_hex (utf8_total (dumps_compact (jcs_sort (fp_object u p a net val))))"
      "fp' = U ''sha256:'' @ sha256_hex (utf8_total (dumps_compact (jcs_sort (fp_object u q b net' val'))))"
    using assms(2,3) unfolding fingerprint_ok [OF assms(1)] by blast
  let ?v = "jcs_sort (fp_object u p a net val)" and ?w = "jcs_sort (fp_object u q b net' val')"
  have plain: "json_plain ?v" "json_plain ?w" using fp_object_plain [OF assms(1)] h jcs_sort_plain by blast+
  show ?thesis
  proof (cases "same_payment u x y")
    case True
    then show ?thesis using f same_payment_object [OF h] by simp
  next
    case False
    then have "?v \<noteq> ?w" using same_payment_object [OF h] by simp
    then have "utf8_total (dumps_compact ?v) \<noteq> utf8_total (dumps_compact ?w)"
      using utf8_total_inj [OF fp_object_bytes(2) [OF assms(1) h(1)] fp_object_bytes(2) [OF assms(1) h(2)]] dumps_compact_inj [OF plain] by blast
    moreover have "fp = fp' \<Longrightarrow> sha256_hex (utf8_total (dumps_compact ?v)) = sha256_hex (utf8_total (dumps_compact ?w))" using f by simp
    ultimately have "fp = fp' \<Longrightarrow> collision (utf8_total (dumps_compact ?v)) (utf8_total (dumps_compact ?w))" using sha256_hex_eq by blast
    moreover have "preimage u x = Inr (fp_object u p a net val)" "preimage u y = Inr (fp_object u q b net' val')"
      unfolding preimage_ok using h by blast+
    ultimately show ?thesis
      using False fp_object_bytes(1) [OF assms(1) h(1)] fp_object_bytes(1) [OF assms(1) h(2)] by (simp only: if_False) blast
  qed
qed

theorem fingerprint_joins_witness:
  "\<exists>fp. fingerprint sample_ucd (sample_payment (U ''base'') 65 (S ''r'')) = Inr (Inr fp) \<and>
     fingerprint sample_ucd (sample_payment (U ''eip155:8453'') 97 PyNone) = Inr (Inr fp)"
proof -
  let ?x = "sample_payment (U ''base'') 65 (S ''r'')" and ?y = "sample_payment (U ''eip155:8453'') 97 PyNone"
  have v: "hex_value 65 \<noteq> None" "hex_value 97 \<noteq> None" "hex_value 48 \<noteq> None" "hex_value 49 \<noteq> None" by (simp_all add: hex_value_def)
  obtain fp fp' where f: "fingerprint sample_ucd ?x = Inr (Inr fp)" "fingerprint sample_ucd ?y = Inr (Inr fp')"
    using sample_fingerprint [of "U ''base''" "U ''eip155:8453''" 65 "S ''r''"] sample_fingerprint [of "U ''eip155:8453''" "U ''eip155:8453''" 97 PyNone] v
    by (auto simp: sample_networks)
  have "same_payment sample_ucd ?x ?y"
    by (simp add: same_payment_def sample_payment_def sample_networks lit_simps lowered_def sample_ucd_def ascii_lower_def sample_b32_def)
  with fingerprint_joins [OF sample_ucd_ascii f] f show ?thesis by auto
qed

lemma fingerprint_total:
  assumes "ucd_ascii u"
  shows "\<exists>r. fingerprint u payment = Inr r"
proof (cases "preimage u payment")
  case (Inr pre)
  then obtain p a net val where "fp_payment payment p a net val" "pre = fp_object u p a net val" unfolding preimage_ok by blast
  then show ?thesis using fp_object_bytes(1) [OF assms] Inr by (auto simp: fingerprint_def)
qed (simp add: fingerprint_def)

section \<open>What a commitment opens to\<close>

lemma rbnd_eq_Inr [simp]: "(rbnd m f = Inr y) = (\<exists>x. m = Inr x \<and> f x = Inr y)"
  by (cases m) (auto simp: rbnd_def)

lemma hex_digit_value: "hex_value c = Some x \<Longrightarrow> x < 16 \<and> [hex_digit x] = ascii_lower [c]"
  by (auto simp: hex_value_def hex_digit_def ascii_lower_def split: if_splits)

lemma byte_hex_pair: "x < 16 \<Longrightarrow> y < 16 \<Longrightarrow> byte_hex (of_nat (16 * x + y)) = [hex_digit x, hex_digit y]"
  by (simp only: byte_hex_def unat_of_nat_byte) simp

text \<open>Hexadecimal digits decode, and what they decode to is written back in lower case.\<close>

lemma fromhex_digits:
  "list_all (\<lambda>c. hex_value c \<noteq> None) s \<Longrightarrow> even (length s) \<Longrightarrow> \<exists>b. fromhex s = Inr b \<and> hex_of b = ascii_lower s"
proof (induction s rule: fromhex.induct)
  case (3 c d s)
  then obtain x y where v: "hex_value c = Some x" "hex_value d = Some y" by auto
  have n: "\<not> hex_space c" using v by (auto simp: hex_value_def hex_space_def split: if_splits)
  obtain b where b: "fromhex s = Inr b" "hex_of b = ascii_lower s" using 3 n v by auto
  have "hex_of (of_nat (16 * x + y) # b) = byte_hex (of_nat (16 * x + y)) @ hex_of b" by (simp add: hex_of_def)
  also have "\<dots> = ascii_lower (c # d # s)"
    using hex_digit_value [OF v(1)] hex_digit_value [OF v(2)] byte_hex_pair [of x y] b(2) by (simp add: ascii_lower_def del: of_nat_add of_nat_mult)
  finally show ?case using n v b(1) by (auto simp del: of_nat_add of_nat_mult)
qed (auto simp: hex_of_def ascii_lower_def)

lemma hex_payload_ok:
  assumes "ucd_ascii u" "hex_payload (2 * n) err u v = Inr b"
  obtains s where "v = PyStr s" "hex_field (2 * n) s" "fromhex (drop 2 s) = Inr b" "length b = n" "hex_bytes v n = Some b"
    "lowered u v = hex0x b"
proof -
  from assms(2) obtain s where s: "v = PyStr s" "hex_field (2 * n) s" "fromhex (u_lower u (drop 2 s)) = Inr b"
    by (auto simp: hex_payload_def split: py.splits if_splits sum.splits)
  have "list_all (\<lambda>c. c < 128) (drop 2 s)" using hex_field_ascii [OF s(2)] by (metis append_take_drop_id list_all_append)
  then have f: "fromhex (drop 2 s) = Inr b" using s(3) lower_ascii [OF assms(1)] fromhex_lower by metis
  moreover have l: "hex_of b = ascii_lower (drop 2 s)" using s(2) f fromhex_digits [of "drop 2 s"] by (auto simp: hex_field_def)
  moreover have "length b = n" using arg_cong [OF l, of length] s(2) by (simp add: hex_field_def ascii_lower_def)
  moreover have "hex_bytes v n = Some b" using s(1,2) f by (simp add: hex_bytes_def hex_field_def)
  moreover have "ascii_lower s = hex0x b"
  proof -
    have "take 2 s = U ''0x''" using s(2) by (simp add: hex_field_def startswith_def U_def numeral_2_eq_2)
    then have "ascii_lower s = ascii_lower (U ''0x'') @ ascii_lower (drop 2 s)"
      unfolding ascii_lower_def map_append [symmetric] by (metis append_take_drop_id)
    then show ?thesis using l by (simp add: hex0x_def ascii_lower_def U_def)
  qed
  moreover have "lowered u v = ascii_lower s" using s(1) lower_ascii [OF assms(1) hex_field_ascii [OF s(2)]] by (simp add: lowered_def)
  ultimately show ?thesis using that s by metis
qed

lemma eip3009_ascii: "map of_nat (U ''eip3009'') = utf8_total (U ''eip3009'')"
  by (simp add: U_def utf8_total_def utf8_char_def)

text \<open>The bytes a candidate's opening hashes, for fields that decode.\<close>

definition rac_pre :: "bytes \<Rightarrow> bytes \<Rightarrow> bytes \<Rightarrow> bytes \<Rightarrow> bytes" where
  "rac_pre a b n s = commit_pre (utf8_total (U ''eip3009'')) a b n s"

lemma rac_commit_ok:
  assumes "ucd_ascii u" "rac_commit u meth asset authorizer nonce salt = Inr h"
  obtains a b n s where "meth = S ''eip3009''" "hex_bytes asset 20 = Some a" "hex_bytes authorizer 20 = Some b" "hex_bytes nonce 32 = Some n"
    "hex_bytes salt 32 = Some s" "h = hex0x (sha256 (rac_pre a b n s))" "lowered u nonce = hex0x n"
    "length a = 20" "length b = 20" "length n = 32" "length s = 32"
proof -
  from assms(2) obtain a b n s where m: "meth = S ''eip3009''" and h: "h = hex0x (sha256 (rac_pre a b n s))"
    and p: "hex_payload (2 * 20) (U ''asset'' @ U ''_not_address'') u asset = Inr a"
      "hex_payload (2 * 20) (U ''authorizer'' @ U ''_not_address'') u authorizer = Inr b"
      "hex_payload (2 * 32) (U ''nonce'' @ U ''_not_bytes32'') u nonce = Inr n"
      "hex_payload (2 * 32) (U ''salt'' @ U ''_not_bytes32'') u salt = Inr s"
    by (auto simp: rac_commit_def rac_addr_def rac_b32_def py_in_def py_eq_Str_right rac_pre_def commit_pre_def split: if_splits)
  show ?thesis
    using m h that hex_payload_ok [OF assms(1) p(1)] hex_payload_ok [OF assms(1) p(2)] hex_payload_ok [OF assms(1) p(3)]
      hex_payload_ok [OF assms(1) p(4)] by metis
qed

lemma sample_payload:
  assumes "py_hex_field (2 * n) v"
  shows "\<exists>b. hex_payload (2 * n) err sample_ucd v = Inr b"
proof -
  from assms obtain s where s: "v = PyStr s" "hex_field (2 * n) s" by (auto simp: py_hex_field_def split: py.splits)
  then obtain b where "fromhex (drop 2 s) = Inr b" using fromhex_digits [of "drop 2 s"] by (auto simp: hex_field_def)
  then show ?thesis using s by (simp add: hex_payload_def sample_ucd_def fromhex_lower)
qed

lemma sample_commit:
  assumes "hex_value c \<noteq> None"
  shows "\<exists>h. rac_commit sample_ucd (S ''eip3009'') (sample_addr 48) (sample_addr 49) (sample_b32 c) (sample_b32 50) = Inr h"
proof -
  have "hex_value 48 \<noteq> None" "hex_value 49 \<noteq> None" "hex_value 50 \<noteq> None" by (simp_all add: hex_value_def)
  then have "py_hex_field (2 * 20) (sample_addr 48)" "py_hex_field (2 * 20) (sample_addr 49)" "py_hex_field (2 * 32) (sample_b32 c)"
    "py_hex_field (2 * 32) (sample_b32 50)" using sample_fields assms by simp_all
  from this [THEN sample_payload] show ?thesis
    unfolding rac_commit_def rac_addr_def rac_b32_def by (simp add: py_in_def) metis
qed

text \<open>The holder's tool and the receipt checker make the same commitment: whenever \<^verbatim>\<open>commit\<close> returns one, the checker decodes the same four
  fields and its own construction gives the same text.\<close>

lemma commitments_agree:
  assumes "ucd_ascii u" "rac_commit u meth asset authorizer nonce salt = Inr h"
  shows "\<exists>a b n s. hex_bytes asset 20 = Some a \<and> hex_bytes authorizer 20 = Some b \<and> hex_bytes nonce 32 = Some n \<and> hex_bytes salt 32 = Some s \<and>
    (case meth of PyStr m \<Rightarrow> commitment m a b n s = Inr h | _ \<Rightarrow> False)"
proof -
  have "list_all (\<lambda>c. c < 128) (U ''eip3009'')" by (simp add: U_def)
  then have "commitment (U ''eip3009'') a b n s = Inr (hex0x (sha256 (rac_pre a b n s)))" for a b n s
    by (simp add: commitment_def ascii_encode_def rac_pre_def eip3009_ascii)
  moreover from rac_commit_ok [OF assms] obtain a b n s where "meth = S ''eip3009''" "hex_bytes asset 20 = Some a"
    "hex_bytes authorizer 20 = Some b" "hex_bytes nonce 32 = Some n" "hex_bytes salt 32 = Some s" "h = hex0x (sha256 (rac_pre a b n s))" .
  ultimately show ?thesis by simp
qed

lemma rac_hits_filter: "rac_hits c t ns = Inr hs \<Longrightarrow> hs = filter (\<lambda>n. c n = Inr t) ns"
  by (induction ns arbitrary: hs) auto

text \<open>Whether a candidate opens a commitment.\<close>

definition rac_opens :: "ucd \<Rightarrow> py \<Rightarrow> py \<Rightarrow> py \<Rightarrow> py \<Rightarrow> py \<Rightarrow> py \<Rightarrow> bool" where
  "rac_opens u com salt meth asset authorizer n \<longleftrightarrow> rac_commit u meth asset authorizer n salt = Inr (lowered u com)"

lemma rac_opens_same:
  assumes "ucd_ascii u" "rac_opens u com salt meth asset authorizer x" "rac_opens u com salt meth asset authorizer y"
  obtains a b n n' s where "hex_bytes x 32 = Some n" "hex_bytes y 32 = Some n'" "hex_bytes asset 20 = Some a" "hex_bytes authorizer 20 = Some b"
    "hex_bytes salt 32 = Some s" "lowered u x = lowered u y \<or> collision (rac_pre a b n s) (rac_pre a b n' s)"
proof -
  from rac_commit_ok [OF assms(1) assms(2) [unfolded rac_opens_def]] obtain a b n s
    where x: "hex_bytes asset 20 = Some a" "hex_bytes authorizer 20 = Some b" "hex_bytes x 32 = Some n" "hex_bytes salt 32 = Some s"
      "lowered u com = hex0x (sha256 (rac_pre a b n s))" "lowered u x = hex0x n" "length n = 32" by metis
  from rac_commit_ok [OF assms(1) assms(3) [unfolded rac_opens_def]] obtain a' b' n' s'
    where y: "hex_bytes asset 20 = Some a'" "hex_bytes authorizer 20 = Some b'" "hex_bytes y 32 = Some n'" "hex_bytes salt 32 = Some s'"
      "lowered u com = hex0x (sha256 (rac_pre a' b' n' s'))" "lowered u y = hex0x n'" "length n' = 32" by metis
  have e: "a' = a" "b' = b" "s' = s" using x y by auto
  have "sha256 (rac_pre a b n s) = sha256 (rac_pre a b n' s)" using x(5) y(5) e by (simp add: hex0x_def)
  then have "n = n' \<or> collision (rac_pre a b n s) (rac_pre a b n' s)"
    using x(7) y(7) by (auto simp: collision_def rac_pre_def commit_pre_def)
  then show ?thesis using that x y e by metis
qed

text \<open>What the link says: a nonce is linked exactly when one candidate opens the commitment, and it is that candidate's; no match
  means that none does; and two candidates that both open it are one nonce up to the case of its digits, or their openings are a SHA-256
  collision.\<close>

lemma link_opens_one:
  assumes "ucd_ascii u" "rac_link u com salt meth asset authorizer cands = Inr r"
  shows "(case (r, filter (rac_opens u com salt meth asset authorizer) cands) of
       (RacLinked n, [c]) \<Rightarrow> n = lowered u c
     | (RacNoMatch, []) \<Rightarrow> True
     | (RacAmbiguous hits, x # y # cs) \<Rightarrow>
         hits = x # y # cs \<and> (\<exists>a b n n' s. hex_bytes x 32 = Some n \<and> hex_bytes y 32 = Some n' \<and> hex_bytes asset 20 = Some a \<and>
           hex_bytes authorizer 20 = Some b \<and> hex_bytes salt 32 = Some s \<and>
           (lowered u x = lowered u y \<or> collision (rac_pre a b n s) (rac_pre a b n' s)))
     | _ \<Rightarrow> False)"
proof -
  let ?f = "filter (rac_opens u com salt meth asset authorizer) cands"
  from assms(2) have r: "r = (case ?f of [n] \<Rightarrow> RacLinked (lowered u n) | [] \<Rightarrow> RacNoMatch | _ \<Rightarrow> RacAmbiguous ?f)"
    unfolding rac_opens_def [abs_def] by (auto simp: rac_link_def dest!: rac_hits_filter)
  consider "?f = []" | c where "?f = [c]" | x y cs where "?f = x # y # cs" by (metis neq_Nil_conv)
  then show ?thesis
  proof cases
    case 3
    then have "x \<in> set ?f" "y \<in> set ?f" by auto
    then have "rac_opens u com salt meth asset authorizer x" "rac_opens u com salt meth asset authorizer y" by auto
    from rac_opens_same [OF assms(1) this] show ?thesis using r 3 by simp metis
  qed (use r in auto)
qed

lemma sample_link:
  assumes "rac_commit sample_ucd (S ''eip3009'') (sample_addr 48) (sample_addr 49) (sample_b32 c) (sample_b32 50) = Inr h"
  shows "rac_link sample_ucd (PyStr h) (sample_b32 50) (S ''eip3009'') (sample_addr 48) (sample_addr 49) [sample_b32 c]
    = Inr (RacLinked (lowered sample_ucd (sample_b32 c)))"
proof -
  from rac_commit_ok [OF sample_ucd_ascii assms] obtain p where p: "h = hex0x (sha256 p)" by metis
  have low: "ascii_lower h = h"
  proof -
    have "ascii_lower (hex_of b) = hex_of b" for b
      using hex_of_lower [of b] by (auto simp: ascii_lower_def list_all_iff is_lower_hex_def intro!: map_idI)
    then show ?thesis using p by (simp add: hex0x_def ascii_lower_def U_def)
  qed
  have "hex_value c \<noteq> None" if "is_lower_hex c" for c using that by (auto simp: hex_value_def is_lower_hex_def)
  then have "list_all (\<lambda>c. hex_value c \<noteq> None) (hex_of b)" for b using hex_of_lower [of b] by (auto simp: list_all_iff)
  then have "py_hex_field (2 * 32) (PyStr h)"
    unfolding p by (simp add: py_hex_field_def hex_field_def startswith_def hex0x_def U_def)
  from sample_payload [OF this] obtain b where "rac_b32 sample_ucd (PyStr h) ''commitment'' = Inr b" by (auto simp: rac_b32_def)
  moreover have "lowered sample_ucd (PyStr h) = h" using low by (simp add: lowered_def sample_ucd_def)
  ultimately show ?thesis using assms by (simp add: rac_link_def)
qed

lemma link_opens_one_instance:
  "\<exists>h. rac_link sample_ucd (PyStr h) (sample_b32 50) (S ''eip3009'') (sample_addr 48) (sample_addr 49) [sample_b32 97]
       = Inr (RacLinked (lowered sample_ucd (sample_b32 97))) \<and>
     filter (rac_opens sample_ucd (PyStr h) (sample_b32 50) (S ''eip3009'') (sample_addr 48) (sample_addr 49)) [sample_b32 97] = [sample_b32 97]"
proof -
  obtain h where h: "rac_commit sample_ucd (S ''eip3009'') (sample_addr 48) (sample_addr 49) (sample_b32 97) (sample_b32 50) = Inr h"
    using sample_commit [of 97] by (auto simp: hex_value_def)
  from link_opens_one [OF sample_ucd_ascii sample_link [OF h]] have
    "filter (rac_opens sample_ucd (PyStr h) (sample_b32 50) (S ''eip3009'') (sample_addr 48) (sample_addr 49)) [sample_b32 97] = [sample_b32 97]"
    by (auto split: if_splits)
  then show ?thesis using sample_link [OF h] by blast
qed

end
