(* ===== verification/PrivateOpening.thy ===== *)
theory PrivateOpening
  imports Payments
begin

text \<open>
  \<^verbatim>\<open>examples/x402-receipt-private-opening/statement.py\<close>: a verifier opens a receipt's commitment in private, signs what it found, and keeps the signed
  statements in an append-only log in which every statement carries the digest of the one before it. A statement can be challenged
  once the opening is public.
\<close>

section \<open>Canonical bytes\<close>

definition st_canon :: "py \<Rightarrow> bytes res" where
  "st_canon v = ascii_encode (json_dumps True True [44] [58] v)"

definition st_b64u :: "bytes \<Rightarrow> ustr" where
  "st_b64u b = rev (dropWhile (\<lambda>c. c = 61) (rev (map (\<lambda>c. if c = 43 then 45 else if c = 47 then 95 else c) (b64encode b))))"

definition st_unb64u :: "py \<Rightarrow> bytes res" where
  "st_unb64u v = bnd (as_str TypeError v) (\<lambda>s. urlsafe_b64decode (s @ replicate ((4 - length s mod 4) mod 4) 61))"

definition receipt_sha256 :: "py \<Rightarrow> ustr res" where
  "receipt_sha256 receipt = bnd (st_canon receipt) (\<lambda>b. Inr (sha256_hex b))"

section \<open>The finding\<close>

datatype finding = OpensToSettlement | NoSettlement | PayerIsNotRater | PaytoNotBoundToAgent | IncompleteCheck

fun finding_text :: "finding \<Rightarrow> ustr" where
  "finding_text OpensToSettlement = U ''opens_to_settlement''"
| "finding_text NoSettlement = U ''no_settlement''"
| "finding_text PayerIsNotRater = U ''payer_is_not_rater''"
| "finding_text PaytoNotBoundToAgent = U ''payto_not_bound_to_agent''"
| "finding_text IncompleteCheck = U ''incomplete_check''"

definition py_lower :: "ucd \<Rightarrow> py \<Rightarrow> ustr res" where
  "py_lower u v = bnd (as_str AttributeError v) (\<lambda>s. Inr (u_lower u s))"

text \<open>The settlements the verifier read, when it could read them.\<close>

definition chain_nonces :: "py \<Rightarrow> pydict option" where
  "chain_nonces chain =
     (case chain of
        PyDict c \<Rightarrow> if dget c ''available'' = PyBool False then None else (case dget c ''nonces'' of PyDict ns \<Rightarrow> Some ns | _ \<Rightarrow> None)
      | _ \<Rightarrow> None)"

text \<open>From the settlement on: its status, whether its transfers were read, and whether one of them pays a wallet of the agent.\<close>

definition settlement_finding :: "ucd \<Rightarrow> py list \<Rightarrow> py \<Rightarrow> finding res" where
  "settlement_finding u agent_wallets s =
     bnd (py_get s ''status'') (\<lambda>status.
     if \<not> py_eq status (PyInt 1) then Inr NoSettlement
     else
       bnd (py_get s ''transfers'') (\<lambda>transfers.
       if transfers = PyNone then Inr IncompleteCheck
       else
         bnd (map_r (py_lower u) agent_wallets) (\<lambda>bound.
         bnd (py_iter transfers) (\<lambda>ts.
         bnd (any_r (\<lambda>t. bnd (bnd (py_item t ''to'') (py_lower u)) (\<lambda>w. Inr (w \<in> set bound))) ts) (\<lambda>paid.
           Inr (if paid then OpensToSettlement else PaytoNotBoundToAgent))))))"

definition lift_r :: "'a res \<Rightarrow> 'a rac" where
  "lift_r m = (case m of Inl e \<Rightarrow> Inl (RacExn e) | Inr x \<Rightarrow> Inr x)"

text \<open>\<^verbatim>\<open>link\<close> with the receipt's fields, the opening and the nonces the chain has for the payer.\<close>

definition assess_link :: "ucd \<Rightarrow> py \<Rightarrow> py \<Rightarrow> ustr \<Rightarrow> pydict \<Rightarrow> rac_result rac" where
  "assess_link u receipt opening payer nonces =
     rbnd (lift_r (py_item receipt ''authorizationCommitment'')) (\<lambda>com.
     rbnd (lift_r (py_item opening ''salt'')) (\<lambda>salt.
     rbnd (lift_r (py_item receipt ''authorizationMethod'')) (\<lambda>meth.
     rbnd (lift_r (py_item opening ''asset'')) (\<lambda>asset.
       rac_link u com salt meth asset (PyStr payer) (map (\<lambda>kv. PyStr (fst kv)) nonces)))))"

definition assess :: "ucd \<Rightarrow> py \<Rightarrow> py \<Rightarrow> py \<Rightarrow> py list \<Rightarrow> py \<Rightarrow> finding rac" where
  "assess u receipt opening rater agent_wallets chain =
     rbnd (lift_r (bnd (py_item receipt ''payer'') (py_lower u))) (\<lambda>payer.
     rbnd (lift_r (py_lower u rater)) (\<lambda>r.
     if payer \<noteq> r then Inr PayerIsNotRater
     else
       (case chain_nonces chain of
          None \<Rightarrow> Inr IncompleteCheck
        | Some nonces \<Rightarrow>
            (case assess_link u receipt opening payer nonces of
               Inl (RacMalformed _) \<Rightarrow> Inr NoSettlement
             | Inl e \<Rightarrow> Inl e
             | Inr (RacLinked n) \<Rightarrow>
                 (case map_of nonces n of
                    None \<Rightarrow> Inl (RacExn KeyError)
                  | Some s \<Rightarrow> lift_r (settlement_finding u agent_wallets s))
             | Inr _ \<Rightarrow> Inr NoSettlement))))"

section \<open>Statements\<close>

definition ST_TYPE :: ustr where
  "ST_TYPE = U ''x402-receipt-private-opening/1''"

definition read_at_ok :: "py \<Rightarrow> bool" where
  "read_at_ok r =
     (case r of
        PyDict d \<Rightarrow>
          set (map fst d) = {U ''number'', U ''hash''} \<and> (case as_int (dget d ''number'') of None \<Rightarrow> False | Some i \<Rightarrow> 0 \<le> i) \<and>
          (case dget d ''hash'' of PyStr h \<Rightarrow> length h = 66 \<and> startswith h (U ''0x'') \<and> list_all is_lower_hex (drop 2 h) | _ \<Rightarrow> False)
      | _ \<Rightarrow> False)"

definition make_statement ::
  "ucd \<Rightarrow> py \<Rightarrow> ustr \<Rightarrow> py \<Rightarrow> py \<Rightarrow> py \<Rightarrow> py \<Rightarrow> int \<Rightarrow> ustr \<Rightarrow> bytes \<Rightarrow> py \<Rightarrow> pydict res" where
  "make_statement u receipt result rater agent asset checked_at seq prev secret read_at =
     (if result \<notin> finding_text ` {OpensToSettlement, NoSettlement, PayerIsNotRater, PaytoNotBoundToAgent, IncompleteCheck} then Inl ValueError
      else
        bnd (py_item read_at ''number'') (\<lambda>number.
        bnd (py_item read_at ''hash'') (\<lambda>hash.
        let read_at' = PyDict [(U ''number'', number), (U ''hash'', PyStr (u_lower u (py_str u hash)))] in
        if \<not> read_at_ok read_at' then Inl ValueError
        else
          bnd (receipt_sha256 receipt) (\<lambda>h.
          bnd (bnd (py_item receipt ''authorizationCommitment'') (py_lower u)) (\<lambda>com.
          bnd (py_item receipt ''authorizationMethod'') (\<lambda>meth.
          bnd (py_item receipt ''network'') (\<lambda>net.
          bnd (py_lower u asset) (\<lambda>a.
          bnd (py_lower u rater) (\<lambda>r.
          bnd (ref_public_key secret) (\<lambda>pk.
          let st = [(U ''type'', PyStr ST_TYPE), (U ''receipt_sha256'', PyStr h), (U ''commitment'', PyStr com), (U ''method'', meth),
                (U ''network'', net), (U ''asset'', PyStr a), (U ''rater'', PyStr r), (U ''agent'', agent), (U ''result'', PyStr result),
                (U ''checked_at'', checked_at), (U ''read_at'', read_at'), (U ''seq'', PyInt seq), (U ''prev'', PyStr prev),
                (U ''verifier'', PyStr (st_b64u pk))]
          in bnd (st_canon (PyDict st)) (\<lambda>m. bnd (ref_sign secret m) (\<lambda>sg. Inr (dset st (U ''signature'') (PyStr (st_b64u sg)))))))))))))))"

definition st_body :: "pydict \<Rightarrow> pydict" where
  "st_body st = filter (\<lambda>kv. fst kv \<noteq> U ''signature'') st"

definition signature_ok :: "pydict \<Rightarrow> bool" where
  "signature_ok st =
     try_default
       (bnd (bnd (py_item (PyDict st) ''verifier'') st_unb64u) (\<lambda>pk.
        bnd (st_canon (PyDict (st_body st))) (\<lambda>m.
        bnd (bnd (py_item (PyDict st) ''signature'') st_unb64u) (\<lambda>sg. ref_verify pk m sg)))) False"

definition removeprefix :: "ustr \<Rightarrow> ustr \<Rightarrow> ustr" where
  "removeprefix p s = (if startswith s p then drop (length p) s else s)"

definition leaks :: "ucd \<Rightarrow> pydict \<Rightarrow> ustr list \<Rightarrow> ustr list res" where
  "leaks u st secrets =
     bnd (st_canon (PyDict st)) (\<lambda>b.
       let blob = u_lower u (map unat b) in Inr (filter (\<lambda>s. substr (removeprefix (U ''0x'') (u_lower u s)) blob) secrets))"

section \<open>The log\<close>




section \<open>Challenges\<close>

datatype challenge_result = Upheld | Refuted | NotBound | ChallengeBadSignature | Unanchored | Reorged | ChallengeIncomplete

text \<open>The challenger's canonical hash of the block a statement was read at.\<close>

definition canonical_at :: "ucd \<Rightarrow> pydict \<Rightarrow> py \<Rightarrow> py res" where
  "canonical_at u st chain =
     (case chain of
        PyDict c \<Rightarrow>
          bnd (bnd (py_item (PyDict st) ''read_at'') (\<lambda>r. py_item r ''number'')) (\<lambda>n.
          case dget_default c ''canonical'' (PyDict []) of
            PyDict t \<Rightarrow> Inr (case map_of t (py_str u n) of None \<Rightarrow> PyNone | Some v \<Rightarrow> v)
          | _ \<Rightarrow> Inl AttributeError)
      | _ \<Rightarrow> Inr PyNone)"

definition challenge :: "ucd \<Rightarrow> pydict \<Rightarrow> py \<Rightarrow> py \<Rightarrow> py list \<Rightarrow> py \<Rightarrow> challenge_result rac" where
  "challenge u st receipt opening agent_wallets chain =
     (if \<not> signature_ok st then Inr ChallengeBadSignature
      else
        rbnd (lift_r (receipt_sha256 receipt)) (\<lambda>h.
        if \<not> py_eq (dget st ''receipt_sha256'') (PyStr h) then Inr NotBound
        else if \<not> py_eq (dget st ''type'') (PyStr ST_TYPE) \<or> \<not> read_at_ok (dget st ''read_at'') then Inr Unanchored
        else
          rbnd (lift_r (canonical_at u st chain)) (\<lambda>canonical.
          if canonical = PyNone then Inr ChallengeIncomplete
          else
            rbnd (lift_r (py_lower u canonical)) (\<lambda>c.
            rbnd (lift_r (bnd (py_item (PyDict st) ''read_at'') (\<lambda>r. py_item r ''hash''))) (\<lambda>h'.
            if \<not> py_eq (PyStr c) h' then Inr Reorged
            else
              rbnd (lift_r (py_item (PyDict st) ''rater'')) (\<lambda>rater.
              rbnd (assess u receipt opening rater agent_wallets chain) (\<lambda>again.
              if again = IncompleteCheck then Inr ChallengeIncomplete
              else rbnd (lift_r (py_item (PyDict st) ''result'')) (\<lambda>res.
                Inr (if py_eq (PyStr (finding_text again)) res then Upheld else Refuted)))))))))"

text \<open>\<^verbatim>\<open>grounded_pairs\<close>: the pairs in the order the statements give them; the code collects them in a set.\<close>

definition grounds :: "ustr list \<Rightarrow> pydict \<Rightarrow> bool res" where
  "grounds trusted s =
     (if \<not> py_eq (dget s ''result'') (PyStr (finding_text OpensToSettlement)) then Inr False
      else if \<not> hashable (dget s ''verifier'') then Inl TypeError
      else
        Inr ((case dget s ''verifier'' of PyStr v \<Rightarrow> v \<in> set trusted | _ \<Rightarrow> False) \<and> signature_ok s \<and>
          py_eq (dget s ''type'') (PyStr ST_TYPE) \<and> read_at_ok (dget s ''read_at'')))"

fun grounded_pairs :: "ustr list \<Rightarrow> pydict list \<Rightarrow> (py \<times> py) list res" where
  "grounded_pairs trusted [] = Inr []"
| "grounded_pairs trusted (s # ss) =
     bnd (grounds trusted s) (\<lambda>ok.
     if \<not> ok then grounded_pairs trusted ss
     else
       bnd (py_item (PyDict s) ''rater'') (\<lambda>r.
       bnd (py_item (PyDict s) ''agent'') (\<lambda>a.
       if \<not> hashable r \<or> \<not> hashable a then Inl TypeError
       else bnd (grounded_pairs trusted ss) (\<lambda>ps. Inr ((r, a) # ps)))))"

section \<open>What a finding says\<close>

lemma lift_r_eq_Inr [simp]: "(lift_r m = Inr x) = (m = Inr x)"
  by (cases m) (auto simp: lift_r_def)

lemma lift_r_Inr: "lift_r (Inr x) = Inr x"
  by (simp add: lift_r_def)

lemma rbnd_Inr: "rbnd (Inr x) f = f x"
  by (simp add: rbnd_def)

lemma any_r_True: "any_r f xs = Inr True \<Longrightarrow> \<exists>x \<in> set xs. f x = Inr True"
  by (induction xs) (auto split: if_splits)

text \<open>A settlement of the nonce with status 1, one of whose transfers pays a wallet of the agent.\<close>

definition settled_to :: "ucd \<Rightarrow> py list \<Rightarrow> py \<Rightarrow> bool" where
  "settled_to u agent_wallets s \<longleftrightarrow>
     (\<exists>d ts t to w. s = PyDict d \<and> py_eq (dget d ''status'') (PyInt 1) \<and> py_iter (dget d ''transfers'') = Inr ts \<and> t \<in> set ts \<and>
        py_item t ''to'' = Inr (PyStr to) \<and> PyStr w \<in> set agent_wallets \<and> u_lower u to = u_lower u w)"

lemma py_lower_eq [simp]: "(py_lower u v = Inr s) = (\<exists>t. v = PyStr t \<and> u_lower u t = s)"
  by (auto simp: py_lower_def)

lemma py_get_Inr: "py_get v k = Inr x \<Longrightarrow> \<exists>d. v = PyDict d \<and> x = dget d k"
  by (cases v) (auto simp: py_get_def dget_default_def dget_def)

lemma lowered_wallets: "map_r (py_lower u) ws = Inr bound \<Longrightarrow> b \<in> set bound \<Longrightarrow> \<exists>w. PyStr w \<in> set ws \<and> u_lower u w = b"
proof -
  assume "map_r (py_lower u) ws = Inr bound" "b \<in> set bound"
  then obtain i where i: "i < length ws" "py_lower u (ws ! i) = Inr b"
    by (auto simp: map_r_eq_Inr list_all2_conv_all_nth in_set_conv_nth)
  then obtain w where "ws ! i = PyStr w" "u_lower u w = b" by auto
  then show ?thesis using i(1) nth_mem [of i ws] by auto
qed

lemma settlement_opens: "settlement_finding u ws s = Inr OpensToSettlement \<Longrightarrow> settled_to u ws s"
proof -
  assume "settlement_finding u ws s = Inr OpensToSettlement"
  then obtain status transfers bound ts where h: "py_get s ''status'' = Inr status" "py_eq status (PyInt 1)" "py_get s ''transfers'' = Inr transfers"
    "map_r (py_lower u) ws = Inr bound" "py_iter transfers = Inr ts"
    "any_r (\<lambda>t. bnd (bnd (py_item t ''to'') (py_lower u)) (\<lambda>w. Inr (w \<in> set bound))) ts = Inr True"
    unfolding settlement_finding_def by (auto split: if_splits)
  from any_r_True [OF h(6)] obtain t to where t: "t \<in> set ts" "py_item t ''to'' = Inr (PyStr to)" "u_lower u to \<in> set bound" by auto
  from lowered_wallets [OF h(4) t(3)] obtain w where "PyStr w \<in> set ws" "u_lower u w = u_lower u to" by blast
  moreover from py_get_Inr [OF h(1)] py_get_Inr [OF h(3)] obtain d where "s = PyDict d" "status = dget d ''status''" "transfers = dget d ''transfers''"
    by auto
  ultimately show ?thesis unfolding settled_to_def using h(2,5) t(1,2) by metis
qed

lemma assess_opens:
  "assess u receipt opening rater ws chain = Inr OpensToSettlement \<Longrightarrow>
   \<exists>p r nonces n s. py_item receipt ''payer'' = Inr (PyStr p) \<and> rater = PyStr r \<and> u_lower u p = u_lower u r \<and> chain_nonces chain = Some nonces \<and>
     assess_link u receipt opening (u_lower u p) nonces = Inr (RacLinked n) \<and> map_of nonces n = Some s \<and>
     settlement_finding u ws s = Inr OpensToSettlement"
  unfolding assess_def by (auto split: if_splits option.splits sum.splits rac_exn.splits rac_result.splits)

lemma assess_link_Inr:
  "assess_link u receipt opening payer nonces = Inr r \<longleftrightarrow>
   (\<exists>com salt meth asset. py_item receipt ''authorizationCommitment'' = Inr com \<and> py_item opening ''salt'' = Inr salt \<and>
     py_item receipt ''authorizationMethod'' = Inr meth \<and> py_item opening ''asset'' = Inr asset \<and>
     rac_link u com salt meth asset (PyStr payer) (map (\<lambda>kv. PyStr (fst kv)) nonces) = Inr r)"
  unfolding assess_link_def by auto

lemma rac_link_linked:
  "rac_link u com salt meth asset authorizer cands = Inr (RacLinked n) \<Longrightarrow>
   \<exists>c \<in> set cands. rac_opens u com salt meth asset authorizer c \<and> n = lowered u c"
proof -
  assume "rac_link u com salt meth asset authorizer cands = Inr (RacLinked n)"
  then obtain hs where h: "rac_hits (\<lambda>n. rac_commit u meth asset authorizer n salt) (lowered u com) cands = Inr hs"
    "(case hs of [c] \<Rightarrow> RacLinked (lowered u c) | [] \<Rightarrow> RacNoMatch | _ \<Rightarrow> RacAmbiguous hs) = RacLinked n"
    by (auto simp: rac_link_def)
  from h(2) obtain c where "hs = [c]" "n = lowered u c" by (cases hs rule: remdups_adj.cases) auto
  with rac_hits_filter [OF h(1)]
  have c: "filter (\<lambda>n. rac_commit u meth asset authorizer n salt = Inr (lowered u com)) cands = [c]" "n = lowered u c" by auto
  then have "c \<in> set (filter (\<lambda>n. rac_commit u meth asset authorizer n salt = Inr (lowered u com)) cands)" by simp
  then show ?thesis using c(2) by (auto simp: rac_opens_def)
qed

text \<open>A finding that a receipt opens to a settlement is right about the chain that was read: the payer is the rater, some nonce the chain
  has for the payer opens the receipt's commitment with the salt and asset received, and the settlement of that nonce has status 1 and
  a transfer to a wallet bound to the agent.\<close>

lemma assess_sound:
  "case assess u receipt opening rater agent_wallets chain of
     Inr OpensToSettlement \<Rightarrow>
       (\<exists>p r nonces key s com salt meth asset. py_item receipt ''payer'' = Inr (PyStr p) \<and> rater = PyStr r \<and> u_lower u p = u_lower u r \<and>
          chain_nonces chain = Some nonces \<and> key \<in> fst ` set nonces \<and>
          py_item receipt ''authorizationCommitment'' = Inr com \<and> py_item receipt ''authorizationMethod'' = Inr meth \<and>
          py_item opening ''salt'' = Inr salt \<and> py_item opening ''asset'' = Inr asset \<and>
          rac_opens u com salt meth asset (PyStr (u_lower u p)) (PyStr key) \<and>
          map_of nonces (u_lower u key) = Some s \<and> settled_to u agent_wallets s)
   | _ \<Rightarrow> True"
proof (cases "assess u receipt opening rater agent_wallets chain = Inr OpensToSettlement")
  case True
  from assess_opens [OF this] obtain p r nonces n s where h: "py_item receipt ''payer'' = Inr (PyStr p)" "rater = PyStr r" "u_lower u p = u_lower u r"
    "chain_nonces chain = Some nonces" "assess_link u receipt opening (u_lower u p) nonces = Inr (RacLinked n)" "map_of nonces n = Some s"
    "settlement_finding u agent_wallets s = Inr OpensToSettlement" by blast
  from h(5) obtain com salt meth asset where l: "py_item receipt ''authorizationCommitment'' = Inr com" "py_item opening ''salt'' = Inr salt"
    "py_item receipt ''authorizationMethod'' = Inr meth" "py_item opening ''asset'' = Inr asset"
    "rac_link u com salt meth asset (PyStr (u_lower u p)) (map (\<lambda>kv. PyStr (fst kv)) nonces) = Inr (RacLinked n)"
    unfolding assess_link_Inr by blast
  from rac_link_linked [OF l(5)] obtain key where k: "key \<in> fst ` set nonces" "rac_opens u com salt meth asset (PyStr (u_lower u p)) (PyStr key)"
    "n = u_lower u key" by (auto simp: lowered_def)
  show ?thesis unfolding True sum.case finding.case using h l k settlement_opens [OF h(7)] by blast
next
  case False
  then show ?thesis by (auto split: sum.splits finding.splits)
qed

text \<open>The verifier looks a settlement up under the nonce in lower case: where the chain's own key for the nonce that opens the commitment is
  not in lower case, the finding ends in an exception.\<close>

lemma assess_key_case:
  assumes "py_item receipt ''payer'' = Inr (PyStr p)" "rater = PyStr r" "u_lower u p = u_lower u r" "chain_nonces chain = Some nonces"
    "assess_link u receipt opening (u_lower u p) nonces = Inr (RacLinked n)" "n \<notin> fst ` set nonces"
  shows "assess u receipt opening rater agent_wallets chain = Inl (RacExn KeyError)"
proof -
  have "map_of nonces n = None" using assms(6) by (simp add: map_of_eq_None_iff)
  then show ?thesis using assms(1-5) by (simp add: assess_def rbnd_def lift_r_def py_lower_def)
qed

section \<open>What a challenge says\<close>

text \<open>C20. A statement is upheld or refuted only on grounds that a challenger can stand behind: its signature verifies, it is bound to this
  receipt, the block it was read at is the challenger's canonical block, and the finding made again is a complete one; upheld when it
  is the finding stated, refuted when it is another. An unreadable chain or a reorganised one gives neither.\<close>

theorem challenge_grounds:
  "challenge u st receipt opening agent_wallets chain = Inr v \<and> v \<in> {Upheld, Refuted} \<longleftrightarrow>
     (\<exists>h c res rater again. signature_ok st \<and> receipt_sha256 receipt = Inr h \<and> dget st ''receipt_sha256'' = PyStr h \<and>
        dget st ''type'' = PyStr ST_TYPE \<and> read_at_ok (dget st ''read_at'') \<and> canonical_at u st chain = Inr (PyStr c) \<and>
        bnd (py_item (PyDict st) ''read_at'') (\<lambda>r. py_item r ''hash'') = Inr (PyStr (u_lower u c)) \<and>
        py_item (PyDict st) ''rater'' = Inr rater \<and> py_item (PyDict st) ''result'' = Inr res \<and>
        assess u receipt opening rater agent_wallets chain = Inr again \<and> again \<noteq> IncompleteCheck \<and>
        v = (if res = PyStr (finding_text again) then Upheld else Refuted))"
  (is "?l \<longleftrightarrow> ?r")
proof
  assume ?l
  then show ?r
    unfolding challenge_def by (auto simp: py_eq_Str_right py_eq_Str_left split: if_splits)
next
  assume ?r
  then obtain h c res rater again where e: "signature_ok st" "receipt_sha256 receipt = Inr h" "dget st ''receipt_sha256'' = PyStr h"
    "dget st ''type'' = PyStr ST_TYPE" "read_at_ok (dget st ''read_at'')" "canonical_at u st chain = Inr (PyStr c)"
    "bnd (py_item (PyDict st) ''read_at'') (\<lambda>r. py_item r ''hash'') = Inr (PyStr (u_lower u c))" "py_item (PyDict st) ''rater'' = Inr rater"
    "py_item (PyDict st) ''result'' = Inr res" "assess u receipt opening rater agent_wallets chain = Inr again" "again \<noteq> IncompleteCheck"
    "v = (if res = PyStr (finding_text again) then Upheld else Refuted)" by blast
  have low: "py_lower u (PyStr c) = Inr (u_lower u c)" by simp
  show ?l
    unfolding challenge_def e(2,3,4,6,7,8,9,10) low lift_r_Inr rbnd_Inr py_eq_Str_left using e(1,5,11,12) by simp
qed

section \<open>The log binds its statements\<close>

































end
