(* ===== verification/Mandate.thy ===== *)
theory Mandate
  imports PrivateOpening
begin

text \<open>
  \<^verbatim>\<open>examples/x402-receipt-ap2-mandate/mandate_check.py\<close>: whether the settlement a receipt is for traces back to the user's consent. A mandate is
  followed from the issuer's credential over the user's key binding, the merchant's cart and the payment authorization to the receipt's
  commitment and the transfer on chain; the first step that fails names the result.
\<close>

section \<open>Signed tokens\<close>

definition md_canon :: "py \<Rightarrow> bytes res" where
  "md_canon v = ascii_encode (json_dumps True True [44] [58] v)"

definition md_b64u :: "bytes \<Rightarrow> ustr" where
  "md_b64u b = rev (dropWhile (\<lambda>c. c = 61) (rev (map (\<lambda>c. if c = 43 then 45 else if c = 47 then 95 else c) (b64encode b))))"

definition md_unb64u :: "py \<Rightarrow> bytes res" where
  "md_unb64u v =
     (case v of
        PyStr s \<Rightarrow> if 61 \<in> set s then Inl ValueError else urlsafe_b64decode (s @ replicate ((4 - length s mod 4) mod 4) 61)
      | _ \<Rightarrow> Inl ValueError)"

text \<open>\<^verbatim>\<open>h\<close>: the digest used for \<^verbatim>\<open>cart_hash\<close> and \<^verbatim>\<open>transaction_data\<close>.\<close>

definition md_h :: "py \<Rightarrow> ustr res" where
  "md_h v = bnd (md_canon v) (\<lambda>b. Inr (md_b64u (sha256 b)))"

definition jwt_sign :: "py \<Rightarrow> py \<Rightarrow> bytes \<Rightarrow> ustr res" where
  "jwt_sign header payload secret =
     bnd (md_canon header) (\<lambda>hb.
     bnd (md_canon payload) (\<lambda>pb.
     let si = md_b64u hb @ [46] @ md_b64u pb in
     bnd (ascii_encode si) (\<lambda>m. bnd (ref_sign secret m) (\<lambda>sg. Inr (si @ [46] @ md_b64u sg)))))"

text \<open>\<^verbatim>\<open>s.split(c)\<close> for one character.\<close>

fun split_on :: "nat \<Rightarrow> ustr \<Rightarrow> ustr list" where
  "split_on c [] = [[]]"
| "split_on c (x # s) = (if x = c then [] # split_on c s else (case split_on c s of p # ps \<Rightarrow> (x # p) # ps | [] \<Rightarrow> [[x]]))"

text \<open>The classes the handler of \<^verbatim>\<open>jwt_verify\<close> and of the terms names.\<close>

definition jwt_caught :: "exn \<Rightarrow> bool" where
  "jwt_caught e \<longleftrightarrow> is_value_error e \<or> e \<in> {KeyError, AttributeError, TypeError}"

definition jwt_parts :: "ustr \<Rightarrow> ustr \<Rightarrow> ustr \<Rightarrow> bytes \<Rightarrow> py res" where
  "jwt_parts h0 p0 s0 pub =
     bnd (bnd (md_unb64u (PyStr h0)) json_loads_bytes) (\<lambda>head.
     bnd (py_get head ''alg'') (\<lambda>alg.
     if \<not> py_eq alg (S ''EdDSA'') then Inr PyNone
     else
       bnd (ascii_encode (h0 @ [46] @ p0)) (\<lambda>m.
       bnd (md_unb64u (PyStr s0)) (\<lambda>sb.
       bnd (ref_verify pub m sb) (\<lambda>ok.
       if \<not> ok then Inr PyNone else bnd (md_unb64u (PyStr p0)) json_loads_bytes)))))"

definition jwt_verify :: "py \<Rightarrow> bytes \<Rightarrow> py res" where
  "jwt_verify token pub =
     (case bnd (as_str AttributeError token) (\<lambda>t.
             case split_on 46 t of [h0, p0, s0] \<Rightarrow> jwt_parts h0 p0 s0 pub | _ \<Rightarrow> Inl ValueError) of
        Inl e \<Rightarrow> if jwt_caught e then Inr PyNone else Inl e
      | Inr v \<Rightarrow> Inr v)"

section \<open>The parts of a bundle\<close>

record mandate =
  cart_mandate :: py
  md_receipt :: py
  md_salt :: py
  pm_contents :: py
  issuer_jwt :: ustr
  kb_jwt :: ustr
  cart :: py
  req :: py
  pay :: py
  auth :: py

text \<open>\<^verbatim>\<open>v[0]\<close>.\<close>

definition py_first :: "py \<Rightarrow> py res" where
  "py_first v =
     (case v of
        PyList (x # _) \<Rightarrow> Inr x
      | PyList [] \<Rightarrow> Inl IndexError
      | PyStr (c # _) \<Rightarrow> Inr (PyStr [c])
      | PyStr [] \<Rightarrow> Inl IndexError
      | PyDict _ \<Rightarrow> Inl KeyError
      | _ \<Rightarrow> Inl TypeError)"

fun find_requirement :: "py list \<Rightarrow> py res" where
  "find_requirement [] = Inl KeyError"
| "find_requirement (m # ms) =
     bnd (py_get m ''supported_methods'') (\<lambda>s.
     if py_eq s (S ''https://www.x402.org/'') then bnd (bnd (py_item m ''data'') (\<lambda>d. py_item d ''accepts'')) py_first
     else find_requirement ms)"

definition x402_requirement :: "py \<Rightarrow> py res" where
  "x402_requirement cart_contents =
     bnd (bnd (bnd (py_item cart_contents ''payment_request'') (\<lambda>r. py_item r ''method_data'')) py_iter) find_requirement"

definition md_parse :: "py \<Rightarrow> mandate res" where
  "md_parse bundle =
     bnd (py_item bundle ''cart_mandate'') (\<lambda>cm.
     bnd (py_item bundle ''payment_mandate'') (\<lambda>pm.
     bnd (py_item bundle ''receipt'') (\<lambda>receipt.
     bnd (py_item bundle ''salt'') (\<lambda>salt.
     bnd (py_item pm ''payment_mandate_contents'') (\<lambda>pmc.
     bnd (bnd (py_item pm ''user_authorization'') (as_str AttributeError)) (\<lambda>ua.
     bnd (py_item cm ''contents'') (\<lambda>cart.
     bnd (x402_requirement cart) (\<lambda>req.
     bnd (bnd (py_item pmc ''payment_response'') (\<lambda>r. py_item r ''details'')) (\<lambda>pay.
     bnd (bnd (py_item pay ''payload'') (\<lambda>p. py_item p ''authorization'')) (\<lambda>auth.
       Inr \<lparr>cart_mandate = cm, md_receipt = receipt, md_salt = salt, pm_contents = pmc, issuer_jwt = hd (split_on 126 ua),
         kb_jwt = last (split_on 126 ua), cart = cart, req = req, pay = pay, auth = auth\<rparr>))))))))))"

section \<open>The steps of the check\<close>

text \<open>The user's key as the credential has it; \<open>None\<close> when there is none to use.\<close>

definition md_user_pub :: "py \<Rightarrow> bytes option res" where
  "md_user_pub cred =
     (if \<not> truthy cred then Inr None
      else
        (case bnd (bnd (bnd (py_item cred ''cnf'') (\<lambda>c. py_item c ''jwk'')) (\<lambda>j. py_item j ''x'')) md_unb64u of
           Inl e \<Rightarrow> if is_value_error e \<or> e \<in> {KeyError, TypeError} then Inr None else Inl e
         | Inr k \<Rightarrow> Inr (if k = [] then None else Some k)))"

text \<open>Step 1: the key-binding token, when the issuer vouches for the user's key and that key signed it over the credential.\<close>

definition md_consent :: "mandate \<Rightarrow> py \<Rightarrow> py option res" where
  "md_consent m trusted =
     bnd (bnd (py_item trusted ''issuer'') md_unb64u) (\<lambda>ik.
     bnd (jwt_verify (PyStr (issuer_jwt m)) ik) (\<lambda>cred.
     bnd (md_user_pub cred) (\<lambda>up.
     bnd (case up of None \<Rightarrow> Inr PyNone | Some k \<Rightarrow> jwt_verify (PyStr (kb_jwt m)) k) (\<lambda>kb.
     if \<not> truthy kb then Inr None
     else
       bnd (py_get kb ''sd_hash'') (\<lambda>sd.
       bnd (ascii_encode (issuer_jwt m @ [126])) (\<lambda>b.
         Inr (if py_eq sd (PyStr (md_b64u (sha256 b))) then Some kb else None)))))))"

text \<open>Step 2: the token's transaction data names this cart and this payment.\<close>

definition md_bound :: "mandate \<Rightarrow> py \<Rightarrow> bool res" where
  "md_bound m kb =
     bnd (py_get kb ''transaction_data'') (\<lambda>td.
     case td of
       PyList ts \<Rightarrow>
         and_r (bnd (md_h (cart_mandate m)) (\<lambda>h. Inr (py_in (PyStr h) ts)))
           (and_r (bnd (md_h (pm_contents m)) (\<lambda>h. Inr (py_in (PyStr h) ts)))
             (bnd (py_get (pm_contents m) ''payment_details_id'') (\<lambda>i.
              bnd (bnd (bnd (py_item (cart m) ''payment_request'') (\<lambda>r. py_item r ''details'')) (\<lambda>d. py_item d ''id'')) (\<lambda>j. Inr (py_eq i j)))))
     | _ \<Rightarrow> Inr False)"

text \<open>Step 3: the merchant signed the hash of these contents.\<close>

definition md_cart_signed :: "mandate \<Rightarrow> py \<Rightarrow> bool res" where
  "md_cart_signed m trusted =
     bnd (py_get (cart_mandate m) ''merchant_authorization'') (\<lambda>t.
     bnd (bnd (py_item trusted ''merchant'') md_unb64u) (\<lambda>mk.
     bnd (jwt_verify (py_or t (PyStr [])) mk) (\<lambda>mj.
     if \<not> truthy mj then Inr False
     else bnd (py_get mj ''cart_hash'') (\<lambda>c. bnd (md_h (cart m)) (\<lambda>h. Inr (py_eq c (PyStr h)))))))"

text \<open>Step 4: the authorization pays what the cart asks.\<close>

definition md_terms :: "ucd \<Rightarrow> mandate \<Rightarrow> bool res" where
  "md_terms u m =
     and_r (bnd (py_get (pay m) ''network'') (\<lambda>a. bnd (py_item (req m) ''network'') (\<lambda>b. Inr (py_eq a b))))
       (and_r (bnd (py_get (pay m) ''scheme'') (\<lambda>a. bnd (py_item (req m) ''scheme'') (\<lambda>b. Inr (py_eq a b))))
         (and_r (bnd (bnd (py_item (auth m) ''to'') (py_lower u)) (\<lambda>a. bnd (bnd (py_item (req m) ''payTo'') (py_lower u)) (\<lambda>b. Inr (a = b))))
           (bnd (bnd (py_item (auth m) ''value'') (py_int u)) (\<lambda>a.
            bnd (bnd (py_item (req m) ''maxAmountRequired'') (py_int u)) (\<lambda>b. Inr (a \<le> b))))))"

text \<open>Step 5: the receipt names this authorization.\<close>

definition md_names :: "ucd \<Rightarrow> mandate \<Rightarrow> bool rac" where
  "md_names u m =
     rbnd (lift_r (bnd (bnd (py_item (md_receipt m) ''payer'') (py_lower u)) (\<lambda>a.
       bnd (bnd (py_item (auth m) ''from'') (py_lower u)) (\<lambda>b. Inr (a = b))))) (\<lambda>same.
     if \<not> same then Inr False
     else
       rbnd (lift_r (py_get (md_receipt m) ''authorizationMethod'')) (\<lambda>meth.
       if \<not> py_eq meth (S ''eip3009'') then Inr False
       else
         rbnd (lift_r (py_item (req m) ''asset'')) (\<lambda>asset.
         rbnd (lift_r (py_item (md_receipt m) ''payer'')) (\<lambda>payer.
         rbnd (lift_r (py_item (auth m) ''nonce'')) (\<lambda>nonce.
         rbnd (rac_commit u (S ''eip3009'') asset payer nonce (md_salt m)) (\<lambda>h.
         rbnd (lift_r (bnd (py_item (md_receipt m) ''authorizationCommitment'') (py_lower u))) (\<lambda>c. Inr (h = c))))))))"

definition md_same :: "ucd \<Rightarrow> mandate \<Rightarrow> bool res" where
  "md_same u m =
     (case md_names u m of
        Inl (RacMalformed _) \<Rightarrow> Inr False
      | Inl (RacNotAttempted _) \<Rightarrow> Inl ValueError
      | Inl (RacExn e) \<Rightarrow> if e \<in> {KeyError, AttributeError} then Inr False else Inl e
      | Inr b \<Rightarrow> Inr b)"

datatype mandate_result =
    ConsentedAndSettled | ConsentInvalid | ConsentNotBound | CartNotMerchantSigned | TermsMismatch | ReceiptNotThisAuthorization
  | MdNoSettlement | SettlementTermsMismatch | MdIncompleteCheck | MdMalformed

text \<open>Step 6: this authorization settled, to that payee and for that amount.\<close>

definition pays_auth :: "ucd \<Rightarrow> mandate \<Rightarrow> py \<Rightarrow> bool res" where
  "pays_auth u m t =
     and_r (bnd (bnd (py_item t ''to'') (py_lower u)) (\<lambda>a. bnd (bnd (py_item (auth m) ''to'') (py_lower u)) (\<lambda>b. Inr (a = b))))
       (bnd (bnd (py_item t ''amount'') (py_int u)) (\<lambda>a. bnd (bnd (py_item (auth m) ''value'') (py_int u)) (\<lambda>b. Inr (a = b))))"

definition md_settled :: "ucd \<Rightarrow> mandate \<Rightarrow> py \<Rightarrow> mandate_result res" where
  "md_settled u m chain =
     (case chain_nonces chain of
        None \<Rightarrow> Inr MdIncompleteCheck
      | Some nonces \<Rightarrow>
          bnd (bnd (py_item (auth m) ''nonce'') (py_lower u)) (\<lambda>n.
          let s = (case map_of nonces n of None \<Rightarrow> PyNone | Some s \<Rightarrow> s) in
          if \<not> truthy s then Inr MdNoSettlement
          else
            bnd (py_get s ''status'') (\<lambda>status.
            if \<not> py_eq status (PyInt 1) then Inr MdNoSettlement
            else
              bnd (py_get s ''transfers'') (\<lambda>transfers.
              if transfers = PyNone then Inr MdIncompleteCheck
              else
                bnd (bnd (py_iter transfers) (any_r (pays_auth u m))) (\<lambda>paid.
                  Inr (if paid then ConsentedAndSettled else SettlementTermsMismatch))))))"

definition mandate_check :: "ucd \<Rightarrow> py \<Rightarrow> py \<Rightarrow> py \<Rightarrow> mandate_result res" where
  "mandate_check u bundle chain trusted =
     (case md_parse bundle of
        Inl e \<Rightarrow> if jwt_caught e \<or> e = IndexError then Inr MdMalformed else Inl e
      | Inr m \<Rightarrow>
          bnd (md_consent m trusted) (\<lambda>kb.
          case kb of
            None \<Rightarrow> Inr ConsentInvalid
          | Some kb \<Rightarrow>
              bnd (md_bound m kb) (\<lambda>b.
              if \<not> b then Inr ConsentNotBound
              else
                bnd (md_cart_signed m trusted) (\<lambda>c.
                if \<not> c then Inr CartNotMerchantSigned
                else
                  (case md_terms u m of
                     Inl e \<Rightarrow> if jwt_caught e then Inr MdMalformed else Inl e
                   | Inr False \<Rightarrow> Inr TermsMismatch
                   | Inr True \<Rightarrow>
                       bnd (md_same u m) (\<lambda>same. if \<not> same then Inr ReceiptNotThisAuthorization else md_settled u m chain))))))"

section \<open>What a settled consent rests on\<close>

text \<open>A token of three parts whose signature verifies under a key and whose middle part reads as a value.\<close>

definition jwt_signed :: "py \<Rightarrow> bytes \<Rightarrow> py \<Rightarrow> bool" where
  "jwt_signed token pub v \<longleftrightarrow>
     (\<exists>t h p s m sb. token = PyStr t \<and> split_on 46 t = [h, p, s] \<and> ascii_encode (h @ [46] @ p) = Inr m \<and> md_unb64u (PyStr s) = Inr sb \<and>
        ref_verify pub m sb = Inr True \<and> bnd (md_unb64u (PyStr p)) json_loads_bytes = Inr v)"

lemma list3_cases: "(case xs of [a, b, c] \<Rightarrow> f a b c | _ \<Rightarrow> Inl e) = Inr v \<Longrightarrow> \<exists>a b c. xs = [a, b, c] \<and> f a b c = Inr v"
  by (auto split: list.splits)

lemma jwt_verify_signed:
  assumes "jwt_verify token pub = Inr v" "v \<noteq> PyNone"
  shows "jwt_signed token pub v"
proof -
  from assms obtain t where t: "token = PyStr t"
    "(case split_on 46 t of [h0, p0, s0] \<Rightarrow> jwt_parts h0 p0 s0 pub | _ \<Rightarrow> Inl ValueError) = Inr v"
    by (auto simp: jwt_verify_def bnd_def split: sum.splits if_splits)
  from list3_cases [OF t(2)] obtain h p s where h: "split_on 46 t = [h, p, s]" "jwt_parts h p s pub = Inr v" by blast
  from h(2) assms(2) obtain m sb where "ascii_encode (h @ [46] @ p) = Inr m" "md_unb64u (PyStr s) = Inr sb" "ref_verify pub m sb = Inr True"
    "bnd (md_unb64u (PyStr p)) json_loads_bytes = Inr v"
    unfolding jwt_parts_def by (auto split: if_splits)
  then show ?thesis unfolding jwt_signed_def using t(1) h(1) by blast
qed

definition trusted_key :: "py \<Rightarrow> string \<Rightarrow> bytes \<Rightarrow> bool" where
  "trusted_key trusted who k \<longleftrightarrow> bnd (py_item trusted who) md_unb64u = Inr k"

text \<open>The issuer's credential names the user's key, and that key signed a token bound to the credential and to this cart and payment.\<close>

definition consented :: "mandate \<Rightarrow> py \<Rightarrow> bool" where
  "consented m trusted \<longleftrightarrow>
     (\<exists>ik cred uk kb b ts hc hp. trusted_key trusted ''issuer'' ik \<and> jwt_signed (PyStr (issuer_jwt m)) ik cred \<and>
        bnd (bnd (bnd (py_item cred ''cnf'') (\<lambda>c. py_item c ''jwk'')) (\<lambda>j. py_item j ''x'')) md_unb64u = Inr uk \<and>
        jwt_signed (PyStr (kb_jwt m)) uk (PyDict kb) \<and> ascii_encode (issuer_jwt m @ [126]) = Inr b \<and>
        dget kb ''sd_hash'' = PyStr (md_b64u (sha256 b)) \<and> dget kb ''transaction_data'' = PyList ts \<and>
        md_h (cart_mandate m) = Inr hc \<and> PyStr hc \<in> set ts \<and> md_h (pm_contents m) = Inr hp \<and> PyStr hp \<in> set ts)"

text \<open>The merchant signed the hash of the cart's contents.\<close>

definition cart_signed :: "mandate \<Rightarrow> py \<Rightarrow> bool" where
  "cart_signed m trusted \<longleftrightarrow>
     (\<exists>mk t mj h. trusted_key trusted ''merchant'' mk \<and> py_get (cart_mandate m) ''merchant_authorization'' = Inr t \<and> jwt_signed t mk (PyDict mj) \<and>
        md_h (cart m) = Inr h \<and> dget mj ''cart_hash'' = PyStr h)"

text \<open>The authorization pays the cart's payee no more than its price.\<close>

definition within_terms :: "ucd \<Rightarrow> mandate \<Rightarrow> bool" where
  "within_terms u m \<longleftrightarrow>
     (\<exists>payee to v most. py_item (req m) ''payTo'' = Inr (PyStr payee) \<and> py_item (auth m) ''to'' = Inr (PyStr to) \<and> u_lower u to = u_lower u payee \<and>
        bnd (py_item (auth m) ''value'') (py_int u) = Inr v \<and> bnd (py_item (req m) ''maxAmountRequired'') (py_int u) = Inr most \<and> v \<le> most)"

text \<open>The receipt's payer is the authorizer and its commitment opens, with the salt, to this authorization's nonce.\<close>

definition receipt_names :: "ucd \<Rightarrow> mandate \<Rightarrow> bool" where
  "receipt_names u m \<longleftrightarrow>
     (\<exists>payer from asset nonce c. py_item (md_receipt m) ''payer'' = Inr (PyStr payer) \<and> py_item (auth m) ''from'' = Inr (PyStr from) \<and>
        u_lower u payer = u_lower u from \<and> py_item (req m) ''asset'' = Inr asset \<and> py_item (auth m) ''nonce'' = Inr nonce \<and>
        py_item (md_receipt m) ''authorizationCommitment'' = Inr (PyStr c) \<and>
        rac_commit u (S ''eip3009'') asset (PyStr payer) nonce (md_salt m) = Inr (u_lower u c))"

text \<open>The chain has a settlement of this nonce with status 1 and a transfer of exactly this value to the payee.\<close>

definition settled_for :: "ucd \<Rightarrow> mandate \<Rightarrow> py \<Rightarrow> bool" where
  "settled_for u m chain \<longleftrightarrow>
     (\<exists>nonces n d ts t to to' v. chain_nonces chain = Some nonces \<and> py_item (auth m) ''nonce'' = Inr (PyStr n) \<and>
        map_of nonces (u_lower u n) = Some (PyDict d) \<and> py_eq (dget d ''status'') (PyInt 1) \<and> py_iter (dget d ''transfers'') = Inr ts \<and>
        t \<in> set ts \<and> py_item t ''to'' = Inr (PyStr to) \<and> py_item (auth m) ''to'' = Inr (PyStr to') \<and> u_lower u to = u_lower u to' \<and>
        bnd (py_item t ''amount'') (py_int u) = Inr v \<and> bnd (py_item (auth m) ''value'') (py_int u) = Inr v)"

lemma py_in_set: "py_in (PyStr s) ws \<longleftrightarrow> PyStr s \<in> set ws"
  by (auto simp: py_in_def list_ex_iff py_eq_Str_left)

lemma truthy_not_None: "truthy v \<Longrightarrow> v \<noteq> PyNone"
  by auto

lemma consent_holds:
  assumes "md_consent m trusted = Inr (Some kb)" "md_bound m kb = Inr True"
  shows "consented m trusted"
proof -
  from assms(1) obtain ik cred up sd b where c: "trusted_key trusted ''issuer'' ik" "jwt_verify (PyStr (issuer_jwt m)) ik = Inr cred"
    "md_user_pub cred = Inr up" "(case up of None \<Rightarrow> Inr PyNone | Some k \<Rightarrow> jwt_verify (PyStr (kb_jwt m)) k) = Inr kb" "truthy kb"
    "py_get kb ''sd_hash'' = Inr sd" "ascii_encode (issuer_jwt m @ [126]) = Inr b" "py_eq sd (PyStr (md_b64u (sha256 b)))"
    unfolding md_consent_def trusted_key_def by (auto split: if_splits)
  from c(4,5) obtain uk where uk: "up = Some uk" "jwt_verify (PyStr (kb_jwt m)) uk = Inr kb" by (auto split: option.splits)
  from c(3) uk(1) have k: "bnd (bnd (bnd (py_item cred ''cnf'') (\<lambda>c. py_item c ''jwk'')) (\<lambda>j. py_item j ''x'')) md_unb64u = Inr uk" "truthy cred"
    unfolding md_user_pub_def by (auto split: sum.splits if_splits)
  from py_get_Inr [OF c(6)] obtain kd where kd: "kb = PyDict kd" "sd = dget kd ''sd_hash''" by blast
  from assms(2) obtain ts hc hp where ts: "dget kd ''transaction_data'' = PyList ts" "md_h (cart_mandate m) = Inr hc" "PyStr hc \<in> set ts"
    "md_h (pm_contents m) = Inr hp" "PyStr hp \<in> set ts"
    unfolding md_bound_def kd(1) by (auto simp: and_r_def py_in_set split: py.splits if_splits)
  have sd: "dget kd ''sd_hash'' = PyStr (md_b64u (sha256 b))" using c(8) kd(2) by (simp add: py_eq_Str_right)
  note signed = jwt_verify_signed [OF c(2) truthy_not_None [OF k(2)]] jwt_verify_signed [OF uk(2) truthy_not_None [OF c(5)], unfolded kd(1)]
  show ?thesis
    unfolding consented_def using c(1) signed(1) k(1) signed(2) c(7) sd ts by (intro exI conjI)
qed

lemma cart_signed_holds: "md_cart_signed m trusted = Inr True \<Longrightarrow> cart_signed m trusted"
proof -
  assume "md_cart_signed m trusted = Inr True"
  then obtain t mk mj c h where s: "py_get (cart_mandate m) ''merchant_authorization'' = Inr t" "trusted_key trusted ''merchant'' mk"
    "jwt_verify (py_or t (PyStr [])) mk = Inr mj" "truthy mj" "py_get mj ''cart_hash'' = Inr c" "md_h (cart m) = Inr h" "py_eq c (PyStr h)"
    unfolding md_cart_signed_def trusted_key_def by (auto split: if_splits)
  from py_get_Inr [OF s(5)] obtain d where d: "mj = PyDict d" "c = dget d ''cart_hash''" by blast
  have j: "jwt_signed (py_or t (PyStr [])) mk (PyDict d)" using jwt_verify_signed [OF s(3) truthy_not_None [OF s(4)]] d(1) by simp
  have "py_or t (PyStr []) = t"
  proof (rule ccontr)
    assume "py_or t (PyStr []) \<noteq> t"
    then have "py_or t (PyStr []) = PyStr []" by (auto simp: py_or_def)
    with j show False by (auto simp: jwt_signed_def)
  qed
  then show ?thesis using s d j unfolding cart_signed_def py_eq_Str_right by metis
qed

lemma terms_hold: "md_terms u m = Inr True \<Longrightarrow> within_terms u m"
  unfolding md_terms_def within_terms_def and_r_def by (auto split: if_splits)

lemma names_hold: "md_same u m = Inr True \<Longrightarrow> receipt_names u m"
proof -
  assume "md_same u m = Inr True"
  then have "md_names u m = Inr True" by (auto simp: md_same_def split: sum.splits rac_exn.splits if_splits)
  then show ?thesis unfolding md_names_def receipt_names_def by (auto split: if_splits)
qed

lemma pays_authI:
  "pays_auth u m t = Inr True \<Longrightarrow>
   \<exists>to to' v. py_item t ''to'' = Inr (PyStr to) \<and> py_item (auth m) ''to'' = Inr (PyStr to') \<and> u_lower u to = u_lower u to' \<and>
     bnd (py_item t ''amount'') (py_int u) = Inr v \<and> bnd (py_item (auth m) ''value'') (py_int u) = Inr v"
  unfolding pays_auth_def and_r_def by (auto split: if_splits)

lemma settled_holds: "md_settled u m chain = Inr ConsentedAndSettled \<Longrightarrow> settled_for u m chain"
proof -
  assume a: "md_settled u m chain = Inr ConsentedAndSettled"
  then obtain nonces where ns: "chain_nonces chain = Some nonces" by (auto simp: md_settled_def split: option.splits)
  from a ns obtain n where n: "py_item (auth m) ''nonce'' = Inr (PyStr n)" by (auto simp: md_settled_def)
  define s where "s = (case map_of nonces (u_lower u n) of None \<Rightarrow> PyNone | Some s \<Rightarrow> s)"
  have low: "py_lower u (PyStr n) = Inr (u_lower u n)" by simp
  from a obtain status transfers ts where h: "truthy s" "py_get s ''status'' = Inr status" "py_eq status (PyInt 1)"
    "py_get s ''transfers'' = Inr transfers" "py_iter transfers = Inr ts" "any_r (pays_auth u m) ts = Inr True"
    unfolding md_settled_def ns option.case n bnd_Inr low Let_def s_def [symmetric] by (auto split: if_splits)
  from h(1) have m: "map_of nonces (u_lower u n) = Some s" by (auto simp: s_def split: option.splits)
  from py_get_Inr [OF h(2)] py_get_Inr [OF h(4)] obtain d where d: "s = PyDict d" "status = dget d ''status''" "transfers = dget d ''transfers''" by auto
  from any_r_True [OF h(6)] obtain t where t: "t \<in> set ts" "pays_auth u m t = Inr True" by blast
  from pays_authI [OF t(2)] show ?thesis unfolding settled_for_def using ns n m d h(3,5) t(1) by metis
qed

lemma check_steps:
  assumes "mandate_check u bundle chain trusted = Inr ConsentedAndSettled"
  obtains m kb where "md_parse bundle = Inr m" "md_consent m trusted = Inr (Some kb)" "md_bound m kb = Inr True"
    "md_cart_signed m trusted = Inr True" "md_terms u m = Inr True" "md_same u m = Inr True" "md_settled u m chain = Inr ConsentedAndSettled"
  using assms unfolding mandate_check_def
  by (auto split: sum.splits if_splits option.splits bool.splits)

text \<open>C15. A mandate that is reported consented and settled is: the trusted issuer's signed credential names the key that signed consent
  to this cart and this payment, the trusted merchant signed the cart, the authorization pays the cart's payee no more than its price, the
  receipt's commitment opens to this authorization, and the chain has a successful settlement of it with a transfer of that value to that payee.\<close>

theorem consented_and_settled_sound:
  "case mandate_check u bundle chain trusted of
     Inr ConsentedAndSettled \<Rightarrow>
       (\<exists>m. md_parse bundle = Inr m \<and> consented m trusted \<and> cart_signed m trusted \<and> within_terms u m \<and> receipt_names u m \<and> settled_for u m chain)
   | _ \<Rightarrow> True"
proof (cases "mandate_check u bundle chain trusted = Inr ConsentedAndSettled")
  case True
  from check_steps [OF this] obtain m kb where "md_parse bundle = Inr m" "md_consent m trusted = Inr (Some kb)" "md_bound m kb = Inr True"
    "md_cart_signed m trusted = Inr True" "md_terms u m = Inr True" "md_same u m = Inr True" "md_settled u m chain = Inr ConsentedAndSettled" .
  then have "md_parse bundle = Inr m \<and> consented m trusted \<and> cart_signed m trusted \<and> within_terms u m \<and> receipt_names u m \<and> settled_for u m chain"
    using consent_holds cart_signed_holds terms_hold names_hold settled_holds by blast
  then show ?thesis unfolding True sum.case mandate_result.case by blast
next
  case False
  then show ?thesis by (auto split: sum.splits mandate_result.splits)
qed

section \<open>When the check raises\<close>

text \<open>A trusted key that is not base64url is not caught, whatever the bundle, once the bundle has its parts.\<close>

lemma bad_trusted_key_raises:
  "md_parse bundle = Inr m \<Longrightarrow> py_item trusted ''issuer'' = Inr (PyStr k) \<Longrightarrow> 61 \<in> set k \<Longrightarrow>
   mandate_check u bundle chain trusted = Inl ValueError"
  by (simp add: mandate_check_def md_consent_def md_unb64u_def)

end
