(* ===== verification/Nenrin.thy ===== *)
theory Nenrin
  imports WarToken
begin

text \<open>
  \<^verbatim>\<open>examples/nenrin-cleanroom-verifier/nenrin_cleanroom.py\<close>: a verifier of provenance bundles, written from the normative procedure. A bundle carries
  witnessed hops of a delegation, a grant with the receipts of its execution, and an intent declared before it; the procedure collects
  refusals and findings in a report, which each step passes on. A canonical form that is refused and one nested too deeply for the
  interpreter are not told apart by the code, and the second is not modelled.
\<close>

section \<open>Canonical form\<close>

definition n_SAFE :: int where
  "n_SAFE = 2 ^ 53 - 1"

definition n_char :: "nat \<Rightarrow> ustr" where
  "n_char c =
     (if c = 34 then [92, 34]
      else if c = 92 then [92, 92]
      else if c = 8 then [92, 98]
      else if c = 12 then [92, 102]
      else if c = 10 then [92, 110]
      else if c = 13 then [92, 114]
      else if c = 9 then [92, 116]
      else if c < 32 then [92, 117] @ hex_pad 4 c
      else if is_surrogate c then [92, 117] @ hex_pad 4 c
      else [c])"

definition n_cstr :: "ustr \<Rightarrow> ustr" where
  "n_cstr s = [34] @ concat (map n_char s) @ [34]"

text \<open>The integer a float is, if it is one.\<close>

definition float_integer :: "pyfloat \<Rightarrow> int option" where
  "float_integer f =
     (case f of
        FFin s m e \<Rightarrow>
          (let n = (if 0 \<le> e then Some (int m * 2 ^ nat e) else if 2 ^ nat (- e) dvd int m then Some (int m div 2 ^ nat (- e)) else None)
           in map_option (\<lambda>i. if s then - i else i) n)
      | _ \<Rightarrow> None)"

definition n_int :: "int \<Rightarrow> ustr res" where
  "n_int i = (if - n_SAFE \<le> i \<and> i \<le> n_SAFE then Inr (int_dec i) else Inl ValueError)"

definition printable_key :: "ustr \<Rightarrow> bool" where
  "printable_key k = list_all (\<lambda>c. 0x20 \<le> c \<and> c \<le> 0x7E) k"

text \<open>\<^verbatim>\<open>_c\<close>; a \<^verbatim>\<open>CanonicalError\<close> is \<open>ValueError\<close> here, since \<^verbatim>\<open>try_canonical\<close> is the one place it is caught.\<close>

fun n_c :: "py \<Rightarrow> ustr res" where
  "n_c PyNone = Inr (U ''null'')"
| "n_c (PyBool b) = Inr (if b then U ''true'' else U ''false'')"
| "n_c (PyFloat x) = (case float_integer x of None \<Rightarrow> Inl ValueError | Some i \<Rightarrow> n_int i)"
| "n_c (PyInt i) = n_int i"
| "n_c (PyStr s) = Inr (n_cstr s)"
| "n_c (PyList xs) = bnd (map_r n_c xs) (\<lambda>ts. Inr ([91] @ join [44] ts @ [93]))"
| "n_c (PyDict d) =
     (if \<not> list_all (\<lambda>kv. printable_key (fst kv)) d then Inl ValueError
      else
        bnd (map_r (\<lambda>kr. bnd (snd kr) (\<lambda>t. Inr (n_cstr (fst kr) @ [58] @ t))) (sort_key fst (map (\<lambda>kv. (fst kv, n_c (snd kv))) d))) (\<lambda>ps.
          Inr ([123] @ join [44] ps @ [125])))"

definition try_canonical :: "py \<Rightarrow> bytes option" where
  "try_canonical v = (case n_c v of Inl _ \<Rightarrow> None | Inr s \<Rightarrow> Some (utf8_total s))"

definition sha256c :: "py \<Rightarrow> ustr option" where
  "sha256c v = map_option sha256_hex (try_canonical v)"

section \<open>Keys and signatures\<close>

definition n_is_ident :: "ext_point \<Rightarrow> bool" where
  "n_is_ident p = (let (X, Y, Z, T) = p in X mod ed_p = 0 \<and> (Y - Z) mod ed_p = 0)"

definition n_decode :: "bytes \<Rightarrow> ext_point option" where
  "n_decode b =
     (if length b \<noteq> 32 then None
      else
        let n = int_of_le b; sign = n div 2 ^ 255; y = n mod 2 ^ 255 in
        if ed_p \<le> y then None
        else
          let x2 = (y * y - 1) * powmod (ed_d * y * y + 1) (nat (ed_p - 2)) ed_p mod ed_p in
          if x2 = 0 then (if sign \<noteq> 0 then None else Some (0, y, 1, 0))
          else
            let x = powmod x2 (nat ((ed_p + 3) div 8)) ed_p;
                x' = (if (x * x - x2) mod ed_p \<noteq> 0 then x * ed_I mod ed_p else x)
            in if (x' * x' - x2) mod ed_p \<noteq> 0 then None
               else let x'' = (if x' mod 2 \<noteq> sign then ed_p - x' else x') in Some (x'', y, 1, x'' * y mod ed_p))"

text \<open>The base point, computed when the module is loaded.\<close>

definition n_B :: ext_point where
  "n_B = the (n_decode (le_bytes 32 ed_By))"

definition resolve_key :: "bytes \<Rightarrow> ext_point option" where
  "resolve_key raw =
     (case n_decode raw of
        None \<Rightarrow> None
      | Some A \<Rightarrow> if n_is_ident A \<or> \<not> n_is_ident (ref_mul (nat ed_L) A) then None else Some A)"

definition n_ed25519_verify :: "ext_point \<Rightarrow> bytes \<Rightarrow> bytes \<Rightarrow> bytes \<Rightarrow> bool" where
  "n_ed25519_verify A raw_key sg msg =
     (if length sg \<noteq> 64 then False
      else
        let Rb = take 32 sg; s = int_of_le (drop 32 sg) in
        if ed_L \<le> s then False
        else
          let k = int_of_le (sha512 (Rb @ raw_key @ msg)) mod ed_L; (X, Y, Z, T) = ref_mul (nat k) A
          in ref_compress (ed_add (ref_mul (nat s) n_B) ((- X) mod ed_p, Y, Z, (- T) mod ed_p)) = Inr Rb)"

definition b58 :: ustr where
  "b58 = U ''123456789ABCDEFGHJKLMNPQRSTUVWXYZabcdefghijkmnopqrstuvwxyz''"

text \<open>\<^verbatim>\<open>n.to_bytes((n.bit_length() + 7) // 8, "big")\<close>.\<close>

definition nat_be :: "nat \<Rightarrow> bytes" where
  "nat_be n = rev (le_bytes ((bit_len n + 7) div 8) (int n))"

definition b58_bytes :: "ustr \<Rightarrow> bytes" where
  "b58_bytes s =
     replicate (length (takeWhile (\<lambda>c. c = 49) s)) 0 @ nat_be (foldl (\<lambda>n c. n * 58 + length (takeWhile (\<lambda>x. x \<noteq> c) b58)) 0 s)"

text \<open>\<^verbatim>\<open>did_key\<close>; the table in which the code keeps its answers holds nothing but them.\<close>

definition did_key :: "py \<Rightarrow> (ext_point \<times> bytes) option" where
  "did_key v =
     (case v of
        PyStr ident \<Rightarrow>
          if \<not> (startswith ident (U ''did:key:z'') \<and> 9 < length ident) then None
          else
            let s = drop 9 ident in
            if \<not> list_all (\<lambda>c. c \<in> set b58) s then None
            else
              let raw = b58_bytes s in
              if length raw = 34 \<and> take 2 raw = [0xED, 0x01]
              then (case resolve_key (drop 2 raw) of None \<Rightarrow> None | Some A \<Rightarrow> Some (A, drop 2 raw)) else None
      | _ \<Rightarrow> None)"

definition b64_canonical :: "py \<Rightarrow> bytes option" where
  "b64_canonical v =
     (case v of
        PyStr s \<Rightarrow>
          if \<not> b64_shape s \<or> length s mod 4 \<noteq> 0 then None
          else (case a2b_base64 0 0 0 s of Inl _ \<Rightarrow> None | Inr raw \<Rightarrow> if b64encode raw = s then Some raw else None)
      | _ \<Rightarrow> None)"

definition sig_verifies :: "py \<Rightarrow> py \<Rightarrow> py \<Rightarrow> bool" where
  "sig_verifies signer sig_b64 pre =
     (case (did_key signer, b64_canonical sig_b64, try_canonical pre) of
        (Some (A, raw), Some sg, Some msg) \<Rightarrow> length sg = 64 \<and> n_ed25519_verify A raw sg msg
      | _ \<Rightarrow> False)"

section \<open>Records\<close>

datatype rkind = KObs | KGrant | KReceipt | KIntent

fun n_DERIVED :: "rkind \<Rightarrow> string list" where
  "n_DERIVED KObs = [''evidence_id'', ''witness_sig'', ''edge_sig'', ''consent'']"
| "n_DERIVED KGrant = [''grant_ref'', ''caller_sig'', ''action_binding'']"
| "n_DERIVED KReceipt = [''receipt_id'', ''provider_sig'', ''action_binding'']"
| "n_DERIVED KIntent = [''intent_id'', ''intent_sig'', ''action_binding'']"

definition n_preimage :: "pydict \<Rightarrow> rkind \<Rightarrow> py" where
  "n_preimage r kind = PyDict (filter (\<lambda>kv. fst kv \<notin> set (map U (n_DERIVED kind))) r)"

definition rid :: "pydict \<Rightarrow> rkind \<Rightarrow> ustr option" where
  "rid r kind = sha256c (n_preimage r kind)"

text \<open>\<^verbatim>\<open>rec.get(f, MISSING)\<close> is \<open>None\<close> for the marker, which is equal to itself and to no value.\<close>

definition oget :: "pydict \<Rightarrow> string \<Rightarrow> py option" where
  "oget r f = map_of r (U f)"

definition opt_eq :: "py option \<Rightarrow> py option \<Rightarrow> bool" where
  "opt_eq a b = (case (a, b) of (None, None) \<Rightarrow> True | (Some v, Some w) \<Rightarrow> py_eq v w | _ \<Rightarrow> False)"

definition recomputes :: "pydict \<Rightarrow> rkind \<Rightarrow> string \<Rightarrow> bool" where
  "recomputes r kind field = (case rid r kind of None \<Rightarrow> False | Some h \<Rightarrow> opt_eq (oget r field) (Some (PyStr h)))"

section \<open>Times\<close>

type_synonym moment = "int \<times> nat \<times> nat"

definition ascii_pat :: "string \<Rightarrow> ustr \<Rightarrow> bool" where
  "ascii_pat p s = list_all2 (\<lambda>c x. if c = CHR ''#'' then is_digit x else x = of_char c) p s"

definition dec_at :: "ustr \<Rightarrow> nat \<Rightarrow> nat \<Rightarrow> nat" where
  "dec_at s i n = dec_nat (take n (drop i s))"

definition instant :: "py \<Rightarrow> moment option" where
  "instant v =
     (case v of
        PyStr t \<Rightarrow>
          if \<not> ascii_pat ''####-##-##T##:##:##'' (take 19 t) then None
          else
            (case frac_Z (drop 19 t) of
               None \<Rightarrow> None
             | Some f \<Rightarrow>
                 if \<not> list_all is_digit f then None
                 else
                   let y = dec_at t 0 4; mo = dec_at t 5 2; d = dec_at t 8 2; h = dec_at t 11 2; mi = dec_at t 14 2; se = dec_at t 17 2 in
                   if \<not> real_fields y mo d h mi se then None
                   else Some (days_before_year y + days_before_month y mo + int d, h * 3600 + mi * 60 + se,
                     if f = [] then 0 else dec_nat (take 3 (f @ U ''000''))))
      | _ \<Rightarrow> None)"

fun instant_le :: "moment \<Rightarrow> moment \<Rightarrow> bool" where
  "instant_le (a, b, c) (d, e, f) \<longleftrightarrow> a < d \<or> a = d \<and> (b < e \<or> b = e \<and> c \<le> f)"

definition bound_ok :: "pydict \<Rightarrow> string \<Rightarrow> bool" where
  "bound_ok r key \<longleftrightarrow> dget r key = PyNone \<or> instant (dget r key) \<noteq> None"

text \<open>\<^verbatim>\<open>in_window\<close>: a bound that is not a time cannot be compared.\<close>

definition in_window :: "pydict \<Rightarrow> moment \<Rightarrow> bool res" where
  "in_window r t =
     and_r (if dget r ''not_before'' = PyNone then Inr True
            else case instant (dget r ''not_before'') of None \<Rightarrow> Inl TypeError | Some b \<Rightarrow> Inr (instant_le b t))
       (if dget r ''not_after'' = PyNone then Inr True
        else case instant (dget r ''not_after'') of None \<Rightarrow> Inl TypeError | Some a \<Rightarrow> Inr (instant_le t a))"

section \<open>Actions\<close>

definition action_binding :: "pydict \<Rightarrow> string \<Rightarrow> string option" where
  "action_binding r action_field =
     (case oget r ''action_binding'' of
        None \<Rightarrow> None
      | Some (PyDict ab) \<Rightarrow>
          if \<not> py_eq (dget ab ''type'') (S ''canonical_request_digest'') then Some ''action_binding_malformed''
          else
            (case dget ab ''digest'' of
               PyDict dg \<Rightarrow>
                 if \<not> py_eq (dget dg ''alg'') (S ''sha-256'') \<or> \<not> is_str (dget dg ''value'') then Some ''action_binding_malformed''
                 else if \<not> py_eq (dget ab ''canonicalization'') (S ''musubi-canonical-v0'') \<or>
                   \<not> py_eq (dget ab ''preimage_profile'') (S ''task-execution-bind-v0/action'') then Some ''action_binding_unknown_profile''
                 else
                   let act = dget r action_field in
                   if act = PyNone \<or> map_option PyStr (sha256c act) \<noteq> Some (dget dg ''value'') then Some ''action_binding_mismatch'' else None
             | _ \<Rightarrow> Some ''action_binding_malformed'')
      | Some _ \<Rightarrow> Some ''action_binding_malformed'')"

fun zero_number :: "py \<Rightarrow> bool" where
  "zero_number (PyInt i) = (i = 0)"
| "zero_number (PyFloat (FFin s m e)) = (m = 0)"
| "zero_number _ = False"

definition falsy_action :: "py option \<Rightarrow> bool" where
  "falsy_action a =
     (case a of None \<Rightarrow> True | Some v \<Rightarrow> v = PyNone \<or> v = PyBool False \<or> v = PyStr [] \<or> zero_number v)"

definition actions_equal :: "py option \<Rightarrow> py option \<Rightarrow> bool" where
  "actions_equal a b =
     (\<not> falsy_action a \<and> \<not> falsy_action b \<and>
      (case (a, b) of
         (Some v, Some w) \<Rightarrow> (case (try_canonical v, try_canonical w) of (Some x, Some y) \<Rightarrow> x = y | _ \<Rightarrow> False)
       | _ \<Rightarrow> False))"

section \<open>Reports\<close>

record report =
  refusals :: "string list"
  findings :: "string list"
  reasons :: "(string \<times> string) list"

definition new_report :: report where
  "new_report = \<lparr>refusals = [], findings = [], reasons = []\<rparr>"

definition refuse :: "string \<Rightarrow> string option \<Rightarrow> report \<Rightarrow> report" where
  "refuse code reason r =
     r\<lparr>refusals := refusals r @ [code], reasons := reasons r @ (case reason of None \<Rightarrow> [] | Some w \<Rightarrow> [(code, w)])\<rparr>"

definition find_in :: "string \<Rightarrow> report \<Rightarrow> report" where
  "find_in code r = r\<lparr>findings := findings r @ [code]\<rparr>"

definition refuse_if :: "bool \<Rightarrow> string \<Rightarrow> string option \<Rightarrow> report \<Rightarrow> report" where
  "refuse_if b code reason r = (if b then refuse code reason r else r)"

definition refuse_opt :: "string \<Rightarrow> string option \<Rightarrow> report \<Rightarrow> report" where
  "refuse_opt code why r = (case why of None \<Rightarrow> r | Some w \<Rightarrow> refuse code (Some w) r)"

definition n_accepted :: "report \<Rightarrow> bool" where
  "n_accepted r \<longleftrightarrow> refusals r = []"

definition report_signature :: "report \<Rightarrow> bool \<times> ustr list \<times> ustr list" where
  "report_signature r = (n_accepted r, sort (remdups (map U (refusals r))), sort (remdups (map U (findings r))))"

section \<open>The slots of a bundle\<close>

text \<open>\<^verbatim>\<open>_slot\<close>: the record, and whether something that is not one was in its place.\<close>

definition n_slot :: "pydict \<Rightarrow> string \<Rightarrow> pydict option \<times> bool" where
  "n_slot bundle key =
     (case dget bundle key of
        PyDict d \<Rightarrow> (Some d, False)
      | v \<Rightarrow> (None, \<not> (v = PyNone \<or> v = PyBool False)))"

definition n_list :: "pydict \<Rightarrow> string \<Rightarrow> py list" where
  "n_list bundle key = (case dget bundle key of PyList xs \<Rightarrow> xs | _ \<Rightarrow> [])"

definition dicts_of :: "py list \<Rightarrow> pydict list" where
  "dicts_of xs = List.map_filter (\<lambda>v. case v of PyDict d \<Rightarrow> Some d | _ \<Rightarrow> None) xs"

text \<open>Receipts with the same canonical form are taken once.\<close>

fun dedup :: "bytes list \<Rightarrow> pydict list \<Rightarrow> pydict list" where
  "dedup seen [] = []"
| "dedup seen (x # xs) =
     (case try_canonical (PyDict x) of
        None \<Rightarrow> x # dedup seen xs
      | Some b \<Rightarrow> if b \<in> set seen then dedup seen xs else x # dedup (seen @ [b]) xs)"

record slots =
  sl_sigs :: bool
  sl_raw_obs :: "py list"
  sl_obs :: "pydict list"
  sl_grant :: "pydict option"
  sl_intent :: "pydict option"
  sl_rset :: "pydict list"
  sl_exec_malformed :: nat
  sl_pre_malformed :: bool

definition n_slots :: "pydict \<Rightarrow> slots" where
  "n_slots bundle =
     (let raw = n_list bundle ''observations''; (grant, gbad) = n_slot bundle ''grant''; (intent, ibad) = n_slot bundle ''intent'';
          (first, fbad) = n_slot bundle ''receipt''; rs = n_list bundle ''receipts'';
          cands = (case first of None \<Rightarrow> [] | Some x \<Rightarrow> [x]) @ dicts_of rs
      in \<lparr>sl_sigs = (dget bundle ''require_signatures'' \<noteq> PyBool False), sl_raw_obs = raw, sl_obs = dicts_of raw, sl_grant = grant,
          sl_intent = intent, sl_rset = dedup [] cands,
          sl_exec_malformed = of_bool gbad + of_bool fbad + length (filter (\<lambda>v. \<not> is_dict v) rs), sl_pre_malformed = ibad\<rparr>)"

section \<open>Step 0, identity\<close>

text \<open>An empty grant or intent is not among the records compared.\<close>

definition n_records :: "slots \<Rightarrow> pydict list" where
  "n_records s =
     sl_obs s @ (case sl_grant s of None \<Rightarrow> [] | Some g \<Rightarrow> if g = [] then [] else [g]) @
     (case sl_intent s of None \<Rightarrow> [] | Some i \<Rightarrow> if i = [] then [] else [i]) @ sl_rset s"

definition step_identity :: "pydict \<Rightarrow> slots \<Rightarrow> report \<Rightarrow> report" where
  "step_identity bundle s r =
     (let tid = dget bundle ''task_id'' in
      if \<not> (is_str tid \<and> truthy tid)
      then refuse_if (n_records s \<noteq> []) ''task_id_mismatch'' None (refuse ''task_id_missing'' None r)
      else refuse_if (list_ex (\<lambda>x. \<not> opt_eq (oget x ''task_id'') (Some tid)) (n_records s)) ''task_id_mismatch'' None r)"

section \<open>Step 1, delegation\<close>

definition hop_of :: "pydict \<Rightarrow> pydict" where
  "hop_of o' = (case dget o' ''hop'' of PyDict h \<Rightarrow> h | _ \<Rightarrow> [])"

definition obs_reason :: "bool \<Rightarrow> pydict \<Rightarrow> string option" where
  "obs_reason sigs o' =
     (let hop = hop_of o'; w = oget o' ''witness_id'' in
      if opt_eq w (oget hop ''from'') \<or> opt_eq w (oget hop ''to'') then Some ''witness_not_independent''
      else if \<not> recomputes o' KObs ''evidence_id'' then Some ''recompute_mismatch''
      else if \<not> sigs then None
      else if \<not> sig_verifies (dget o' ''witness_id'') (dget o' ''witness_sig'') (n_preimage o' KObs) then Some ''witness_sig_invalid''
      else
        (case (oget o' ''task_id'', oget o' ''hop'') of
           (Some t, Some h) \<Rightarrow>
             if sig_verifies (dget hop ''from'') (dget o' ''edge_sig'') (PyDict [(U ''task_id'', t), (U ''hop'', h)]) then None
             else Some ''edge_sig_invalid''
         | _ \<Rightarrow> Some ''edge_sig_invalid''))"

definition seq_of :: "pydict \<Rightarrow> int option" where
  "seq_of o' = (case dget o' ''hop'' of PyDict h \<Rightarrow> (case oget h ''seq'' of Some (PyInt i) \<Rightarrow> Some i | _ \<Rightarrow> None) | _ \<Rightarrow> None)"

text \<open>The loop over the observations with their places: the first broken link.\<close>

fun broken_links :: "(int \<Rightarrow> ustr option set) \<Rightarrow> (pydict \<times> int) list \<Rightarrow> string option res" where
  "broken_links ids [] = Inr None"
| "broken_links ids ((o', s) # xs) =
     (let pv = oget o' ''prev_evidence_id'' in
      if s = 0 then (if pv = Some PyNone then broken_links ids xs else Inr (Some ''root_prev_not_null''))
      else
        (case pv of
           None \<Rightarrow> Inr (Some ''broken_link'')
         | Some v \<Rightarrow>
             if v = PyNone then Inr (Some ''broken_link'')
             else if \<not> hashable v then Inl TypeError
             else (case v of
                     PyStr h \<Rightarrow> if Some h \<in> ids (s - 1) then broken_links ids xs else Inr (Some ''broken_link'')
                   | _ \<Rightarrow> Inr (Some ''broken_link''))))"

definition ids_at :: "(pydict \<times> int) list \<Rightarrow> int \<Rightarrow> ustr option set" where
  "ids_at xs i = set (map (\<lambda>(o', s). rid o' KObs) (filter (\<lambda>(o', s). s = i) xs))"

definition chain_reason :: "pydict list \<Rightarrow> string option res" where
  "chain_reason obs =
     (if list_ex (\<lambda>o'. seq_of o' = None) obs then Inr (Some ''seq_gap'')
      else
        let xs = map (\<lambda>o'. (o', the (seq_of o'))) obs; places = remdups (map snd xs) in
        if sort places \<noteq> map int [0..<length places] then Inr (Some ''seq_gap'') else broken_links (ids_at xs) xs)"

text \<open>The verdicts of the witnesses, by place. A place or a verdict that is missing has a marker of its own.\<close>

datatype place = HopMissing | SeqMissing | SeqText ustr

datatype verdict_mark = VerdictStr ustr | VerdictMissing | VerdictRepr ustr

definition place_of :: "ucd \<Rightarrow> pydict \<Rightarrow> place" where
  "place_of u o' =
     (case dget o' ''hop'' of
        PyDict h \<Rightarrow> (case oget h ''seq'' of None \<Rightarrow> SeqMissing | Some v \<Rightarrow> SeqText (py_repr u v))
      | _ \<Rightarrow> HopMissing)"

definition verdict_of :: "ucd \<Rightarrow> pydict \<Rightarrow> verdict_mark" where
  "verdict_of u o' =
     (case dget o' ''conduct'' of
        PyDict c \<Rightarrow> (case oget c ''verdict'' of None \<Rightarrow> VerdictMissing | Some (PyStr s) \<Rightarrow> VerdictStr s | Some v \<Rightarrow> VerdictRepr (py_repr u v))
      | _ \<Rightarrow> VerdictMissing)"

definition disagreement :: "ucd \<Rightarrow> pydict list \<Rightarrow> bool" where
  "disagreement u obs = list_ex (\<lambda>o'. list_ex (\<lambda>p. place_of u o' = place_of u p \<and> verdict_of u o' \<noteq> verdict_of u p) obs) obs"

definition step_delegation :: "ucd \<Rightarrow> slots \<Rightarrow> report \<Rightarrow> report res" where
  "step_delegation u s r =
     (if sl_raw_obs s = [] then Inr (find_in ''no_delegation_observations'' r)
      else
        let obs = sl_obs s;
            r1 = refuse_if (length obs \<noteq> length (sl_raw_obs s)) ''delegation_observation_invalid'' (Some ''record_not_object'') r;
            r2 = foldl (\<lambda>r o'. refuse_opt ''delegation_observation_invalid'' (obs_reason (sl_sigs s) o') r) r1 obs
        in bnd (chain_reason obs) (\<lambda>broken.
             let r3 = refuse_opt ''delegation_chain_broken'' broken r2
             in Inr (if disagreement u obs then find_in ''witness_disagreement'' r3 else r3)))"

section \<open>Step 2, execution\<close>

text \<open>The first reason why a receipt does not fit the grant, with the findings on the way.\<close>

definition first_reason :: "string option \<Rightarrow> string option \<Rightarrow> string option" where
  "first_reason a b = (case a of None \<Rightarrow> b | Some w \<Rightarrow> Some w)"

definition grant_findings :: "pydict \<Rightarrow> report \<Rightarrow> report" where
  "grant_findings grant r =
     (let gp = dget grant ''provider_id'' in
      if gp = PyNone then find_in ''open_grant'' r
      else if opt_eq (Some gp) (oget grant ''caller_id'') then find_in ''self_authorized'' r else r)"

text \<open>The part that \<^verbatim>\<open>pair_check\<close> and the preflight step share, from the reference of the record to its grant on.\<close>

definition grant_check :: "pydict \<Rightarrow> ustr \<Rightarrow> pydict \<Rightarrow> string \<Rightarrow> string \<Rightarrow> string \<Rightarrow> report \<Rightarrow> bool \<Rightarrow> (report \<times> string option) res" where
  "grant_check grant gref x unbound time_field action_field r add_findings =
     (if \<not> opt_eq (oget x ''grant_ref'') (Some (PyStr gref)) then Inr (r, Some unbound)
      else
        (case instant (dget x time_field) of
           None \<Rightarrow> Inr (r, Some ''invalid_timestamp'')
         | Some t \<Rightarrow>
             if \<not> bound_ok grant ''not_before'' \<or> \<not> bound_ok grant ''not_after'' then Inr (r, Some ''invalid_timestamp'')
             else if dget grant ''provider_id'' \<noteq> PyNone \<and> \<not> opt_eq (Some (dget grant ''provider_id'')) (oget x ''provider_id'')
             then Inr (r, Some ''provider_not_authorized'')
             else
               bnd (in_window grant t) (\<lambda>inside.
                 if \<not> inside then Inr (r, Some ''outside_authorization_window'')
                 else
                   Inr (if add_findings then grant_findings grant r else r,
                     if actions_equal (oget grant ''action'') (oget x action_field) then None else Some ''action_diverged''))))"

definition pair_check :: "pydict \<Rightarrow> pydict \<Rightarrow> report \<Rightarrow> bool \<Rightarrow> (report \<times> string option) res" where
  "pair_check grant x r add_findings =
     (case rid grant KGrant of
        None \<Rightarrow> Inr (r, Some ''grant_recompute_mismatch'')
      | Some gref \<Rightarrow>
          if \<not> opt_eq (oget grant ''grant_ref'') (Some (PyStr gref)) then Inr (r, Some ''grant_recompute_mismatch'')
          else if \<not> recomputes x KReceipt ''receipt_id'' then Inr (r, Some ''receipt_recompute_mismatch'')
          else
            (case first_reason (action_binding grant ''action'') (action_binding x ''executed_action'') of
               Some why \<Rightarrow> Inr (r, Some why)
             | None \<Rightarrow> grant_check grant gref x ''receipt_unbound'' ''executed_at'' ''executed_action'' r add_findings))"

definition caller_signed :: "pydict \<Rightarrow> bool" where
  "caller_signed grant = sig_verifies (dget grant ''caller_id'') (dget grant ''caller_sig'') (n_preimage grant KGrant)"

definition provider_signed :: "pydict \<Rightarrow> bool" where
  "provider_signed x = sig_verifies (dget x ''provider_id'') (dget x ''provider_sig'') (n_preimage x KReceipt)"

definition pair_refuse :: "pydict \<Rightarrow> pydict \<Rightarrow> bool \<Rightarrow> report \<Rightarrow> report res" where
  "pair_refuse grant x add_findings r =
     bnd (pair_check grant x r add_findings) (\<lambda>(r', why). Inr (refuse_opt ''execution_invalid'' why r'))"

definition execution_signatures :: "bool \<Rightarrow> pydict \<Rightarrow> pydict \<Rightarrow> report \<Rightarrow> report" where
  "execution_signatures sigs grant primary r =
     (if \<not> sigs then r
      else if \<not> caller_signed grant then refuse ''execution_signature_invalid'' (Some ''caller_sig'') r
      else refuse_if (\<not> provider_signed primary) ''execution_signature_invalid'' (Some ''provider_sig'') r)"

definition other_receipt :: "bool \<Rightarrow> pydict \<Rightarrow> report \<Rightarrow> pydict \<Rightarrow> report res" where
  "other_receipt sigs grant r x =
     (if sigs \<and> \<not> (caller_signed grant \<and> provider_signed x) then Inr r else pair_refuse grant x False r)"

text \<open>A receipt that counts towards the reconciliation.\<close>

definition authentic_receipt :: "bool \<Rightarrow> pydict \<Rightarrow> pydict \<Rightarrow> bool" where
  "authentic_receipt sigs grant x \<longleftrightarrow>
     opt_eq (oget x ''grant_ref'') (oget grant ''grant_ref'') \<and> opt_eq (oget x ''provider_id'') (Some (dget grant ''provider_id'')) \<and>
     recomputes x KReceipt ''receipt_id'' \<and>
     (\<not> sigs \<or> sig_verifies (dget grant ''provider_id'') (dget x ''provider_sig'') (n_preimage x KReceipt))"

fun by_receipt_id :: "py list \<Rightarrow> pydict list \<Rightarrow> pydict list" where
  "by_receipt_id ids [] = []"
| "by_receipt_id ids (x # xs) =
     (if py_in (dget x ''receipt_id'') ids then by_receipt_id ids xs else x # by_receipt_id (ids @ [dget x ''receipt_id'']) xs)"

definition reconcile :: "bool \<Rightarrow> pydict \<Rightarrow> pydict list \<Rightarrow> report \<Rightarrow> report \<times> pydict option" where
  "reconcile sigs grant rset r =
     (if dget grant ''provider_id'' = PyNone then (refuse ''execution_unreconciled'' (Some ''open_grant'') r, None)
      else
        (case by_receipt_id [] (filter (authentic_receipt sigs grant) rset) of
           [] \<Rightarrow> (refuse ''execution_unreconciled'' None r, None)
         | [x] \<Rightarrow> (r, Some x)
         | _ \<Rightarrow> (refuse ''execution_equivocation'' None r, None)))"

definition step_execution :: "slots \<Rightarrow> report \<Rightarrow> (report \<times> pydict option) res" where
  "step_execution s r0 =
     (let r = (refuse ''execution_invalid'' (Some ''record_not_object'') ^^ sl_exec_malformed s) r0 in
      case (sl_grant s, sl_rset s) of
        (None, []) \<Rightarrow> Inr (find_in ''no_execution_records'' r, None)
      | (Some grant, primary # rest) \<Rightarrow>
          bnd (pair_refuse grant primary True r) (\<lambda>r1.
          bnd (fold_r (other_receipt (sl_sigs s) grant) (execution_signatures (sl_sigs s) grant primary r1) rest) (\<lambda>r2.
            Inr (reconcile (sl_sigs s) grant (primary # rest) r2)))
      | _ \<Rightarrow> Inr (refuse ''execution_incomplete_pair'' None r, None))"

section \<open>Step 3, preflight\<close>

definition intent_check :: "pydict \<Rightarrow> pydict \<Rightarrow> report \<Rightarrow> (report \<times> string option) res" where
  "intent_check grant intent r =
     (case rid grant KGrant of
        None \<Rightarrow> Inr (r, Some ''grant_recompute_mismatch'')
      | Some gref \<Rightarrow>
          if \<not> opt_eq (oget grant ''grant_ref'') (Some (PyStr gref)) then Inr (r, Some ''grant_recompute_mismatch'')
          else if \<not> recomputes intent KIntent ''intent_id'' then Inr (r, Some ''intent_recompute_mismatch'')
          else
            (case action_binding intent ''proposed_action'' of
               Some why \<Rightarrow> Inr (r, Some why)
             | None \<Rightarrow> grant_check grant gref intent ''intent_unbound'' ''declared_at'' ''proposed_action'' r True))"

definition intent_signed :: "pydict \<Rightarrow> bool" where
  "intent_signed intent = sig_verifies (dget intent ''provider_id'') (dget intent ''intent_sig'') (n_preimage intent KIntent)"

definition declared_as_executed :: "pydict \<Rightarrow> pydict \<Rightarrow> bool" where
  "declared_as_executed intent x =
     (case (try_canonical (dget intent ''proposed_action''), try_canonical (dget x ''executed_action'')) of (Some a, Some b) \<Rightarrow> a = b | _ \<Rightarrow> False)"

definition step_preflight :: "slots \<Rightarrow> pydict option \<Rightarrow> report \<Rightarrow> report res" where
  "step_preflight s reconciled r0 =
     (let r = refuse_if (sl_pre_malformed s) ''preflight_invalid'' (Some ''record_not_object'') r0 in
      case (sl_intent s, sl_grant s) of
        (None, _) \<Rightarrow> Inr r
      | (Some intent, None) \<Rightarrow> Inr (refuse ''preflight_without_grant'' None r)
      | (Some intent, Some grant) \<Rightarrow>
          bnd (intent_check grant intent r) (\<lambda>(r1, why).
            let r2 = refuse_opt ''preflight_invalid'' why r1;
                r3 = refuse_if (sl_sigs s \<and> \<not> intent_signed intent) ''preflight_signature_invalid'' None r2
            in Inr (case reconciled of
                      None \<Rightarrow> r3
                    | Some x \<Rightarrow> if declared_as_executed intent x then r3 else find_in ''declared_executed_divergence'' r3)))"

section \<open>Steps 4 and 5, evidence and linkage\<close>

definition evidence_of :: "pydict \<Rightarrow> py option" where
  "evidence_of x = (case dget x ''outcome'' of PyDict out \<Rightarrow> oget out ''evidence'' | _ \<Rightarrow> None)"

definition evidence_formed :: "py \<Rightarrow> bool" where
  "evidence_formed v =
     (case v of
        PyDict e \<Rightarrow>
          py_in (dget e ''kind'') [S ''bitcoin_tx'', S ''ledger_record'', S ''document_sha256'', S ''url_sha256''] \<and>
          (case dget e ''ref'' of PyStr h \<Rightarrow> is_hex64 h | _ \<Rightarrow> False) \<and> (case dget e ''system'' of PyStr t \<Rightarrow> t \<noteq> [] | _ \<Rightarrow> False)
      | _ \<Rightarrow> False)"

definition step_evidence :: "pydict option \<Rightarrow> report \<Rightarrow> report" where
  "step_evidence target r =
     (case target of
        None \<Rightarrow> r
      | Some x \<Rightarrow>
          if falsy_action (evidence_of x) then find_in ''no_evidence_bound'' r
          else if evidence_formed (the (evidence_of x)) then find_in ''evidence_bound_unchecked'' r
          else refuse ''evidence_invalid'' None r)"

definition digest_link :: "pydict \<Rightarrow> ustr option" where
  "digest_link o' =
     (case dget o' ''conduct'' of
        PyDict c \<Rightarrow>
          (case dget c ''detail_ref'' of
             PyStr l \<Rightarrow> if startswith l (U ''nenrin-exec://'') then Some (drop (length (U ''nenrin-exec://'')) l) else None
           | _ \<Rightarrow> None)
      | _ \<Rightarrow> None)"

definition step_linkage :: "slots \<Rightarrow> pydict option \<Rightarrow> report \<Rightarrow> report" where
  "step_linkage s reconciled r =
     (case reconciled of
        None \<Rightarrow> r
      | Some x \<Rightarrow>
          if sl_raw_obs s = [] then r
          else
            let want = rid x KReceipt; links = List.map_filter digest_link (sl_obs s) in
            if links = [] then find_in ''no_digest_link'' r
            else refuse_if (list_ex (\<lambda>l. Some l \<noteq> want) links) ''linkage_receipt_mismatch'' None r)"

section \<open>The procedure\<close>

definition n_dict :: "py \<Rightarrow> pydict" where
  "n_dict v = (case v of PyDict b \<Rightarrow> b | _ \<Rightarrow> [])"

definition n_target :: "slots \<Rightarrow> pydict option \<Rightarrow> pydict option" where
  "n_target s reconciled =
     (case reconciled of Some x \<Rightarrow> Some x | None \<Rightarrow> (case sl_rset s of [] \<Rightarrow> None | x # _ \<Rightarrow> Some x))"

definition n_verify :: "ucd \<Rightarrow> py \<Rightarrow> report res" where
  "n_verify u bundle =
     (let b = n_dict bundle; s = n_slots b; r0 = step_identity b s new_report in
      bnd (step_delegation u s r0) (\<lambda>r1.
      bnd (step_execution s r1) (\<lambda>(r2, reconciled).
      bnd (step_preflight s reconciled r2) (\<lambda>r3.
        Inr (step_linkage s reconciled (step_evidence (n_target s reconciled) r3))))))"

text \<open>\<^verbatim>\<open>main\<close>: one answer per named case, an exception included.\<close>

definition n_batch_step :: "ucd \<Rightarrow> (ustr \<rightharpoonup> exn + bool \<times> ustr list \<times> ustr list) \<Rightarrow> py \<Rightarrow> (ustr \<rightharpoonup> exn + bool \<times> ustr list \<times> ustr list)" where
  "n_batch_step u out v =
     (case v of
        PyDict c \<Rightarrow>
          (case dget c ''name'' of
             PyStr n \<Rightarrow> out(n \<mapsto> bnd (n_verify u (dget c ''bundle'')) (\<lambda>r. Inr (report_signature r)))
           | _ \<Rightarrow> out)
      | _ \<Rightarrow> out)"

definition n_batch :: "ucd \<Rightarrow> py list \<Rightarrow> (ustr \<rightharpoonup> exn + bool \<times> ustr list \<times> ustr list)" where
  "n_batch u cases = foldl (n_batch_step u) Map.empty cases"

section \<open>What the report collects\<close>

lemma refusals_simps [simp]:
  "refusals (refuse c w r) = refusals r @ [c]"
  "refusals (find_in c r) = refusals r"
  "refusals (refuse_if b c w r) = (if b then refusals r @ [c] else refusals r)"
  "refusals (refuse_opt c why r) = (if why = None then refusals r else refusals r @ [c])"
  "refusals (grant_findings g r) = refusals r"
  "refusals new_report = []"
  by (auto simp: refuse_def find_in_def refuse_if_def refuse_opt_def grant_findings_def new_report_def Let_def split: option.splits)

lemma refusals_repeat: "refusals ((refuse c w ^^ n) r) = refusals r @ replicate n c"
  by (induction n) (simp_all add: replicate_append_same)

lemma refusals_fold: "refusals (foldl (\<lambda>r x. refuse_opt c (f x) r) r xs) = [] \<longleftrightarrow> refusals r = [] \<and> (\<forall>x \<in> set xs. f x = None)"
  by (induction xs arbitrary: r) auto

lemma opt_eq_Str: "opt_eq a (Some (PyStr s)) \<longleftrightarrow> a = Some (PyStr s)"
  by (cases a) (auto simp: opt_eq_def py_eq_Str_right)

lemma recomputes_iff: "recomputes r kind field \<longleftrightarrow> (\<exists>h. rid r kind = Some h \<and> oget r field = Some (PyStr h))"
  by (auto simp: recomputes_def opt_eq_Str split: option.splits)

section \<open>What a receipt or an intent under a grant has to be\<close>

text \<open>A moment within the bounds of a grant, both of which are times if they are there.\<close>

definition within_bounds :: "pydict \<Rightarrow> moment \<Rightarrow> bool" where
  "within_bounds g t \<longleftrightarrow>
     (dget g ''not_before'' = PyNone \<or> (\<exists>b. instant (dget g ''not_before'') = Some b \<and> instant_le b t)) \<and>
     (dget g ''not_after'' = PyNone \<or> (\<exists>a. instant (dget g ''not_after'') = Some a \<and> instant_le t a))"

text \<open>The grant is what its reference says, and the record refers to it, names the provider it names, lies within its bounds and is for
  the granted action, canonical form for canonical form.\<close>

definition under_grant :: "pydict \<Rightarrow> pydict \<Rightarrow> string \<Rightarrow> string \<Rightarrow> bool" where
  "under_grant g x tf act \<longleftrightarrow>
     (\<exists>gref t. rid g KGrant = Some gref \<and> oget g ''grant_ref'' = Some (PyStr gref) \<and> oget x ''grant_ref'' = Some (PyStr gref) \<and>
        instant (dget x tf) = Some t \<and> within_bounds g t \<and>
        (dget g ''provider_id'' = PyNone \<or> opt_eq (Some (dget g ''provider_id'')) (oget x ''provider_id'')) \<and>
        actions_equal (oget g ''action'') (oget x act))"

definition granted :: "pydict \<Rightarrow> pydict \<Rightarrow> bool" where
  "granted g x \<longleftrightarrow>
     recomputes x KReceipt ''receipt_id'' \<and> action_binding g ''action'' = None \<and> action_binding x ''executed_action'' = None \<and>
     under_grant g x ''executed_at'' ''executed_action''"

definition declared :: "pydict \<Rightarrow> pydict \<Rightarrow> bool" where
  "declared g i \<longleftrightarrow>
     recomputes i KIntent ''intent_id'' \<and> action_binding i ''proposed_action'' = None \<and> under_grant g i ''declared_at'' ''proposed_action''"

lemma in_window_bounds:
  "bound_ok g ''not_before'' \<Longrightarrow> bound_ok g ''not_after'' \<Longrightarrow> in_window g t = Inr (within_bounds g t)"
  unfolding bound_ok_def in_window_def within_bounds_def
  by (cases "dget g ''not_before'' = PyNone"; cases "dget g ''not_after'' = PyNone";
      cases "instant (dget g ''not_before'')"; cases "instant (dget g ''not_after'')") (simp_all add: and_r_def)

lemma within_bound_ok: "within_bounds g t \<Longrightarrow> bound_ok g ''not_before'' \<and> bound_ok g ''not_after''"
  unfolding within_bounds_def bound_ok_def by (metis option.distinct(1))

lemma grant_check_result:
  assumes "rid g KGrant = Some gref" "oget g ''grant_ref'' = Some (PyStr gref)"
  shows "\<exists>r' why. grant_check g gref x unbound tf act r add = Inr (r', why) \<and> refusals r' = refusals r \<and> (why = None \<longleftrightarrow> under_grant g x tf act)"
proof (cases "oget x ''grant_ref'' = Some (PyStr gref)")
  case ref: True
  show ?thesis
  proof (cases "instant (dget x tf)")
    case (Some t)
    show ?thesis
    proof (cases "bound_ok g ''not_before'' \<and> bound_ok g ''not_after''")
      case True
      then have w: "in_window g t = Inr (within_bounds g t)" using in_window_bounds by blast
      have "under_grant g x tf act \<longleftrightarrow> (dget g ''provider_id'' = PyNone \<or> opt_eq (Some (dget g ''provider_id'')) (oget x ''provider_id'')) \<and>
          within_bounds g t \<and> actions_equal (oget g ''action'') (oget x act)"
        using assms ref Some by (simp add: under_grant_def) blast
      then show ?thesis using True ref Some by (simp add: grant_check_def opt_eq_Str w)
    next
      case False
      then have "\<not> under_grant g x tf act" using Some within_bound_ok [of g t] by (auto simp: under_grant_def)
      then show ?thesis using False ref Some by (auto simp: grant_check_def opt_eq_Str)
    qed
  qed (use ref in \<open>simp add: grant_check_def opt_eq_Str under_grant_def\<close>)
qed (use assms in \<open>simp add: grant_check_def opt_eq_Str under_grant_def\<close>)

lemma not_under_grant: "rid g KGrant = Some gref \<Longrightarrow> oget g ''grant_ref'' \<noteq> Some (PyStr gref) \<Longrightarrow> \<not> under_grant g x tf act"
  by (simp add: under_grant_def)

lemma first_reason_None: "first_reason a b = None \<longleftrightarrow> a = None \<and> b = None"
  by (cases a) (simp_all add: first_reason_def)

lemma pair_check_result:
  "\<exists>r' why. pair_check g x r add = Inr (r', why) \<and> refusals r' = refusals r \<and> (why = None \<longleftrightarrow> granted g x)"
proof (cases "rid g KGrant")
  case None
  then show ?thesis by (simp add: pair_check_def granted_def under_grant_def)
next
  case (Some gref)
  show ?thesis
  proof (cases "oget g ''grant_ref'' = Some (PyStr gref) \<and> recomputes x KReceipt ''receipt_id''")
    case True
    show ?thesis
    proof (cases "first_reason (action_binding g ''action'') (action_binding x ''executed_action'')")
      case None
      then have a: "action_binding g ''action'' = None" "action_binding x ''executed_action'' = None" by (simp_all only: first_reason_None)
      show ?thesis
        using True Some a grant_check_result [OF Some, of x "''receipt_unbound''" "''executed_at''" "''executed_action''" r add]
        by (simp add: pair_check_def opt_eq_Str granted_def first_reason_def)
    next
      case (Some why)
      then have "\<not> granted g x" by (metis granted_def first_reason_None option.distinct(1))
      then show ?thesis using True Some \<open>rid g KGrant = Some gref\<close> by (simp add: pair_check_def opt_eq_Str)
    qed
  next
    case False
    then have "\<not> granted g x" using not_under_grant [OF Some] by (auto simp: granted_def)
    then show ?thesis using False Some by (auto simp: pair_check_def opt_eq_Str)
  qed
qed

lemma intent_check_result:
  "\<exists>r' why. intent_check g x r = Inr (r', why) \<and> refusals r' = refusals r \<and> (why = None \<longleftrightarrow> declared g x)"
proof (cases "rid g KGrant")
  case None
  then show ?thesis by (simp add: intent_check_def declared_def under_grant_def)
next
  case (Some gref)
  show ?thesis
  proof (cases "oget g ''grant_ref'' = Some (PyStr gref) \<and> recomputes x KIntent ''intent_id''")
    case True
    then show ?thesis
      using Some grant_check_result [OF Some, of x "''intent_unbound''" "''declared_at''" "''proposed_action''" r True]
      by (cases "action_binding x ''proposed_action''") (simp_all add: intent_check_def opt_eq_Str declared_def)
  next
    case False
    then have "\<not> declared g x" using not_under_grant [OF Some] by (auto simp: declared_def)
    then show ?thesis using False Some by (auto simp: intent_check_def opt_eq_Str)
  qed
qed

section \<open>When a step adds no refusal\<close>

subsection \<open>Identity\<close>

definition identified :: "pydict \<Rightarrow> slots \<Rightarrow> bool" where
  "identified b s \<longleftrightarrow> (\<exists>t. dget b ''task_id'' = PyStr t \<and> t \<noteq> [] \<and> (\<forall>x \<in> set (n_records s). oget x ''task_id'' = Some (PyStr t)))"

lemma step_identity_clean: "refusals (step_identity b s r) = [] \<longleftrightarrow> refusals r = [] \<and> identified b s"
proof (cases "\<exists>t. dget b ''task_id'' = PyStr t \<and> t \<noteq> []")
  case True
  then obtain t where t: "dget b ''task_id'' = PyStr t" "t \<noteq> []" by blast
  then show ?thesis by (auto simp: step_identity_def identified_def opt_eq_Str list_ex_iff)
next
  case False
  then have "\<not> (is_str (dget b ''task_id'') \<and> truthy (dget b ''task_id''))" by (cases "dget b ''task_id''") auto
  then show ?thesis using False by (auto simp: step_identity_def identified_def Let_def)
qed

subsection \<open>Delegation\<close>

text \<open>An observation by a witness who is neither end of the hop, with its own digest for an id and, where signatures are required, signed by
  the witness and by the sender.\<close>

definition witnessed :: "bool \<Rightarrow> pydict \<Rightarrow> bool" where
  "witnessed sigs o' \<longleftrightarrow>
     \<not> opt_eq (oget o' ''witness_id'') (oget (hop_of o') ''from'') \<and> \<not> opt_eq (oget o' ''witness_id'') (oget (hop_of o') ''to'') \<and>
     recomputes o' KObs ''evidence_id'' \<and>
     (sigs \<longrightarrow>
        sig_verifies (dget o' ''witness_id'') (dget o' ''witness_sig'') (n_preimage o' KObs) \<and>
        (\<exists>t h. oget o' ''task_id'' = Some t \<and> oget o' ''hop'' = Some h \<and>
           sig_verifies (dget (hop_of o') ''from'') (dget o' ''edge_sig'') (PyDict [(U ''task_id'', t), (U ''hop'', h)])))"

lemma obs_reason_None: "obs_reason sigs o' = None \<longleftrightarrow> witnessed sigs o'"
  by (auto simp: obs_reason_def witnessed_def Let_def split: option.splits)

text \<open>Every observation is the first, with a null predecessor, or carries the id of an observation at the place before it.\<close>

definition chained :: "pydict list \<Rightarrow> bool" where
  "chained obs \<longleftrightarrow>
     (\<forall>o' \<in> set obs. \<exists>i. seq_of o' = Some i \<and>
        (if i = 0 then oget o' ''prev_evidence_id'' = Some PyNone
         else 0 < i \<and> (\<exists>p \<in> set obs. \<exists>h. seq_of p = Some (i - 1) \<and> rid p KObs = Some h \<and> oget o' ''prev_evidence_id'' = Some (PyStr h))))"

lemma broken_links_None:
  "broken_links ids xs = Inr None \<longleftrightarrow>
     (\<forall>(o', s) \<in> set xs. if s = 0 then oget o' ''prev_evidence_id'' = Some PyNone
        else \<exists>h. oget o' ''prev_evidence_id'' = Some (PyStr h) \<and> Some h \<in> ids (s - 1))"
proof (induction xs)
  case (Cons x xs)
  obtain o' s where x: "x = (o', s)" by fastforce
  show ?case
  proof (cases "s = 0")
    case True
    then show ?thesis using Cons x by simp
  next
    case False
    then show ?thesis using Cons x by (auto simp: Let_def split: option.splits py.splits)
  qed
qed simp

lemma ids_at_Some: "Some h \<in> ids_at xs i \<longleftrightarrow> (\<exists>p. (p, i) \<in> set xs \<and> rid p KObs = Some h)"
  by (auto simp: ids_at_def image_iff)

text \<open>Places without a gap below them are the numbers from zero.\<close>

lemma closed_places:
  assumes "finite P" "\<And>i. i \<in> P \<Longrightarrow> (0 :: int) \<le> i" "\<And>i. i \<in> P \<Longrightarrow> i \<noteq> 0 \<Longrightarrow> i - 1 \<in> P"
  shows "\<exists>n. P = int ` {0..<n}"
proof (cases "P = {}")
  case False
  have down: "i \<in> P \<Longrightarrow> 0 \<le> j \<Longrightarrow> j \<le> i \<Longrightarrow> j \<in> P" for i j
  proof (induction "nat (i - j)" arbitrary: i)
    case (Suc k)
    then have "i - 1 \<in> P" "k = nat (i - 1 - j)" "j \<le> i - 1" using assms(3) by auto
    with Suc show ?case by blast
  qed simp
  have "P \<subseteq> {0..Max P}" using assms(1,2) Max_ge by auto
  moreover have "{0..Max P} \<subseteq> P" using down [OF Max_in [OF assms(1) False]] by auto
  ultimately have "P = {0..Max P}" by (rule equalityI)
  also have "\<dots> = int ` {0..<nat (Max P + 1)}" using assms(2) [OF Max_in [OF assms(1) False]] by (auto simp: image_iff intro!: bexI [of _ "nat _"])
  finally show ?thesis by blast
qed (auto intro: exI [of _ 0])

lemma range_places: "sort (remdups xs) = map int [0..<length (remdups xs)] \<longleftrightarrow> (\<exists>n. set xs = int ` {0..<n})"
proof
  assume a: "sort (remdups xs) = map int [0..<length (remdups xs)]"
  have "set xs = set (sort (remdups xs))" by simp
  also have "\<dots> = int ` {0..<length (remdups xs)}" unfolding a by simp
  finally show "\<exists>n. set xs = int ` {0..<n}" by blast
next
  assume "\<exists>n. set xs = int ` {0..<n}"
  then obtain n where n: "set xs = int ` {0..<n}" by blast
  then have l: "length (remdups xs) = n" by (simp add: length_remdups_card_conv card_image)
  have "sorted (map int [0..<n])" by (simp add: sorted_map sorted_wrt_upt sorted_wrt_mono_rel [of _ "(<)"])
  then show "sort (remdups xs) = map int [0..<length (remdups xs)]"
    unfolding l by (intro sorted_distinct_set_unique) (auto simp: n distinct_map)
qed

lemma chain_reason_None: "chain_reason obs = Inr None \<longleftrightarrow> chained obs"
proof (cases "\<forall>o' \<in> set obs. seq_of o' \<noteq> None")
  case True
  define xs where "xs = map (\<lambda>o'. (o', the (seq_of o'))) obs"
  have mem: "(p, i) \<in> set xs \<longleftrightarrow> p \<in> set obs \<and> seq_of p = Some i" for p i using True by (auto simp: xs_def)
  have "chain_reason obs = Inr None \<longleftrightarrow> (\<exists>n. set (map snd xs) = int ` {0..<n}) \<and> broken_links (ids_at xs) xs = Inr None"
    using True range_places [of "map snd xs"] by (auto simp: chain_reason_def Let_def list_ex_iff xs_def [symmetric])
  also have "broken_links (ids_at xs) xs = Inr None \<longleftrightarrow>
      (\<forall>o' \<in> set obs. \<forall>i. seq_of o' = Some i \<longrightarrow>
         (if i = 0 then oget o' ''prev_evidence_id'' = Some PyNone
          else \<exists>p \<in> set obs. \<exists>h. seq_of p = Some (i - 1) \<and> rid p KObs = Some h \<and> oget o' ''prev_evidence_id'' = Some (PyStr h)))"
    (is "_ \<longleftrightarrow> ?links")
  proof -
    have all: "(\<forall>(o', s) \<in> set xs. Q o' s) \<longleftrightarrow> (\<forall>o' \<in> set obs. \<forall>i. seq_of o' = Some i \<longrightarrow> Q o' i)" for Q
      unfolding Ball_def split_paired_All prod.case mem by blast
    have ex: "(\<exists>h. A h \<and> (\<exists>p. (p \<in> set obs \<and> B p) \<and> C p h)) \<longleftrightarrow> (\<exists>p \<in> set obs. \<exists>h. B p \<and> C p h \<and> A h)" for A :: "ustr \<Rightarrow> bool" and B C by blast
    show ?thesis unfolding broken_links_None ids_at_Some mem all ex ..
  qed
  also have "(\<exists>n. set (map snd xs) = int ` {0..<n}) \<and> ?links \<longleftrightarrow> chained obs"
  proof
    assume a: "(\<exists>n. set (map snd xs) = int ` {0..<n}) \<and> ?links"
    have "0 \<le> i" if "seq_of p = Some i" "p \<in> set obs" for p i
    proof -
      have i: "i \<in> set (map snd xs)" using that mem by force
      from a obtain n where "set (map snd xs) = int ` {0..<n}" by blast
      with i have "i \<in> int ` {0..<n}" by blast
      then show ?thesis by auto
    qed
    then show "chained obs" unfolding chained_def using a True by (metis not_None_eq order_le_less)
  next
    assume c: "chained obs"
    let ?P = "set (map snd xs)"
    have "0 \<le> i \<and> (i \<noteq> 0 \<longrightarrow> i - 1 \<in> ?P)" if "i \<in> ?P" for i
    proof -
      from that obtain p where p: "p \<in> set obs" "seq_of p = Some i" using mem by auto
      with c consider "i = 0" | q where "0 < i" "q \<in> set obs" "seq_of q = Some (i - 1)"
        unfolding chained_def by (metis option.inject)
      then show ?thesis
      proof cases
        case 2
        then have "(q, i - 1) \<in> set xs" using mem by blast
        then show ?thesis using 2 by force
      qed simp
    qed
    then have "\<exists>n. ?P = int ` {0..<n}" using closed_places [of ?P] by blast
    moreover have ?links
    proof (intro ballI allI impI)
      fix o' i assume o': "o' \<in> set obs" "seq_of o' = Some i"
      with c obtain j where "seq_of o' = Some j" "if j = 0 then oget o' ''prev_evidence_id'' = Some PyNone
        else 0 < j \<and> (\<exists>p \<in> set obs. \<exists>h. seq_of p = Some (j - 1) \<and> rid p KObs = Some h \<and> oget o' ''prev_evidence_id'' = Some (PyStr h))"
        unfolding chained_def by meson
      with o'(2) show "if i = 0 then oget o' ''prev_evidence_id'' = Some PyNone
        else \<exists>p \<in> set obs. \<exists>h. seq_of p = Some (i - 1) \<and> rid p KObs = Some h \<and> oget o' ''prev_evidence_id'' = Some (PyStr h)"
        by (simp split: if_splits)
    qed
    ultimately show "(\<exists>n. ?P = int ` {0..<n}) \<and> ?links" by blast
  qed
  finally show ?thesis .
next
  case False
  then have "\<not> chained obs" unfolding chained_def by (metis option.distinct(1))
  then show ?thesis using False by (auto simp: chain_reason_def list_ex_iff)
qed

definition delegated :: "slots \<Rightarrow> bool" where
  "delegated s \<longleftrightarrow>
     sl_raw_obs s = [] \<or>
     length (sl_obs s) = length (sl_raw_obs s) \<and> (\<forall>o' \<in> set (sl_obs s). witnessed (sl_sigs s) o') \<and> chained (sl_obs s)"

lemma step_delegation_clean:
  "(\<exists>r'. step_delegation u s r = Inr r' \<and> refusals r' = []) \<longleftrightarrow> refusals r = [] \<and> delegated s"
proof (cases "chain_reason (sl_obs s)")
  case (Inl e)
  then have "\<not> chained (sl_obs s)" by (metis chain_reason_None Inl_Inr_False)
  then show ?thesis using Inl by (auto simp: step_delegation_def delegated_def Let_def)
next
  case (Inr why)
  then have "why = None \<longleftrightarrow> chained (sl_obs s)" by (metis chain_reason_None sum.inject(2))
  then show ?thesis
    using Inr by (auto simp: step_delegation_def delegated_def Let_def refusals_fold obs_reason_None)
qed

subsection \<open>Execution\<close>

text \<open>There is no grant and no receipt; or there are both, the primary receipt and every other one that is signed is for what was granted,
  grant and primary receipt are signed where signatures are required, the grant names its provider, and all authentic receipts have
  one id.\<close>

definition executed :: "slots \<Rightarrow> bool" where
  "executed s \<longleftrightarrow>
     sl_exec_malformed s = 0 \<and>
     (case (sl_grant s, sl_rset s) of
        (None, []) \<Rightarrow> True
      | (Some g, p # rest) \<Rightarrow>
          granted g p \<and> (sl_sigs s \<longrightarrow> caller_signed g \<and> provider_signed p) \<and>
          (\<forall>x \<in> set rest. (sl_sigs s \<longrightarrow> provider_signed x) \<longrightarrow> granted g x) \<and> dget g ''provider_id'' \<noteq> PyNone \<and>
          (\<exists>x. by_receipt_id [] (filter (authentic_receipt (sl_sigs s) g) (p # rest)) = [x])
      | _ \<Rightarrow> False)"

text \<open>The receipt all authentic ones agree on.\<close>

definition reconciled_of :: "slots \<Rightarrow> pydict option" where
  "reconciled_of s =
     (case sl_grant s of
        None \<Rightarrow> None
      | Some g \<Rightarrow> (case by_receipt_id [] (filter (authentic_receipt (sl_sigs s) g) (sl_rset s)) of [x] \<Rightarrow> Some x | _ \<Rightarrow> None))"

lemma pair_refuse_result: "\<exists>r'. pair_refuse g x add r = Inr r' \<and> (refusals r' = [] \<longleftrightarrow> refusals r = [] \<and> granted g x)"
  using pair_check_result [of g x r add] by (auto simp: pair_refuse_def)

lemma other_receipts_result:
  "\<exists>r'. fold_r (other_receipt sigs g) r xs = Inr r' \<and>
     (refusals r' = [] \<longleftrightarrow> refusals r = [] \<and> (\<forall>x \<in> set xs. (sigs \<longrightarrow> caller_signed g \<and> provider_signed x) \<longrightarrow> granted g x))"
proof (induction xs arbitrary: r)
  case (Cons x xs)
  have "\<exists>r'. other_receipt sigs g r x = Inr r' \<and> (refusals r' = [] \<longleftrightarrow> refusals r = [] \<and> ((sigs \<longrightarrow> caller_signed g \<and> provider_signed x) \<longrightarrow> granted g x))"
    using pair_refuse_result [of g x False r] by (auto simp: other_receipt_def)
  then obtain r' where r': "other_receipt sigs g r x = Inr r'"
    "refusals r' = [] \<longleftrightarrow> refusals r = [] \<and> ((sigs \<longrightarrow> caller_signed g \<and> provider_signed x) \<longrightarrow> granted g x)" by blast
  show ?case using Cons.IH [of r'] r' by auto
qed simp

lemma reconcile_clean:
  "reconcile sigs g xs r = (r', x) \<Longrightarrow>
   refusals r' = [] \<longleftrightarrow> refusals r = [] \<and> dget g ''provider_id'' \<noteq> PyNone \<and> (\<exists>y. by_receipt_id [] (filter (authentic_receipt sigs g) xs) = [y])"
  by (auto simp: reconcile_def split: list.splits if_splits)

lemma reconcile_receipt:
  "reconcile sigs g xs r = (r', x) \<Longrightarrow> dget g ''provider_id'' \<noteq> PyNone \<Longrightarrow>
   x = (case by_receipt_id [] (filter (authentic_receipt sigs g) xs) of [y] \<Rightarrow> Some y | _ \<Rightarrow> None)"
  by (auto simp: reconcile_def split: list.splits)

lemma step_execution_result:
  "\<exists>r' x. step_execution s r = Inr (r', x) \<and> (refusals r' = [] \<longleftrightarrow> refusals r = [] \<and> executed s) \<and> (executed s \<longrightarrow> x = reconciled_of s)"
proof -
  define r0 where "r0 = (refuse ''execution_invalid'' (Some ''record_not_object'') ^^ sl_exec_malformed s) r"
  have r0: "refusals r0 = [] \<longleftrightarrow> refusals r = [] \<and> sl_exec_malformed s = 0" by (auto simp: r0_def refusals_repeat)
  show ?thesis
  proof (cases "sl_grant s")
    case None
    then show ?thesis using r0 by (cases "sl_rset s") (auto simp: step_execution_def executed_def reconciled_of_def Let_def r0_def [symmetric])
  next
    case (Some g)
    show ?thesis
    proof (cases "sl_rset s")
      case Nil
      then show ?thesis using Some by (simp add: step_execution_def executed_def Let_def)
    next
      case (Cons p rest)
      obtain r1 where r1: "pair_refuse g p True r0 = Inr r1" "refusals r1 = [] \<longleftrightarrow> refusals r0 = [] \<and> granted g p"
        using pair_refuse_result by blast
      let ?r = "execution_signatures (sl_sigs s) g p r1"
      have e: "refusals ?r = [] \<longleftrightarrow> refusals r1 = [] \<and> (sl_sigs s \<longrightarrow> caller_signed g \<and> provider_signed p)"
        by (auto simp: execution_signatures_def)
      obtain r2 where r2: "fold_r (other_receipt (sl_sigs s) g) ?r rest = Inr r2"
        "refusals r2 = [] \<longleftrightarrow> refusals ?r = [] \<and> (\<forall>x \<in> set rest. (sl_sigs s \<longrightarrow> caller_signed g \<and> provider_signed x) \<longrightarrow> granted g x)"
        using other_receipts_result by blast
      obtain r3 x where r3: "reconcile (sl_sigs s) g (p # rest) r2 = (r3, x)" by fastforce
      have "step_execution s r = Inr (r3, x)"
        using Some Cons r1(1) r2(1) r3 by (simp add: step_execution_def Let_def r0_def [symmetric])
      moreover have "refusals r3 = [] \<longleftrightarrow> refusals r = [] \<and> executed s"
        unfolding reconcile_clean [OF r3] r2(2) e r1(2) r0 executed_def Some Cons by (simp only: prod.case option.case list.case) blast
      moreover have "executed s \<longrightarrow> x = reconciled_of s"
        using reconcile_receipt [OF r3] Some Cons by (auto simp: executed_def reconciled_of_def)
      ultimately show ?thesis by blast
    qed
  qed
qed

subsection \<open>Preflight, evidence and linkage\<close>

definition preflighted :: "slots \<Rightarrow> bool" where
  "preflighted s \<longleftrightarrow>
     \<not> sl_pre_malformed s \<and>
     (case sl_intent s of
        None \<Rightarrow> True
      | Some i \<Rightarrow> (\<exists>g. sl_grant s = Some g \<and> declared g i \<and> (sl_sigs s \<longrightarrow> intent_signed i)))"

lemma step_preflight_result:
  "\<exists>r'. step_preflight s x r = Inr r' \<and> (refusals r' = [] \<longleftrightarrow> refusals r = [] \<and> preflighted s)"
proof (cases "sl_intent s")
  case None
  then show ?thesis by (simp add: step_preflight_def preflighted_def Let_def)
next
  case (Some i)
  show ?thesis
  proof (cases "sl_grant s")
    case None
    then show ?thesis using Some by (simp add: step_preflight_def preflighted_def Let_def)
  next
    case (Some g)
    define r0 where "r0 = refuse_if (sl_pre_malformed s) ''preflight_invalid'' (Some ''record_not_object'') r"
    obtain r1 why where c: "intent_check g i r0 = Inr (r1, why)" "refusals r1 = refusals r0" "why = None \<longleftrightarrow> declared g i"
      using intent_check_result by blast
    have "refusals r0 = [] \<longleftrightarrow> refusals r = [] \<and> \<not> sl_pre_malformed s" by (simp add: r0_def)
    then show ?thesis
      using Some c \<open>sl_intent s = Some i\<close>
      by (auto simp: step_preflight_def preflighted_def Let_def r0_def [symmetric] split: option.splits)
  qed
qed

definition evidenced :: "pydict option \<Rightarrow> bool" where
  "evidenced target \<longleftrightarrow>
     (case target of None \<Rightarrow> True | Some x \<Rightarrow> falsy_action (evidence_of x) \<or> (\<exists>e. evidence_of x = Some e \<and> evidence_formed e))"

lemma step_evidence_clean: "refusals (step_evidence target r) = [] \<longleftrightarrow> refusals r = [] \<and> evidenced target"
proof (cases target)
  case (Some x)
  then show ?thesis
    by (cases "evidence_of x") (auto simp: step_evidence_def evidenced_def falsy_action_def)
qed (simp add: step_evidence_def evidenced_def)

text \<open>A witness who links the observation to an execution links it to the receipt that was reconciled.\<close>

definition linked :: "slots \<Rightarrow> pydict option \<Rightarrow> bool" where
  "linked s reconciled \<longleftrightarrow>
     (case reconciled of
        None \<Rightarrow> True
      | Some x \<Rightarrow> (\<forall>o' \<in> set (sl_obs s). \<forall>l. digest_link o' = Some l \<longrightarrow> rid x KReceipt = Some l))"

lemma map_filter_all: "(\<forall>y \<in> set (List.map_filter f xs). P y) \<longleftrightarrow> (\<forall>x \<in> set xs. \<forall>y. f x = Some y \<longrightarrow> P y)"
  by (induction xs) (auto simp: List.map_filter_simps split: option.splits)

lemma step_linkage_clean:
  assumes "sl_raw_obs s = [] \<Longrightarrow> sl_obs s = []"
  shows "refusals (step_linkage s x r) = [] \<longleftrightarrow> refusals r = [] \<and> linked s x"
proof (cases x)
  case (Some y)
  have "list_ex (\<lambda>l. Some l \<noteq> rid y KReceipt) (List.map_filter digest_link (sl_obs s)) \<longleftrightarrow> \<not> linked s x"
    using Some map_filter_all [of digest_link "sl_obs s" "\<lambda>l. rid y KReceipt = Some l"]
    unfolding list_ex_iff linked_def eq_commute [of _ "rid y KReceipt"] by simp blast
  moreover have "sl_raw_obs s = [] \<Longrightarrow> linked s x" using assms Some by (simp add: linked_def)
  moreover have "List.map_filter digest_link (sl_obs s) = [] \<Longrightarrow> linked s x" using calculation(1) by auto
  ultimately show ?thesis using Some by (auto simp: step_linkage_def Let_def)
qed (simp add: step_linkage_def linked_def)

section \<open>When a bundle is accepted\<close>

lemma slots_obs: "sl_raw_obs (n_slots b) = [] \<Longrightarrow> sl_obs (n_slots b) = []"
  by (simp add: n_slots_def dicts_of_def List.map_filter_def Let_def split: prod.splits)

text \<open>C7. A bundle is accepted exactly when every part of it stands: one task id throughout; every observation independently witnessed, signed by
  witness and sender, and carrying the id of one at the place before it; a grant and a receipt that is for what was granted, in time, by
  the provider named, both signed, with one receipt only; an intent, if there is one, declared under the same grant; and evidence and
  links, where there are any, of the right form and to that receipt.\<close>

theorem nenrin_accepted_iff:
  "(\<exists>r. n_verify u bundle = Inr r \<and> n_accepted r) \<longleftrightarrow>
     (let s = n_slots (n_dict bundle) in
      identified (n_dict bundle) s \<and> delegated s \<and> executed s \<and> preflighted s \<and> evidenced (n_target s (reconciled_of s)) \<and>
      linked s (reconciled_of s))"
proof -
  define b where "b = n_dict bundle"
  define s where "s = n_slots b"
  define r0 where "r0 = step_identity b s new_report"
  have r0: "refusals r0 = [] \<longleftrightarrow> identified b s" by (simp add: r0_def step_identity_clean)
  have obs: "sl_raw_obs s = [] \<Longrightarrow> sl_obs s = []" unfolding s_def by (rule slots_obs)
  show ?thesis
  proof (cases "step_delegation u s r0")
    case (Inl e)
    then have "\<not> (identified b s \<and> delegated s)" using step_delegation_clean [of u s r0] r0 by auto
    then show ?thesis using Inl by (auto simp: n_verify_def Let_def b_def s_def r0_def)
  next
    case (Inr r1)
    have r1: "refusals r1 = [] \<longleftrightarrow> identified b s \<and> delegated s" using step_delegation_clean [of u s r0] r0 Inr by auto
    obtain r2 x where r2: "step_execution s r1 = Inr (r2, x)" "refusals r2 = [] \<longleftrightarrow> refusals r1 = [] \<and> executed s"
      "executed s \<longrightarrow> x = reconciled_of s" using step_execution_result by blast
    obtain r3 where r3: "step_preflight s x r2 = Inr r3" "refusals r3 = [] \<longleftrightarrow> refusals r2 = [] \<and> preflighted s"
      using step_preflight_result by blast
    let ?r = "step_linkage s x (step_evidence (n_target s x) r3)"
    have v: "n_verify u bundle = Inr ?r"
      using Inr r2(1) r3(1) by (simp add: n_verify_def Let_def b_def [symmetric] s_def [symmetric] r0_def [symmetric])
    have "n_accepted ?r \<longleftrightarrow> (identified b s \<and> delegated s) \<and> executed s \<and> preflighted s \<and> evidenced (n_target s x) \<and> linked s x"
      using step_linkage_clean [of s x "step_evidence (n_target s x) r3", OF obs] step_evidence_clean [of "n_target s x" r3] r3(2) r2(2) r1
      unfolding n_accepted_def by blast
    then show ?thesis using v r2(3) unfolding b_def [symmetric] s_def [symmetric] Let_def by auto
  qed
qed

section \<open>When the procedure raises\<close>

text \<open>A predecessor that is not a string is not always refused: an observation after the first whose \<^verbatim>\<open>prev_evidence_id\<close> is a list makes the
  procedure raise, since a list cannot be looked up in a set.\<close>

lemma list_predecessor_raises:
  assumes "dget b ''observations'' = PyList [PyDict x, PyDict y]" "seq_of x = Some 0" "oget x ''prev_evidence_id'' = Some PyNone"
    "seq_of y = Some 1" "oget y ''prev_evidence_id'' = Some (PyList vs)"
  shows "n_verify u (PyDict b) = Inl TypeError"
proof -
  have o: "sl_raw_obs (n_slots b) = [PyDict x, PyDict y]" "sl_obs (n_slots b) = [x, y]"
    using assms(1) by (simp_all add: n_slots_def n_list_def dicts_of_def List.map_filter_simps Let_def split: prod.splits)
  have "sort [0, 1 :: int] = map int [0..<2]" by (simp add: eval_nat_numeral)
  then have "chain_reason [x, y] = Inl TypeError" using assms(2-5) by (simp add: chain_reason_def Let_def eval_nat_numeral)
  then show ?thesis using o by (simp add: n_verify_def n_dict_def step_delegation_def Let_def)
qed

lemma list_predecessor_raises_instance:
  "n_verify sample_ucd (PyDict [(U ''observations'', PyList
     [PyDict [(U ''hop'', PyDict [(U ''seq'', PyInt 0)]), (U ''prev_evidence_id'', PyNone)],
      PyDict [(U ''hop'', PyDict [(U ''seq'', PyInt 1)]), (U ''prev_evidence_id'', PyList [])]])]) = Inl TypeError"
  by (rule list_predecessor_raises, simp add: lit_simps) (simp_all add: lit_simps seq_of_def oget_def)

section \<open>What a report can say\<close>

definition refusal_codes :: "string set" where
  "refusal_codes =
     {''task_id_missing'', ''task_id_mismatch'', ''delegation_observation_invalid'', ''delegation_chain_broken'', ''execution_invalid'',
      ''execution_incomplete_pair'', ''execution_signature_invalid'', ''execution_unreconciled'', ''execution_equivocation'', ''preflight_invalid'',
      ''preflight_without_grant'', ''preflight_signature_invalid'', ''evidence_invalid'', ''linkage_receipt_mismatch''}"

definition finding_codes :: "string set" where
  "finding_codes =
     {''no_delegation_observations'', ''witness_disagreement'', ''no_execution_records'', ''open_grant'', ''self_authorized'',
      ''declared_executed_divergence'', ''no_evidence_bound'', ''evidence_bound_unchecked'', ''no_digest_link''}"

definition in_vocabulary :: "report \<Rightarrow> bool" where
  "in_vocabulary r \<longleftrightarrow> set (refusals r) \<subseteq> refusal_codes \<and> set (findings r) \<subseteq> finding_codes"

lemma vocabulary_simps [simp]:
  "c \<in> refusal_codes \<Longrightarrow> in_vocabulary (refuse c w r) = in_vocabulary r"
  "c \<in> refusal_codes \<Longrightarrow> in_vocabulary (refuse_if b c w r) = in_vocabulary r"
  "c \<in> refusal_codes \<Longrightarrow> in_vocabulary (refuse_opt c why r) = in_vocabulary r"
  "f \<in> finding_codes \<Longrightarrow> in_vocabulary (find_in f r) = in_vocabulary r"
  "c \<in> refusal_codes \<Longrightarrow> in_vocabulary ((refuse c w ^^ n) r) = in_vocabulary r"
proof -
  show refuse: "in_vocabulary (refuse c w r) = in_vocabulary r" if "c \<in> refusal_codes" for c w r
    using that by (auto simp: in_vocabulary_def refuse_def)
  show "c \<in> refusal_codes \<Longrightarrow> in_vocabulary (refuse_if b c w r) = in_vocabulary r"
    "c \<in> refusal_codes \<Longrightarrow> in_vocabulary (refuse_opt c why r) = in_vocabulary r"
    by (auto simp: refuse_if_def refuse_opt_def refuse split: option.splits)
  show "f \<in> finding_codes \<Longrightarrow> in_vocabulary (find_in f r) = in_vocabulary r" by (auto simp: in_vocabulary_def find_in_def)
  show "c \<in> refusal_codes \<Longrightarrow> in_vocabulary ((refuse c w ^^ n) r) = in_vocabulary r" by (induction n) (simp_all add: refuse)
qed

lemma codes_members [simp]:
  "''task_id_missing'' \<in> refusal_codes" "''task_id_mismatch'' \<in> refusal_codes" "''delegation_observation_invalid'' \<in> refusal_codes"
  "''delegation_chain_broken'' \<in> refusal_codes" "''execution_invalid'' \<in> refusal_codes" "''execution_incomplete_pair'' \<in> refusal_codes"
  "''execution_signature_invalid'' \<in> refusal_codes" "''execution_unreconciled'' \<in> refusal_codes" "''execution_equivocation'' \<in> refusal_codes"
  "''preflight_invalid'' \<in> refusal_codes" "''preflight_without_grant'' \<in> refusal_codes" "''preflight_signature_invalid'' \<in> refusal_codes"
  "''evidence_invalid'' \<in> refusal_codes" "''linkage_receipt_mismatch'' \<in> refusal_codes"
  "''no_delegation_observations'' \<in> finding_codes" "''witness_disagreement'' \<in> finding_codes" "''no_execution_records'' \<in> finding_codes"
  "''open_grant'' \<in> finding_codes" "''self_authorized'' \<in> finding_codes" "''declared_executed_divergence'' \<in> finding_codes"
  "''no_evidence_bound'' \<in> finding_codes" "''evidence_bound_unchecked'' \<in> finding_codes" "''no_digest_link'' \<in> finding_codes"
  by (simp_all add: refusal_codes_def finding_codes_def)

lemma grant_findings_vocabulary: "in_vocabulary r \<Longrightarrow> in_vocabulary (grant_findings g r)"
  by (auto simp: grant_findings_def Let_def)

lemma grant_check_vocabulary:
  "in_vocabulary r \<Longrightarrow> grant_check g gref x unbound tf act r add = Inr (r', why) \<Longrightarrow> in_vocabulary r'"
  by (auto simp: grant_check_def grant_findings_vocabulary split: if_splits option.splits)

lemma pair_refuse_vocabulary: "in_vocabulary r \<Longrightarrow> pair_refuse g x add r = Inr r' \<Longrightarrow> in_vocabulary r'"
  by (auto simp: pair_refuse_def pair_check_def dest: grant_check_vocabulary split: if_splits option.splits)

lemma others_vocabulary: "in_vocabulary r \<Longrightarrow> fold_r (other_receipt sigs g) r xs = Inr r' \<Longrightarrow> in_vocabulary r'"
  by (induction xs arbitrary: r) (auto simp: other_receipt_def dest: pair_refuse_vocabulary split: if_splits)

lemma execution_vocabulary: "in_vocabulary r \<Longrightarrow> step_execution s r = Inr (r', x) \<Longrightarrow> in_vocabulary r'"
proof -
  assume r: "in_vocabulary r" and e: "step_execution s r = Inr (r', x)"
  let ?r = "(refuse ''execution_invalid'' (Some ''record_not_object'') ^^ sl_exec_malformed s) r"
  have r0: "in_vocabulary ?r" using r by simp
  consider "sl_grant s = None \<or> sl_rset s = []" | g p rest where "sl_grant s = Some g" "sl_rset s = p # rest"
    by (metis not_None_eq neq_Nil_conv)
  then show ?thesis
  proof cases
    case 1
    then show ?thesis using e r0 by (auto simp: step_execution_def Let_def split: option.splits list.splits)
  next
    case 2
    with e obtain r1 r2 where h: "pair_refuse g p True ?r = Inr r1"
      "fold_r (other_receipt (sl_sigs s) g) (execution_signatures (sl_sigs s) g p r1) rest = Inr r2" "reconcile (sl_sigs s) g (p # rest) r2 = (r', x)"
      by (auto simp: step_execution_def Let_def)
    have "in_vocabulary (execution_signatures (sl_sigs s) g p r1)"
      using pair_refuse_vocabulary [OF r0 h(1)] by (auto simp: execution_signatures_def)
    from others_vocabulary [OF this h(2)] h(3) show ?thesis by (auto simp: reconcile_def split: if_splits list.splits)
  qed
qed

lemma intent_check_vocabulary: "in_vocabulary r \<Longrightarrow> intent_check g i r = Inr (r', why) \<Longrightarrow> in_vocabulary r'"
  by (auto simp: intent_check_def dest: grant_check_vocabulary split: if_splits option.splits)

lemma preflight_vocabulary: "in_vocabulary r \<Longrightarrow> step_preflight s x r = Inr r' \<Longrightarrow> in_vocabulary r'"
proof -
  assume r: "in_vocabulary r" and e: "step_preflight s x r = Inr r'"
  define r0 where "r0 = refuse_if (sl_pre_malformed s) ''preflight_invalid'' (Some ''record_not_object'') r"
  have r0: "in_vocabulary r0" using r by (simp add: r0_def)
  consider "sl_intent s = None" | i where "sl_intent s = Some i" "sl_grant s = None" | i g where "sl_intent s = Some i" "sl_grant s = Some g"
    by (cases "sl_intent s"; cases "sl_grant s") simp_all
  then show ?thesis
  proof cases
    case (3 i g)
    with e obtain r1 why where c: "intent_check g i r0 = Inr (r1, why)"
      unfolding step_preflight_def Let_def r0_def [symmetric] by (cases "intent_check g i r0") (simp_all add: prod_eq_iff)
    have "in_vocabulary r1" using intent_check_vocabulary [OF r0 c] .
    then show ?thesis
      using e 3 c unfolding step_preflight_def Let_def r0_def [symmetric] by (cases x) (auto split: if_splits)
  qed (use e r0 in \<open>auto simp: step_preflight_def Let_def r0_def\<close>)
qed

lemma delegation_vocabulary: "in_vocabulary r \<Longrightarrow> step_delegation u s r = Inr r' \<Longrightarrow> in_vocabulary r'"
proof -
  have f: "in_vocabulary r \<Longrightarrow> in_vocabulary (foldl (\<lambda>r x. refuse_opt ''delegation_observation_invalid'' (f x) r) r xs)" for f and xs :: "pydict list" and r
    by (induction xs arbitrary: r) auto
  assume "in_vocabulary r" "step_delegation u s r = Inr r'"
  then show ?thesis by (auto simp: step_delegation_def Let_def split: if_splits intro!: f)
qed

lemma chain_error: "chain_reason obs = Inl e \<Longrightarrow> e = TypeError"
proof -
  have "broken_links ids xs = Inl e \<Longrightarrow> e = TypeError" for ids xs
    by (induction xs rule: broken_links.induct [of _ ids]) (auto simp: Let_def split: if_splits option.splits py.splits)
  then show "chain_reason obs = Inl e \<Longrightarrow> e = TypeError" by (auto simp: chain_reason_def Let_def split: if_splits)
qed

text \<open>C23. The reports are of their type: whatever the bundle is, the procedure returns a report whose refusals and findings are codes of the
  procedure, or raises the one exception that it leaves open.\<close>

theorem nenrin_report_type:
  "case n_verify u bundle of
     Inl e \<Rightarrow> e = TypeError
   | Inr r \<Rightarrow> set (refusals r) \<subseteq> refusal_codes \<and> set (findings r) \<subseteq> finding_codes"
proof -
  define s where "s = n_slots (n_dict bundle)"
  define r0 where "r0 = step_identity (n_dict bundle) s new_report"
  have "in_vocabulary new_report" by (simp add: in_vocabulary_def new_report_def)
  then have r0: "in_vocabulary r0" by (auto simp: r0_def step_identity_def Let_def)
  show ?thesis
  proof (cases "step_delegation u s r0")
    case (Inl e)
    then have "e = TypeError" by (auto simp: step_delegation_def Let_def bnd_eq_Inl dest: chain_error split: if_splits)
    then show ?thesis using Inl by (simp add: n_verify_def Let_def s_def [symmetric] r0_def [symmetric])
  next
    case (Inr r1)
    obtain r2 x where r2: "step_execution s r1 = Inr (r2, x)" using step_execution_result by blast
    obtain r3 where r3: "step_preflight s x r2 = Inr r3" using step_preflight_result by blast
    have "in_vocabulary r3"
      using preflight_vocabulary [OF execution_vocabulary [OF delegation_vocabulary [OF r0 Inr] r2] r3] .
    then have "in_vocabulary (step_linkage s x (step_evidence (n_target s x) r3))"
      by (auto simp: step_linkage_def step_evidence_def Let_def split: option.splits)
    then show ?thesis
      using Inr r2 r3 by (simp add: n_verify_def Let_def s_def [symmetric] r0_def [symmetric] in_vocabulary_def)
  qed
qed

section \<open>The canonical form is that of the suite\<close>

fun printable_keys :: "py \<Rightarrow> bool" where
  "printable_keys (PyList xs) = list_all printable_keys xs"
| "printable_keys (PyDict d) = list_all (\<lambda>kv. printable_key (fst kv) \<and> printable_keys (snd kv)) d"
| "printable_keys _ = True"

lemma n_cstr_json: "scalar_str s \<Longrightarrow> n_cstr s = json_str False s"
proof -
  assume "scalar_str s"
  then have m: "map n_char s = map (esc_char False) s"
    by (auto simp: scalar_str_def list_all_iff is_scalar_def n_char_def esc_char_def)
  show ?thesis unfolding n_cstr_def json_str_def m ..
qed

text \<open>On values of safe integers without floats or surrogates whose keys are printable, it is the sorted compact text, so also the RFC 8785 form.\<close>

lemma n_c_dumps: "jcs_plain v \<Longrightarrow> printable_keys v \<Longrightarrow> n_c v = Inr (dumps_sorted v)"
proof (induction v)
  case (PyDict d)
  then have k: "list_all (\<lambda>kv. printable_key (fst kv)) d" and sc: "\<And>kv. kv \<in> set d \<Longrightarrow> scalar_str (fst kv)"
    and e: "map (\<lambda>kv. (fst kv, n_c (snd kv))) d = map (\<lambda>kx. (fst kx, Inr (snd kx))) (map (\<lambda>kv. (fst kv, dumps_sorted (snd kv))) d)"
    by (auto simp: list_all_iff snds.simps)
  let ?ts = "map (\<lambda>kv. (fst kv, dumps_sorted (snd kv))) d"
  have s: "sort_key fst (map (\<lambda>kx. (fst kx, Inr (snd kx) :: ustr res)) ?ts) = map (\<lambda>kx. (fst kx, Inr (snd kx))) (sort_key fst ?ts)"
    by (rule sort_key_map) simp
  have r: "map_r (\<lambda>kr. bnd (snd kr) (\<lambda>t. Inr (n_cstr (fst kr) @ [58] @ t))) (map (\<lambda>kx. (fst kx, Inr (snd kx) :: ustr res)) xs)
      = Inr (map (\<lambda>kx. n_cstr (fst kx) @ [58] @ snd kx) xs)" for xs
    by (induction xs) auto
  have m: "map (\<lambda>kx. n_cstr (fst kx) @ [58] @ snd kx) (sort_key fst ?ts) = map (\<lambda>kx. json_str False (fst kx) @ [58] @ snd kx) (sort_key fst ?ts)"
    using sc by (auto simp: n_cstr_json)
  show ?case using k unfolding n_c.simps e s r m json_dumps.simps by (simp only: bnd_Inr if_True if_False not_True_eq_False)
next
  case (PyList xs)
  then have "map_r n_c xs = Inr (map dumps_sorted xs)" by (intro map_r_total) (auto simp: list_all_iff)
  then show ?case by simp
qed (auto simp: n_int_def n_SAFE_def n_cstr_json)

lemma jcs_plain_scalar: "jcs_plain v \<Longrightarrow> scalar_py v"
  by (induction v) (force simp: list_all_iff snds.simps)+

text \<open>So an id binds its record: two records of one kind with the same id have the same signed fields, or a SHA-256 collision is in hand.\<close>

lemma rid_binds:
  assumes "rid x kind = Some h" "rid y kind = Some h" "jcs_plain (n_preimage x kind)" "jcs_plain (n_preimage y kind)"
    "printable_keys (n_preimage x kind)" "printable_keys (n_preimage y kind)"
  shows "jcs_sort (n_preimage x kind) = jcs_sort (n_preimage y kind) \<or>
    (\<exists>a b. try_canonical (n_preimage x kind) = Some a \<and> try_canonical (n_preimage y kind) = Some b \<and> collision a b)"
proof -
  let ?x = "n_preimage x kind" and ?y = "n_preimage y kind"
  have bmp: "bmp_keys v" if "printable_keys v" for v using that
    by (induction v) (force simp: list_all_iff printable_key_def snds.simps)+
  have c: "n_c ?x = jcs ?x" "n_c ?y = jcs ?y" using assms bmp by (simp_all add: n_c_dumps jcs_dumps_sorted)
  define s t where "s = dumps_sorted ?x" "t = dumps_sorted ?y"
  then have st: "jcs ?x = Inr s" "jcs ?y = Inr t" and sc: "scalar_str s" "scalar_str t"
    using assms bmp by (simp_all add: jcs_dumps_sorted scalar_dumps jcs_plain_scalar)
  show ?thesis
  proof (cases "s = t")
    case True
    then show ?thesis using jcs_commit.enc_determines [OF assms(3,4)] st by blast
  next
    case False
    then have "utf8_total s \<noteq> utf8_total t" using utf8_total_inj sc by blast
    moreover have "sha256_hex (utf8_total s) = sha256_hex (utf8_total t)"
      using assms(1,2) st c by (simp add: rid_def sha256c_def try_canonical_def)
    ultimately show ?thesis using st c sha256_hex_eq by (auto simp: try_canonical_def)
  qed
qed

end
