(* ===== verification/Composed.thy ===== *)
theory Composed
  imports Chains Nenrin
begin

text \<open>
  \<^verbatim>\<open>examples/composed-envelope-recompute/check_composed_envelope.py\<close> (one payload signed by several issuers) and
  \<^verbatim>\<open>examples/composed-decision-chain-recompute/check_composed_chain.py\<close> (a decision that is admitted, recomputed and committed to a chain). The first
  carries its own Ed25519 and RFC 8785 writer, which are compared with those of the other models. The files of a directory are a
  list of names with their parsed contents; printing is left out, and so is the run of the second script on its committed fixture.
\<close>

section \<open>The Ed25519 of the envelope\<close>

definition ce_recover_x :: "int \<Rightarrow> int \<Rightarrow> int option" where
  "ce_recover_x y sign =
     (if ed_p \<le> y then None
      else
        let x2 = (y * y - 1) * powmod (ed_d * y * y + 1) (nat (ed_p - 2)) ed_p mod ed_p in
        if x2 = 0 then (if sign \<noteq> 0 then None else Some 0)
        else
          let x = powmod x2 (nat ((ed_p + 3) div 8)) ed_p;
              x' = (if (x * x - x2) mod ed_p \<noteq> 0 then x * ed_I mod ed_p else x)
          in if (x' * x' - x2) mod ed_p \<noteq> 0 then None else Some (if x' mod 2 \<noteq> sign then ed_p - x' else x'))"

text \<open>The base point, computed when the module is loaded.\<close>

definition ce_B :: "ext_point res" where
  "ce_B = (case ce_recover_x ed_By 0 of None \<Rightarrow> Inl TypeError | Some x \<Rightarrow> Inr (x, ed_By, 1, x * ed_By mod ed_p))"

definition ce_decompress :: "bytes \<Rightarrow> ext_point option" where
  "ce_decompress s =
     (if length s \<noteq> 32 then None
      else
        let y = int_of_le s AND (push_bit 255 1 - 1); sign = uint (drop_bit 7 (s ! 31)) in
        case ce_recover_x y sign of None \<Rightarrow> None | Some x \<Rightarrow> Some (x, y, 1, x * y mod ed_p))"

definition ce_verify :: "bytes \<Rightarrow> bytes \<Rightarrow> bytes \<Rightarrow> bool res" where
  "ce_verify public_key msg signature =
     (if length public_key \<noteq> 32 \<or> length signature \<noteq> 64 then Inr False
      else
        case ce_decompress public_key of
          None \<Rightarrow> Inr False
        | Some A \<Rightarrow>
            (let Rs = take 32 signature; ss = drop 32 signature in
             case ce_decompress Rs of
               None \<Rightarrow> Inr False
             | Some R \<Rightarrow>
                 (let s = int_of_le ss in
                  if ed_L \<le> s then Inr False
                  else
                    let h = int_of_le (sha512 (Rs @ public_key @ msg)) mod ed_L in
                    bnd ce_B (\<lambda>B. Inr (ed_eq (ref_mul (nat s) B) (ed_add R (ref_mul (nat h) A)))))))"

section \<open>The canonical form of the envelope\<close>

text \<open>A number with a fraction is written as \<^verbatim>\<open>repr\<close> writes it, and one that needs an exponent fails an assertion.\<close>

definition ce_float :: "pyfloat \<Rightarrow> ustr res" where
  "ce_float f =
     (case f of
        FNan \<Rightarrow> Inl ValueError
      | FInf _ \<Rightarrow> Inl ValueError
      | FFin _ _ _ \<Rightarrow>
          (case float_integer f of
             Some i \<Rightarrow> if \<bar>i\<bar> < 10 ^ 21 then Inr (int_dec i)
                       else if 101 \<in> set (float_repr f) then Inl AssertionError else Inr (float_repr f)
           | None \<Rightarrow> if 101 \<in> set (float_repr f) then Inl AssertionError else Inr (float_repr f)))"

fun ce_jcs :: "py \<Rightarrow> ustr res" where
  "ce_jcs PyNone = Inr (U ''null'')"
| "ce_jcs (PyBool b) = Inr (if b then U ''true'' else U ''false'')"
| "ce_jcs (PyStr s) = Inr (js_string s)"
| "ce_jcs (PyInt i) = Inr (int_dec i)"
| "ce_jcs (PyFloat f) = ce_float f"
| "ce_jcs (PyList xs) = bnd (map_r ce_jcs xs) (\<lambda>ts. Inr ([91] @ join [44] ts @ [93]))"
| "ce_jcs (PyDict d) =
     bnd (map_r (\<lambda>kr. bnd (utf16_be (fst kr)) (\<lambda>b. Inr (b, kr))) (map (\<lambda>kv. (fst kv, ce_jcs (snd kv))) d)) (\<lambda>keyed.
     bnd (map_r (\<lambda>x. bnd (snd (snd x)) (\<lambda>t. Inr (js_string (fst (snd x)) @ [58] @ t))) (sort_key fst keyed)) (\<lambda>ps.
       Inr ([123] @ join [44] ps @ [125])))"

section \<open>The check of an envelope\<close>

definition ce_b64u_decode :: "py \<Rightarrow> bytes res" where
  "ce_b64u_decode v = bnd (as_str TypeError v) (\<lambda>s. urlsafe_b64decode (s @ replicate ((4 - length s mod 4) mod 4) 61))"

text \<open>Keys by their id, a later one in place of an earlier one.\<close>

type_synonym jwks = "(py \<times> bytes \<times> ustr) list"

definition is_jwks_name :: "ustr \<Rightarrow> bool" where
  "is_jwks_name fn \<longleftrightarrow> startswith fn (U ''jwks-'') \<and> startswith (rev fn) (rev (U ''.json''))"

definition jwk_key :: "ustr \<Rightarrow> py \<Rightarrow> (py \<times> bytes \<times> ustr) res" where
  "jwk_key fn k =
     bnd (and_r (bnd (py_item k ''kty'') (\<lambda>v. Inr (py_eq v (S ''OKP'')))) (bnd (py_item k ''crv'') (\<lambda>v. Inr (py_eq v (S ''Ed25519''))))) (\<lambda>ok.
     if \<not> ok then Inl AssertionError
     else
       bnd (bnd (py_item k ''x'') ce_b64u_decode) (\<lambda>x.
       bnd (py_item k ''kid'') (\<lambda>kid. if hashable kid then Inr (kid, x, fn) else Inl TypeError)))"

definition load_jwks :: "(ustr \<times> py) list \<Rightarrow> jwks res" where
  "load_jwks directory =
     bnd (map_r (\<lambda>f. bnd (bnd (py_item (snd f) ''keys'') py_iter) (map_r (jwk_key (fst f))))
           (filter (\<lambda>f. is_jwks_name (fst f)) (sort_key fst directory))) (\<lambda>kss. Inr (concat kss))"

definition key_of :: "jwks \<Rightarrow> py \<Rightarrow> (bytes \<times> ustr) option res" where
  "key_of keys kid =
     (if hashable kid then Inr (map_option snd (find (\<lambda>kv. py_eq kid (fst kv)) (rev keys))) else Inl TypeError)"

definition payload_canonical :: "bytes \<Rightarrow> bool res" where
  "payload_canonical b =
     (case bnd (bnd (utf8_decode False b) json_loads) (\<lambda>v. bnd (ce_jcs v) utf8) of
        Inl e \<Rightarrow> if is_value_error e then Inr False else Inl e
      | Inr r \<Rightarrow> Inr (r = b))"

definition signature_check :: "jwks \<Rightarrow> ustr \<Rightarrow> py \<Rightarrow> bool res" where
  "signature_check keys payload sg =
     bnd (py_item sg ''protected'') (\<lambda>p.
     bnd (bnd (ce_b64u_decode p) json_loads_bytes) (\<lambda>prot.
     bnd (py_get prot ''kid'') (\<lambda>kid.
     bnd (py_get prot ''alg'') (\<lambda>alg.
     bnd (bnd (as_str TypeError p) (\<lambda>p'. ascii_encode (p' @ [46] @ payload))) (\<lambda>m.
     if \<not> py_eq alg (S ''EdDSA'') then Inr False
     else
       bnd (key_of keys kid) (\<lambda>found.
       case found of
         None \<Rightarrow> Inr False
       | Some (pk, origin) \<Rightarrow> bnd (bnd (py_item sg ''signature'') ce_b64u_decode) (\<lambda>s. ce_verify pk m s)))))))"

text \<open>The verdict is asserted, and the digest of the payload is returned.\<close>

definition envelope_verdict :: "(ustr \<times> py) list \<Rightarrow> py \<Rightarrow> (bool \<times> ustr) res" where
  "envelope_verdict directory env =
     bnd (py_item env ''payload'') (\<lambda>pv.
     bnd (ce_b64u_decode pv) (\<lambda>b.
     bnd (as_str TypeError pv) (\<lambda>payload.
     bnd (payload_canonical b) (\<lambda>canon_ok.
     bnd (load_jwks directory) (\<lambda>keys.
     bnd (bnd (py_item env ''signatures'') py_iter) (\<lambda>sigs.
     bnd (map_r (signature_check keys payload) sigs) (\<lambda>oks.
       Inr (list_all id (canon_ok # oks), sha256_hex b))))))))"

definition envelope_check :: "(ustr \<times> py) list \<Rightarrow> py \<Rightarrow> bool \<Rightarrow> ustr res" where
  "envelope_check directory env expect_fail =
     bnd (envelope_verdict directory env) (\<lambda>(verdict, h). if verdict = expect_fail then Inl AssertionError else Inr h)"

definition ce_b64u :: "bytes \<Rightarrow> ustr" where
  "ce_b64u b = rev (dropWhile (\<lambda>c. c = 61) (rev (map (\<lambda>c. if c = 43 then 45 else if c = 47 then 95 else c) (b64encode b))))"

text \<open>The demonstration that flips the low bit of the last byte but one.\<close>

definition tamper_demo :: "(ustr \<times> py) list \<Rightarrow> py \<Rightarrow> unit res" where
  "tamper_demo directory env =
     bnd (bnd (py_item env ''payload'') ce_b64u_decode) (\<lambda>raw.
     if length raw < 2 then Inl IndexError
     else
       let i = length raw - 2; raw' = raw[i := raw ! i XOR 1] in
       case env of
         PyDict d \<Rightarrow> bnd (envelope_check directory (PyDict (dset d (U ''payload'') (PyStr (ce_b64u raw')))) True) (\<lambda>_. Inr ())
       | _ \<Rightarrow> Inl TypeError)"

section \<open>The composed decision chain\<close>



definition cc_decision_ref :: "pydict \<Rightarrow> ustr list \<Rightarrow> ustr res" where
  "cc_decision_ref fs preimage_keys =
     bnd (map_r (\<lambda>k. case map_of fs k of None \<Rightarrow> Inl KeyError | Some v \<Rightarrow> Inr (k, v)) preimage_keys) (\<lambda>kvs.
       sha256_text (dumps_sorted (PyDict (foldl (\<lambda>d kv. dset d (fst kv) (snd kv)) [] kvs))))"



definition admits :: "py \<Rightarrow> bool res" where
  "admits vector =
     bnd (bnd (py_item vector ''signer'') (\<lambda>s. py_item s ''key_id'')) (\<lambda>k.
     bnd (bnd (bnd (py_item vector ''artifact'') (\<lambda>a. py_item a ''actor'')) (\<lambda>a. py_item a ''payment_signer'')) (\<lambda>w.
       Inr (\<not> py_eq k w)))"

definition cc_precedence :: "string list" where
  "cc_precedence = [''pii'', ''trusted_wallet'', ''policy'', ''replay'', ''mpa'']"

definition pass_verdicts :: "string \<Rightarrow> string list" where
  "pass_verdicts control =
     (if control = ''pii'' then [''CLEAN'', ''PII_REDACTED''] else if control = ''trusted_wallet'' then [''TRUSTED'']
      else if control = ''policy'' then [''ALLOW''] else if control = ''replay'' then [''FRESH''] else [])"

text \<open>The loop over the controls, which stops at the first that decides.\<close>

fun f_controls :: "py \<Rightarrow> string list \<Rightarrow> string res" where
  "f_controls controls [] = Inr ''ALLOW''"
| "f_controls controls (control # rest) =
     bnd (py_get_default controls control (PyDict [])) (\<lambda>c.
     bnd (py_get c ''verdict'') (\<lambda>v.
     if control = ''mpa'' then
       bnd (py_get c ''required'') (\<lambda>req.
         if truthy req \<and> \<not> py_eq v (S ''APPROVED'') then Inr ''REFER'' else f_controls controls rest)
     else if \<not> hashable v then Inl TypeError
     else if v \<notin> set (map S (pass_verdicts control)) then Inr ''DENY''
     else f_controls controls rest))"

definition cc_recomputes :: "py \<Rightarrow> bool res" where
  "cc_recomputes vector =
     bnd (bnd (py_item vector ''artifact'') (\<lambda>a. py_item a ''controls'')) (\<lambda>controls.
     bnd (f_controls controls cc_precedence) (\<lambda>f.
     bnd (bnd (py_item vector ''artifact'') (\<lambda>a. py_item a ''verdict'')) (\<lambda>v. Inr (py_eq (S f) v))))"

section \<open>The Ed25519 models compared\<close>

lemma sign_of_le: "length b = 32 \<Longrightarrow> uint (drop_bit 7 (b ! 31)) = int_of_le b div 2 ^ 255"
proof -
  assume "length b = 32"
  then have "int_of_le b = int_of_le b mod 2 ^ 255 + 2 ^ 255 * uint (drop_bit 7 (b ! 31))" by (rule int_of_le_split)
  moreover have "int_of_le b = int_of_le b mod 2 ^ 255 + 2 ^ 255 * (int_of_le b div 2 ^ 255)" by (metis mod_mult_div_eq)
  ultimately show ?thesis by (metis add_left_cancel mult_cancel_left power_not_zero zero_neq_numeral)
qed

text \<open>The envelope's decoder of points is that of the clean-room verifier.\<close>

lemma ce_decompress_n_decode: "ce_decompress b = n_decode b"
proof (cases "length b = 32")
  case True
  define y sg where "y = int_of_le b mod 2 ^ 255" and "sg = int_of_le b div 2 ^ 255"
  define x2 where "x2 = (y * y - 1) * powmod (ed_d * y * y + 1) (nat (ed_p - 2)) ed_p mod ed_p"
  define x where "x = powmod x2 (nat ((ed_p + 3) div 8)) ed_p"
  define x' where "x' = (if (x * x - x2) mod ed_p \<noteq> 0 then x * ed_I mod ed_p else x)"
  have l: "(length b \<noteq> 32) = False" using True by simp
  have c: "ce_decompress b = (case ce_recover_x y sg of None \<Rightarrow> None | Some x \<Rightarrow> Some (x, y, 1, x * y mod ed_p))"
    unfolding ce_decompress_def Let_def mask_255 sign_of_le [OF True] l if_False y_def sg_def ..
  show ?thesis
    unfolding c ce_recover_x_def n_decode_def Let_def l if_False y_def [symmetric] sg_def [symmetric] x2_def [symmetric] x_def [symmetric]
      x'_def [symmetric]
    by (cases "ed_p \<le> y"; cases "x2 = 0"; cases "sg = 0"; cases "(x' * x' - x2) mod ed_p = 0") simp_all
qed (simp add: ce_decompress_def n_decode_def)

lemma ref_mul_neutral: "is_neutral P \<Longrightarrow> is_neutral (ref_mul n P)"
proof -
  have "is_neutral Q \<Longrightarrow> is_neutral P \<Longrightarrow> is_neutral (ref_mul_loop Q P n)" for Q P
  proof (induction Q P n rule: ref_mul_loop.induct)
    case (1 Q P s)
    then show ?case by (subst ref_mul_loop.simps) (simp add: ed_add_neutral)
  qed
  moreover have "is_neutral ed_O" by (auto simp: is_neutral_def ed_O_def)
  ultimately show "is_neutral P \<Longrightarrow> is_neutral (ref_mul n P)" by (simp add: ref_mul_def)
qed

lemma ce_decompress_identity: "ce_decompress (1 # replicate 31 0) = Some ed_O"
proof -
  have z: "int_of_le (replicate n 0) = 0" for n by (induction n) simp_all
  have v: "int_of_le (1 # replicate 31 0) mod 2 ^ 255 = 1" by (simp add: z)
  have s: "(1 # replicate 31 0) ! 31 = (0 :: byte)" by simp
  have p: "\<not> ed_p \<le> 1" by (simp add: ed_p_def)
  have r: "ce_recover_x 1 0 = Some 0" using p by (simp add: ce_recover_x_def)
  show ?thesis unfolding ce_decompress_def Let_def mask_255 v s using r by (simp add: ed_O_def)
qed

text \<open>The envelope's verifier has no rule on weak keys: under the key that encodes the neutral point, one and the same signature verifies
  over every message, while the verifier of the suite refuses it.\<close>

lemma composed_accepts_weak_key:
  "ce_verify (1 # replicate 31 0) msg (1 # replicate 63 0) = bnd ce_B (\<lambda>B. Inr True) \<and>
   \<not> ed_verify (1 # replicate 31 0) msg (1 # replicate 63 0)"
proof
  have z: "int_of_le (replicate n 0) = 0" for n by (induction n) simp_all
  have O: "is_neutral ed_O" by (auto simp: is_neutral_def ed_O_def)
  have e: "ed_eq (ref_mul 0 B) (ed_add ed_O (ref_mul n ed_O))" for n B
  proof -
    obtain k where "ed_add ed_O (ref_mul n ed_O) = (0, k, k, 0)"
      using ed_add_neutral [OF O ref_mul_neutral [OF O]] unfolding is_neutral_def by blast
    moreover have "ref_mul 0 B = ed_O" by (simp add: ref_mul_def ref_mul_loop.simps)
    ultimately show ?thesis by (simp add: ed_eq_def ed_O_def)
  qed
  have t: "take 32 (1 # replicate 63 0) = 1 # replicate 31 (0 :: byte)" "drop 32 (1 # replicate 63 0) = replicate 32 (0 :: byte)"
    by simp_all
  have L: "(ed_L \<le> 0) = False" by (simp add: ed_L_def)
  have n: "length (1 # replicate 31 0) = 32" "length (1 # replicate 63 0) = 64" by simp_all
  show "ce_verify (1 # replicate 31 0) msg (1 # replicate 63 0) = bnd ce_B (\<lambda>B. Inr True)"
    unfolding ce_verify_def t Let_def ce_decompress_identity option.case z L nat_zero_as_int [symmetric] if_False using n e by simp
  show "\<not> ed_verify (1 # replicate 31 0) msg (1 # replicate 63 0)"
    using sample_weak by (auto simp: ed_verify_def is_small_order_key_def try_default_def Let_def split: sum.splits)
qed

section \<open>What an envelope that passes is\<close>

text \<open>The canonical writer agrees with the RFC 8785 model where integers are safe and there are no floats.\<close>

lemma ce_jcs_plain: "jcs_plain v \<Longrightarrow> ce_jcs v = jcs v"
proof (induction v)
  case (PyDict d)
  then have "map (\<lambda>kv. (fst kv, ce_jcs (snd kv))) d = map (\<lambda>kv. (fst kv, jcs (snd kv))) d"
    by (auto simp: list_all_iff snds.simps)
  then show ?case by (simp only: ce_jcs.simps jcs.simps)
next
  case (PyList xs)
  then have "map_r ce_jcs xs = map_r jcs xs" by (intro map_r_cong) (auto simp: list_all_iff)
  then show ?case by simp
qed (auto simp: js_number_def)

definition canonical_payload :: "bytes \<Rightarrow> bool" where
  "canonical_payload b \<longleftrightarrow> (\<exists>s v t. utf8_decode False b = Inr s \<and> json_loads s = Inr v \<and> ce_jcs v = Inr t \<and> utf8 t = Inr b)"

lemma payload_canonical_iff: "payload_canonical b = Inr True \<longleftrightarrow> canonical_payload b"
proof -
  define r where "r = bnd (bnd (utf8_decode False b) json_loads) (\<lambda>v. bnd (ce_jcs v) utf8)"
  have "payload_canonical b = Inr True \<longleftrightarrow> r = Inr b"
    unfolding payload_canonical_def r_def [symmetric] by (cases r) auto
  also have "\<dots> \<longleftrightarrow> canonical_payload b" unfolding r_def canonical_payload_def bnd_eq_Inr by blast
  finally show ?thesis .
qed

text \<open>A signature whose header names EdDSA and a key of the directory under which it verifies over header and payload.\<close>

definition signed_by :: "jwks \<Rightarrow> ustr \<Rightarrow> py \<Rightarrow> bool" where
  "signed_by keys payload sg \<longleftrightarrow>
     (\<exists>p hb prot kid pk origin m s. py_item sg ''protected'' = Inr (PyStr p) \<and> ce_b64u_decode (PyStr p) = Inr hb \<and>
        json_loads_bytes hb = Inr prot \<and> py_get prot ''kid'' = Inr kid \<and> py_get prot ''alg'' = Inr (S ''EdDSA'') \<and>
        ascii_encode (p @ [46] @ payload) = Inr m \<and> key_of keys kid = Inr (Some (pk, origin)) \<and>
        bnd (py_item sg ''signature'') ce_b64u_decode = Inr s \<and> ce_verify pk m s = Inr True)"

lemma decode_text: "ce_b64u_decode v = Inr b \<Longrightarrow> \<exists>s. v = PyStr s"
  by (cases v) (auto simp: ce_b64u_decode_def as_str_def)

lemma signature_check_iff: "signature_check keys payload sg = Inr True \<longleftrightarrow> signed_by keys payload sg"
proof
  assume "signature_check keys payload sg = Inr True"
  then obtain pv hb prot kid alg p m found where h: "py_item sg ''protected'' = Inr pv" "ce_b64u_decode pv = Inr hb" "json_loads_bytes hb = Inr prot"
    "py_get prot ''kid'' = Inr kid" "py_get prot ''alg'' = Inr alg" "as_str TypeError pv = Inr p" and m: "ascii_encode (p @ [46] @ payload) = Inr m"
    and r: "py_eq alg (S ''EdDSA'')" "key_of keys kid = Inr found"
      "(case found of None \<Rightarrow> Inr False | Some (pk, origin) \<Rightarrow> bnd (bnd (py_item sg ''signature'') ce_b64u_decode) (\<lambda>s. ce_verify pk m s)) = Inr True"
    unfolding signature_check_def bnd_eq_Inr by (elim exE conjE) (auto simp only: bnd_eq_Inr sum.inject split: if_splits)
  have p: "pv = PyStr p" using decode_text [OF h(2)] h(6) by (auto simp: as_str_def)
  have a: "alg = S ''EdDSA''" using r(1) by (simp add: py_eq_Str_right)
  obtain pk origin s where "found = Some (pk, origin)" "bnd (py_item sg ''signature'') ce_b64u_decode = Inr s" "ce_verify pk m s = Inr True"
    using r(3) unfolding bnd_eq_Inr by (cases found) (simp, force)
  then show "signed_by keys payload sg" unfolding signed_by_def using h(1-5) p m a r(2) by blast
next
  assume "signed_by keys payload sg"
  then show "signature_check keys payload sg = Inr True"
    unfolding signed_by_def by (elim exE conjE) (auto simp: signature_check_def as_str_def)
qed

definition sound_envelope :: "(ustr \<times> py) list \<Rightarrow> py \<Rightarrow> ustr \<Rightarrow> bool" where
  "sound_envelope directory env h \<longleftrightarrow>
     (\<exists>payload b keys sigs. py_item env ''payload'' = Inr (PyStr payload) \<and> ce_b64u_decode (PyStr payload) = Inr b \<and> h = sha256_hex b \<and>
        canonical_payload b \<and> load_jwks directory = Inr keys \<and> bnd (py_item env ''signatures'') py_iter = Inr sigs \<and>
        list_all (signed_by keys payload) sigs)"

lemma map_r_all_True: "map_r f xs = Inr oks \<Longrightarrow> list_all id oks \<longleftrightarrow> list_all (\<lambda>x. f x = Inr True) xs"
  by (induction xs arbitrary: oks) auto

lemma map_r_True: "list_all (\<lambda>x. f x = Inr True) xs \<Longrightarrow> map_r f xs = Inr (replicate (length xs) True)"
  by (induction xs) auto

text \<open>C26. An envelope passes, with the digest of its payload, exactly when the payload is its own canonical form and every signature it
  carries verifies under the published key its header names. No number of signatures is asked for.\<close>

theorem envelope_passes_iff: "envelope_check directory env False = Inr h \<longleftrightarrow> sound_envelope directory env h"
proof
  assume "envelope_check directory env False = Inr h"
  then have "envelope_verdict directory env = Inr (True, h)" by (auto simp: envelope_check_def split: if_splits)
  then obtain pv b payload keys sigs oks where e: "py_item env ''payload'' = Inr pv" "ce_b64u_decode pv = Inr b" "as_str TypeError pv = Inr payload"
    "payload_canonical b = Inr True" "load_jwks directory = Inr keys" "bnd (py_item env ''signatures'') py_iter = Inr sigs"
    "map_r (signature_check keys payload) sigs = Inr oks" "list_all id oks" "h = sha256_hex b"
    unfolding envelope_verdict_def bnd_eq_Inr by auto
  have pv: "pv = PyStr payload" using e(2,3) decode_text [OF e(2)] by (auto simp: as_str_def)
  have "list_all (signed_by keys payload) sigs" using map_r_all_True [OF e(7)] e(8) by (simp add: signature_check_iff)
  then show "sound_envelope directory env h"
    unfolding sound_envelope_def using e(1,2,5,6,9) e(4) [unfolded payload_canonical_iff] pv by blast
next
  assume "sound_envelope directory env h"
  then obtain payload b keys sigs where e: "py_item env ''payload'' = Inr (PyStr payload)" "ce_b64u_decode (PyStr payload) = Inr b" "h = sha256_hex b"
    "payload_canonical b = Inr True" "load_jwks directory = Inr keys" "bnd (py_item env ''signatures'') py_iter = Inr sigs"
    "list_all (\<lambda>s. signature_check keys payload s = Inr True) sigs"
    unfolding sound_envelope_def signature_check_iff payload_canonical_iff by blast
  have t: "as_str TypeError (PyStr payload) = Inr payload" by (simp add: as_str_def)
  show "envelope_check directory env False = Inr h"
    unfolding envelope_check_def envelope_verdict_def e(1,2,4,5,6) bnd_Inr t map_r_True [OF e(7)] using e(3) by (simp add: list_all_iff)
qed

text \<open>So an envelope that nobody has signed passes.\<close>

lemma unsigned_envelope_passes:
  "envelope_check [] (PyDict [(U ''payload'', S ''bnVsbA''), (U ''signatures'', PyList [])]) False = Inr (sha256_hex [110, 117, 108, 108])"
proof -
  have b: "ce_b64u_decode (S ''bnVsbA'') = Inr [110, 117, 108, 108]"
    by (simp add: ce_b64u_decode_def as_str_def urlsafe_b64decode_def b64_value_def U_Cons numeral_2_eq_2)
  have u: "utf8_total (U ''null'') = [110, 117, 108, 108]" "scalar_str (U ''null'')"
    by (simp_all add: utf8_total_def utf8_char_def U_Cons)
  have "json_loads (U ''null'') = Inr PyNone" using json_roundtrip [of PyNone] by simp
  then have "canonical_payload (utf8_total (U ''null''))"
    unfolding canonical_payload_def using utf8_decode_total [OF u(2)] u(2) by (auto simp: utf8_def)
  then have c: "payload_canonical [110, 117, 108, 108] = Inr True" by (simp only: u payload_canonical_iff)
  have k: "load_jwks [] = Inr []" by (simp add: load_jwks_def)
  show ?thesis
    by (simp add: envelope_check_def envelope_verdict_def b c k as_str_def py_iter_def)
qed

section \<open>Forks and verdicts\<close>




text \<open>What the controls of a decision decide.\<close>

definition control_verdict :: "pydict \<Rightarrow> string \<Rightarrow> py" where
  "control_verdict cs k = (case dget_default cs k (PyDict []) of PyDict c \<Rightarrow> dget c ''verdict'' | _ \<Rightarrow> PyNone)"

definition control_formed :: "pydict \<Rightarrow> string \<Rightarrow> bool" where
  "control_formed cs k \<longleftrightarrow> is_dict (dget_default cs k (PyDict [])) \<and> hashable (control_verdict cs k)"

definition control_passes :: "pydict \<Rightarrow> string \<Rightarrow> bool" where
  "control_passes cs k \<longleftrightarrow> control_verdict cs k \<in> set (map S (pass_verdicts k))"

definition approval_open :: "pydict \<Rightarrow> bool" where
  "approval_open cs \<longleftrightarrow>
     (case dget_default cs ''mpa'' (PyDict []) of
        PyDict c \<Rightarrow> truthy (dget c ''required'') \<and> \<not> py_eq (dget c ''verdict'') (S ''APPROVED'') | _ \<Rightarrow> False)"

text \<open>A decision is denied when one of the four controls does not pass, referred when all pass and a required approval is open, and allowed otherwise.\<close>

definition decided :: "pydict \<Rightarrow> string" where
  "decided cs =
     (if \<not> list_all (control_passes cs) [''pii'', ''trusted_wallet'', ''policy'', ''replay''] then ''DENY''
      else if approval_open cs then ''REFER'' else ''ALLOW'')"

lemma f_controls_step:
  assumes "control_formed cs k" "k \<noteq> ''mpa''"
  shows "f_controls (PyDict cs) (k # ks) = (if control_passes cs k then f_controls (PyDict cs) ks else Inr ''DENY'')"
proof -
  obtain c where c: "dget_default cs k (PyDict []) = PyDict c"
    using assms(1) unfolding control_formed_def by (cases "dget_default cs k (PyDict [])") auto
  have "control_verdict cs k = dget c ''verdict''" by (simp add: control_verdict_def c)
  then show ?thesis using assms unfolding control_formed_def control_passes_def by (simp add: c)
qed

lemma f_controls_decided:
  assumes "list_all (control_formed cs) cc_precedence"
  shows "f_controls (PyDict cs) cc_precedence = Inr (decided cs)"
proof -
  have f: "control_formed cs ''pii''" "control_formed cs ''trusted_wallet''" "control_formed cs ''policy''" "control_formed cs ''replay''"
    "control_formed cs ''mpa''" using assms by (simp_all add: cc_precedence_def)
  obtain c where c: "dget_default cs ''mpa'' (PyDict []) = PyDict c"
    using f(5) unfolding control_formed_def by (cases "dget_default cs ''mpa'' (PyDict [])") auto
  have m: "f_controls (PyDict cs) [''mpa''] = Inr (if approval_open cs then ''REFER'' else ''ALLOW'')"
    by (simp add: c approval_open_def)
  show ?thesis
    unfolding cc_precedence_def decided_def list.pred_inject
    by (simp add: f_controls_step f(1-4) m del: f_controls.simps)
qed

text \<open>A decision recomputes exactly when the verdict it records is the one its controls decide.\<close>

lemma cc_recomputes_iff:
  assumes "py_item vector ''artifact'' = Inr a" "py_item a ''controls'' = Inr (PyDict cs)" "py_item a ''verdict'' = Inr v"
    "list_all (control_formed cs) cc_precedence"
  shows "cc_recomputes vector = Inr (v = S (decided cs))"
  unfolding cc_recomputes_def assms(1,2,3) bnd_Inr f_controls_decided [OF assms(4)] by (simp add: py_eq_Str_left)

end
