(* ===== verification/Attestation.thy ===== *)
theory Attestation
  imports "HOL-Library.Multiset" Chains Bip340
begin

text \<open>
  \<^verbatim>\<open>examples/erc-8337-attestation-refs/check_attestation_refs.py\<close>: the references of a state transition to signed verdicts. The raw references
  are made canonical, the event behind each is checked for its id and signature, the decision reference is recomputed from the content
  of the event, and the key a reference names is looked up in the policy of the consumer. The lines printed are values of a datatype.
  The four demonstrations on the committed fixture at the end of the script are left out.
\<close>

section \<open>Canonical references\<close>

fun ar_jcs :: "py \<Rightarrow> ustr" where
  "ar_jcs PyNone = U ''null''"
| "ar_jcs (PyBool b) = (if b then U ''true'' else U ''false'')"
| "ar_jcs (PyStr s) = json_str False s"
| "ar_jcs (PyInt i) = int_dec i"
| "ar_jcs (PyFloat f) = json_float f"
| "ar_jcs (PyList xs) = [91] @ join [44] (map ar_jcs xs) @ [93]"
| "ar_jcs (PyDict d) =
     [123] @ join [44] (map (\<lambda>kx. json_str False (fst kx) @ [58] @ snd kx) (sort_key fst (map (\<lambda>kv. (fst kv, ar_jcs (snd kv))) d))) @ [125]"

text \<open>The prefixes are tried one after the other, on what the one before has left.\<close>

definition without_prefix :: "ustr \<Rightarrow> ustr \<Rightarrow> ustr" where
  "without_prefix p s = (if startswith s p then drop (length p) s else s)"

definition hex_only :: "ucd \<Rightarrow> ustr \<Rightarrow> ustr" where
  "hex_only u decision_ref = without_prefix (U ''sha256:'') (without_prefix (U ''0x'') (u_lower u decision_ref))"

text \<open>The table of the references seen, keyed by event and key.\<close>

type_synonym seen_refs = "((py \<times> py) \<times> py) list"

definition canonical_entry :: "py \<Rightarrow> py \<Rightarrow> py \<Rightarrow> py \<Rightarrow> py" where
  "canonical_entry scheme decision_ref event_id pubkey =
     PyDict [(U ''scheme'', scheme), (U ''decision_ref'', decision_ref), (U ''event_id'', event_id), (U ''pubkey'', pubkey)]"

definition was_seen :: "seen_refs \<Rightarrow> py \<Rightarrow> py \<Rightarrow> bool" where
  "was_seen seen e p \<longleftrightarrow> list_ex (\<lambda>kv. py_eq e (fst (fst kv)) \<and> py_eq p (snd (fst kv))) seen"

definition ref_step :: "seen_refs \<Rightarrow> py \<Rightarrow> seen_refs res" where
  "ref_step seen ref =
     bnd (py_item ref ''event_id'') (\<lambda>e.
     bnd (py_item ref ''pubkey'') (\<lambda>p.
     if \<not> (hashable e \<and> hashable p) then Inl TypeError
     else if was_seen seen e p then Inr seen
     else
       bnd (py_item ref ''scheme'') (\<lambda>s.
       bnd (py_item ref ''decision_ref'') (\<lambda>d. Inr (seen @ [((e, p), canonical_entry s d e p)])))))"

definition entry_key :: "ucd \<Rightarrow> py \<Rightarrow> (ustr \<times> py) res" where
  "entry_key u e = bnd (bnd (py_item e ''decision_ref'') (as_str AttributeError)) (\<lambda>s. Inr (hex_only u s, e))"

definition canonicalize :: "ucd \<Rightarrow> py list \<Rightarrow> py list res" where
  "canonicalize u raw_refs =
     bnd (fold_r ref_step [] raw_refs) (\<lambda>seen.
     bnd (map_r (entry_key u) (map snd seen)) (\<lambda>keyed. Inr (map snd (sort_key fst keyed))))"

section \<open>Events, decisions and authority\<close>

definition verify_signature :: "ucd \<Rightarrow> py \<Rightarrow> bool res" where
  "verify_signature u event =
     bnd (nostr_event_id u event) (\<lambda>h.
     bnd (py_get event ''id'') (\<lambda>i.
     if \<not> py_eq (PyStr h) i then Inr False
     else
       (case bnd (bnd (py_item event ''id'') py_fromhex) (\<lambda>m.
             bnd (bnd (py_item event ''pubkey'') py_fromhex) (\<lambda>pk.
             bnd (bnd (py_item event ''sig'') py_fromhex) (\<lambda>sg. Inr (schnorr_verify m pk sg)))) of
          Inl e \<Rightarrow> if is_value_error e \<or> e = KeyError then Inr False else Inl e
        | Inr b \<Rightarrow> Inr b)))"

definition decision_fields :: "string list" where
  "decision_fields = [''artifact_hash'', ''artifact_type'', ''policy_version'', ''verdict'', ''source_class'', ''vantage_limitation'']"

definition recompute_decision_ref :: "py \<Rightarrow> ustr res" where
  "recompute_decision_ref content =
     bnd (bnd (as_str TypeError content) json_loads) (\<lambda>obj.
     bnd (map_r (\<lambda>k. bnd (py_get obj k) (\<lambda>v. Inr (U k, v))) decision_fields) (\<lambda>d.
       sha256_text (ar_jcs (PyDict d))))"

datatype authority = StructurallyInvalid | ZeroAuthority | ValidAndAuthorized

definition policy_grants :: "pydict \<Rightarrow> ustr \<Rightarrow> bool" where
  "policy_grants policy pk =
     (let a = (case map_of policy pk of None \<Rightarrow> S ''none'' | Some v \<Rightarrow> v) in truthy a \<and> \<not> py_eq a (S ''none''))"

definition classify_authority :: "ucd \<Rightarrow> py \<Rightarrow> pydict \<Rightarrow> bool \<Rightarrow> authority res" where
  "classify_authority u pubkey policy sig_valid =
     (if \<not> sig_valid then Inr StructurallyInvalid
      else bnd (as_str AttributeError pubkey) (\<lambda>s. Inr (if policy_grants policy (u_lower u s) then ValidAndAuthorized else ZeroAuthority)))"

section \<open>The check of a fixture\<close>

definition events_by_id :: "py \<Rightarrow> (py \<times> py) list res" where
  "events_by_id fixture =
     bnd (bnd (py_item fixture ''events'') py_iter) (\<lambda>es.
       map_r (\<lambda>e. bnd (py_item e ''id'') (\<lambda>i. if hashable i then Inr (i, e) else Inl TypeError)) es)"

datatype ar_line =
    NoRefs py
  | Canonical py bool nat nat
  | EventMissing py
  | EntryChecked py bool bool authority

definition check_entry :: "ucd \<Rightarrow> (py \<times> py) list \<Rightarrow> pydict \<Rightarrow> py \<Rightarrow> (bool \<times> ar_line) res" where
  "check_entry u events policy entry =
     bnd (py_item entry ''event_id'') (\<lambda>eid.
     bnd (key_lookup events eid) (\<lambda>found.
     case found of
       None \<Rightarrow> bnd (py_sliceable eid) (\<lambda>_. Inr (False, EventMissing eid))
     | Some ev \<Rightarrow>
         bnd (verify_signature u ev) (\<lambda>sig_valid.
         bnd (bnd (py_item ev ''content'') recompute_decision_ref) (\<lambda>h.
         bnd (bnd (py_item entry ''decision_ref'') (as_str AttributeError)) (\<lambda>d.
         let dref_matches = (h = hex_only u d) in
         bnd (py_item entry ''pubkey'') (\<lambda>pk.
         bnd (classify_authority u pk policy sig_valid) (\<lambda>a.
         bnd (py_sliceable eid) (\<lambda>_. Inr (sig_valid \<and> dref_matches, EntryChecked eid sig_valid dref_matches a)))))))))"

definition entry_step :: "ucd \<Rightarrow> (py \<times> py) list \<Rightarrow> pydict \<Rightarrow> bool \<times> ar_line list \<Rightarrow> py \<Rightarrow> (bool \<times> ar_line list) res" where
  "entry_step u events policy st entry =
     bnd (check_entry u events policy entry) (\<lambda>(b, l). Inr (fst st \<and> b, snd st @ [l]))"

definition transition_step :: "ucd \<Rightarrow> (py \<times> py) list \<Rightarrow> pydict \<Rightarrow> bool \<times> ar_line list \<Rightarrow> py \<Rightarrow> (bool \<times> ar_line list) res" where
  "transition_step u events policy st t =
     bnd (bnd (py_item t ''delta'') (\<lambda>d. py_item d ''sequence'')) (\<lambda>sq.
     bnd (py_item t ''witness'') (\<lambda>w.
     bnd (py_get w ''attestation_refs_raw_input'') (\<lambda>raw.
     bnd (py_get w ''attestation_refs_canonical'') (\<lambda>expected.
     if raw = PyNone then Inr (fst st, snd st @ [NoRefs sq])
     else
       bnd (py_iter raw) (\<lambda>rs.
       bnd (canonicalize u rs) (\<lambda>cs.
       let m = py_eq (PyList cs) expected in
       fold_r (entry_step u events policy) (fst st \<and> m, snd st @ [Canonical sq m (length rs) (length cs)]) cs))))))"

definition check_positive :: "ucd \<Rightarrow> py \<Rightarrow> pydict \<Rightarrow> (bool \<times> ar_line list) res" where
  "check_positive u fixture policy =
     bnd (events_by_id fixture) (\<lambda>events.
     bnd (bnd (py_item fixture ''transitions'') py_iter) (\<lambda>ts. fold_r (transition_step u events policy) (True, []) ts))"

text \<open>The policy that \<^verbatim>\<open>main\<close> reads from the key file.\<close>

definition trust_policy :: "ucd \<Rightarrow> py \<Rightarrow> pydict res" where
  "trust_policy u keys =
     bnd (bnd (py_item keys ''verifiers'') py_iter) (\<lambda>vs.
       fold_r (\<lambda>d v.
         bnd (bnd (py_item v ''pubkey'') (as_str AttributeError)) (\<lambda>pk.
         bnd (py_item v ''authority'') (\<lambda>a. Inr (dset d (u_lower u pk) a)))) [] vs)"

section \<open>The canonical form\<close>

lemma ar_jcs_dumps: "ar_jcs v = dumps_sorted v"
proof (induction v)
  case (PyDict d)
  then have "map (\<lambda>kv. (fst kv, ar_jcs (snd kv))) d = map (\<lambda>kv. (fst kv, dumps_sorted (snd kv))) d"
    by (auto simp: snds.simps)
  then show ?case by (simp only: ar_jcs.simps json_dumps.simps if_True)
next
  case (PyList xs)
  then have "map ar_jcs xs = map dumps_sorted xs" by simp
  then show ?case by (simp only: ar_jcs.simps json_dumps.simps)
qed simp_all

section \<open>References as an unordered set\<close>

definition ref_text :: "string \<Rightarrow> py \<Rightarrow> ustr" where
  "ref_text k x = (case py_item x k of Inr (PyStr s) \<Rightarrow> s | _ \<Rightarrow> [])"

definition ref_scheme :: "py \<Rightarrow> py" where
  "ref_scheme x = (case py_item x ''scheme'' of Inr v \<Rightarrow> v | Inl _ \<Rightarrow> PyNone)"

definition plain_ref :: "py \<Rightarrow> bool" where
  "plain_ref x \<longleftrightarrow>
     py_item x ''scheme'' = Inr (ref_scheme x) \<and>
     list_all (\<lambda>k. py_item x k = Inr (PyStr (ref_text k x))) [''decision_ref'', ''event_id'', ''pubkey'']"

definition ref_ident :: "py \<Rightarrow> ustr \<times> ustr" where
  "ref_ident x = (ref_text ''event_id'' x, ref_text ''pubkey'' x)"

definition ref_entry :: "py \<Rightarrow> py" where
  "ref_entry x =
     canonical_entry (ref_scheme x) (PyStr (ref_text ''decision_ref'' x)) (PyStr (ref_text ''event_id'' x)) (PyStr (ref_text ''pubkey'' x))"

definition ref_key :: "ucd \<Rightarrow> py \<Rightarrow> ustr" where
  "ref_key u x = hex_only u (ref_text ''decision_ref'' x)"


fun firsts :: "py list \<Rightarrow> py list \<Rightarrow> py list" where
  "firsts ys [] = ys"
| "firsts ys (x # xs) = firsts (if ref_ident x \<in> ref_ident ` set ys then ys else ys @ [x]) xs"



lemma ref_steps:
  assumes "list_all plain_ref xs"
  shows "fold_r ref_step (map (\<lambda>y. ((PyStr (fst (ref_ident y)), PyStr (snd (ref_ident y))), ref_entry y)) ys) xs =
    Inr (map (\<lambda>y. ((PyStr (fst (ref_ident y)), PyStr (snd (ref_ident y))), ref_entry y)) (firsts ys xs))"
  using assms
proof (induction xs arbitrary: ys)
  case (Cons x xs)
  let ?tag = "\<lambda>y. ((PyStr (fst (ref_ident y)), PyStr (snd (ref_ident y))), ref_entry y)"
  have i: "py_item x ''scheme'' = Inr (ref_scheme x)" "py_item x ''decision_ref'' = Inr (PyStr (ref_text ''decision_ref'' x))"
    "py_item x ''event_id'' = Inr (PyStr (ref_text ''event_id'' x))" "py_item x ''pubkey'' = Inr (PyStr (ref_text ''pubkey'' x))"
    using Cons.prems by (simp_all add: plain_ref_def)
  have w: "was_seen (map ?tag ys) (PyStr (ref_text ''event_id'' x)) (PyStr (ref_text ''pubkey'' x)) \<longleftrightarrow> ref_ident x \<in> ref_ident ` set ys"
    by (auto simp: was_seen_def list_ex_iff ref_ident_def)
  have "ref_step (map ?tag ys) x = Inr (map ?tag (if ref_ident x \<in> ref_ident ` set ys then ys else ys @ [x]))"
    unfolding ref_step_def i bnd_Inr w by (simp add: ref_entry_def ref_ident_def)
  then show ?case using Cons.IH Cons.prems by simp
qed simp

lemma ref_entry_key: "entry_key u (ref_entry x) = Inr (ref_key u x, ref_entry x)"
  by (simp add: entry_key_def ref_entry_def canonical_entry_def ref_key_def as_str_def)

lemma canonicalize_plain:
  "list_all plain_ref xs \<Longrightarrow>
   canonicalize u xs = Inr (map snd (sort_key fst (map (\<lambda>x. (ref_key u x, ref_entry x)) (firsts [] xs))))"
proof -
  assume p: "list_all plain_ref xs"
  have k: "map_r (entry_key u) (map ref_entry ys) = Inr (map (\<lambda>x. (ref_key u x, ref_entry x)) ys)" for ys
    by (induction ys) (simp_all add: ref_entry_key)
  show ?thesis
    using ref_steps [OF p, of "[]"] k [of "firsts [] xs"] by (simp add: canonicalize_def comp_def)
qed




definition sample_ref :: "string \<Rightarrow> string \<Rightarrow> py" where
  "sample_ref d e = PyDict [(U ''scheme'', S ''wyriwe/l4-v0''), (U ''decision_ref'', S d), (U ''event_id'', S e), (U ''pubkey'', S ''8f''), (U ''verify_url'', S ''x'')]"


text \<open>Two verdicts on one artifact by two events have one decision reference, which leaves their order to the input: the canonical list
  then depends on it.\<close>

lemma canonical_order_follows_input:
  "canonicalize sample_ucd [sample_ref ''0x01'' ''a'', sample_ref ''0x01'' ''b''] \<noteq>
   canonicalize sample_ucd [sample_ref ''0x01'' ''b'', sample_ref ''0x01'' ''a'']"
proof -
  have "list_all plain_ref [sample_ref ''0x01'' x, sample_ref ''0x01'' y]" for x y
    by (simp add: plain_ref_def sample_ref_def ref_text_def ref_scheme_def)
  note c = canonicalize_plain [OF this]
  have k: "ref_key sample_ucd (sample_ref ''0x01'' x) = ref_key sample_ucd (sample_ref ''0x01'' y)" for x y
    by (simp add: ref_key_def sample_ref_def ref_text_def)
  have i: "ref_ident (sample_ref ''0x01'' x) = (U x, U ''8f'')" for x by (simp add: ref_ident_def sample_ref_def ref_text_def)
  have e: "ref_entry (sample_ref ''0x01'' ''a'') \<noteq> ref_entry (sample_ref ''0x01'' ''b'')"
    by (simp add: ref_entry_def canonical_entry_def sample_ref_def ref_text_def)
  show ?thesis unfolding c using e k [of "''a''" "''b''"] by (simp add: i)
qed

section \<open>What makes an entry authorized\<close>

definition authentic_event :: "ucd \<Rightarrow> py \<Rightarrow> bool" where
  "authentic_event u ev \<longleftrightarrow>
     (\<exists>h m p pk s sg. nostr_event_id u ev = Inr h \<and> py_item ev ''id'' = Inr (PyStr h) \<and> fromhex h = Inr m \<and>
        py_item ev ''pubkey'' = Inr (PyStr p) \<and> fromhex p = Inr pk \<and> py_item ev ''sig'' = Inr (PyStr s) \<and> fromhex s = Inr sg \<and>
        schnorr_verify m pk sg)"

lemma py_get_text: "py_get v k = Inr (PyStr s) \<longleftrightarrow> py_item v k = Inr (PyStr s)"
  by (cases v) (auto simp: py_get_def dget_default_def split: option.splits)

lemma verify_signature_iff: "verify_signature u ev = Inr True \<longleftrightarrow> authentic_event u ev"
proof
  assume "verify_signature u ev = Inr True"
  then obtain h i where h: "nostr_event_id u ev = Inr h" "py_get ev ''id'' = Inr i" "py_eq (PyStr h) i"
    by (auto simp: verify_signature_def split: if_splits)
  then have i: "i = PyStr h" by (simp add: py_eq_Str_left)
  with h have "py_item ev ''id'' = Inr (PyStr h)" by (simp add: py_get_text)
  with \<open>verify_signature u ev = Inr True\<close> h i show "authentic_event u ev"
    by (auto simp: verify_signature_def authentic_event_def py_fromhex_def split: sum.splits if_splits)
next
  assume "authentic_event u ev"
  then obtain h m p pk s sg where h: "nostr_event_id u ev = Inr h" "py_item ev ''id'' = Inr (PyStr h)" "fromhex h = Inr m"
    "py_item ev ''pubkey'' = Inr (PyStr p)" "fromhex p = Inr pk" "py_item ev ''sig'' = Inr (PyStr s)" "fromhex s = Inr sg" "schnorr_verify m pk sg"
    unfolding authentic_event_def by blast
  then have "py_get ev ''id'' = Inr (PyStr h)" by (simp add: py_get_text)
  with h show "verify_signature u ev = Inr True" by (simp add: verify_signature_def py_fromhex_def as_str_def)
qed

definition event_attests :: "ucd \<Rightarrow> (py \<times> py) list \<Rightarrow> py \<Rightarrow> py \<Rightarrow> bool" where
  "event_attests u events i d \<longleftrightarrow>
     (\<exists>ev c s. is_str i \<and> key_lookup events i = Inr (Some ev) \<and> authentic_event u ev \<and> py_item ev ''content'' = Inr c \<and>
        d = PyStr s \<and> recompute_decision_ref c = Inr (hex_only u s))"

text \<open>C28. An entry is reported authorized exactly when the event it names is authentic and recomputes to its decision reference, and the
  consumer's policy grants the key the entry names. The first part does not mention that key: nothing relates it to the key
  that signed the event.\<close>

theorem entry_authorized_iff:
  "check_entry u events policy (canonical_entry s d i (PyStr pk)) = Inr (True, EntryChecked i True True ValidAndAuthorized) \<longleftrightarrow>
   event_attests u events i d \<and> policy_grants policy (u_lower u pk)"
proof
  assume "check_entry u events policy (canonical_entry s d i (PyStr pk)) = Inr (True, EntryChecked i True True ValidAndAuthorized)"
  then show "event_attests u events i d \<and> policy_grants policy (u_lower u pk)"
    by (cases i) (auto simp: check_entry_def canonical_entry_def event_attests_def verify_signature_iff [symmetric] classify_authority_def as_str_def
        py_sliceable_def key_lookup_def Let_def split: option.splits if_splits py.splits)
next
  assume "event_attests u events i d \<and> policy_grants policy (u_lower u pk)"
  then show "check_entry u events policy (canonical_entry s d i (PyStr pk)) = Inr (True, EntryChecked i True True ValidAndAuthorized)"
    by (auto simp: check_entry_def canonical_entry_def event_attests_def verify_signature_iff [symmetric] classify_authority_def as_str_def
        py_sliceable_def Let_def)
qed

section \<open>The verdict of a fixture\<close>

fun line_passes :: "ar_line \<Rightarrow> bool" where
  "line_passes (NoRefs _) = True"
| "line_passes (Canonical _ m _ _) = m"
| "line_passes (EventMissing _) = False"
| "line_passes (EntryChecked _ s d _) = (s \<and> d)"

lemma check_entry_line: "check_entry u events policy e = Inr (b, l) \<Longrightarrow> b = line_passes l"
  by (auto simp: check_entry_def Let_def split: option.splits)

definition verdict_of_lines :: "bool \<times> ar_line list \<Rightarrow> bool" where
  "verdict_of_lines st \<longleftrightarrow> fst st = list_all line_passes (snd st)"

lemma fold_r_invariant:
  assumes "\<And>s x s'. P s \<Longrightarrow> f s x = Inr s' \<Longrightarrow> P s'"
  shows "P s \<Longrightarrow> fold_r f s xs = Inr s' \<Longrightarrow> P s'"
  by (induction xs arbitrary: s) (auto intro: assms)

lemma entry_step_lines: "verdict_of_lines st \<Longrightarrow> entry_step u events policy st e = Inr st' \<Longrightarrow> verdict_of_lines st'"
  by (auto simp: entry_step_def verdict_of_lines_def dest!: check_entry_line)

lemma entry_steps_lines: "verdict_of_lines st \<Longrightarrow> fold_r (entry_step u events policy) st es = Inr st' \<Longrightarrow> verdict_of_lines st'"
  by (rule fold_r_invariant [of verdict_of_lines]) (rule entry_step_lines)

lemma transition_step_lines:
  assumes "verdict_of_lines st" "transition_step u events policy st t = Inr st'"
  shows "verdict_of_lines st'"
proof -
  have s: "verdict_of_lines (fst st, snd st @ [NoRefs n])" "verdict_of_lines (fst st \<and> m, snd st @ [Canonical n m i j])" for n m i j
    using assms(1) by (auto simp: verdict_of_lines_def)
  from assms(2) consider n where "st' = (fst st, snd st @ [NoRefs n])"
    | n m i j cs where "fold_r (entry_step u events policy) (fst st \<and> m, snd st @ [Canonical n m i j]) cs = Inr st'"
    by (auto simp: transition_step_def Let_def split: if_splits)
  then show ?thesis using s(1) entry_steps_lines [OF s(2)] by cases simp_all
qed

text \<open>The verdict is that of its lines: it passes exactly when no line of the report fails.\<close>

lemma check_positive_lines: "check_positive u fixture policy = Inr (b, lines) \<Longrightarrow> b = list_all line_passes lines"
proof -
  assume "check_positive u fixture policy = Inr (b, lines)"
  then obtain events ts where "fold_r (transition_step u events policy) (True, []) ts = Inr (b, lines)" by (auto simp: check_positive_def)
  moreover have "verdict_of_lines (True, [])" by (simp add: verdict_of_lines_def)
  ultimately have "verdict_of_lines (b, lines)" using fold_r_invariant [of verdict_of_lines] transition_step_lines by blast
  then show ?thesis by (simp add: verdict_of_lines_def)
qed

end
