(* ===== verification/Resolution.thy ===== *)
theory Resolution
  imports Jcs Bip340
begin

text \<open>
  \<^verbatim>\<open>examples/resolution-payment-pair-v0/check.py\<close>: did a payment execute under the authority of a verdict? \<^verbatim>\<open>evaluate\<close> checks from bytes that the
  verdict covers the payment, that the payment carries the verdict as its nonce, and that the arguments committed the policy. Modelled is
  the checker itself; the wrong checkers it can be run as, the network re-read and the comparison with the vectors are left out.
\<close>

section \<open>Reading the receipt\<close>

text \<open>\<^verbatim>\<open>int(s, 16)\<close>: white space, a sign and a prefix may stand in front, and single underscores between digits.\<close>

definition hex_any :: "ucd \<Rightarrow> nat \<Rightarrow> nat option" where
  "hex_any u c = (case hex_value c of Some v \<Rightarrow> Some v | None \<Rightarrow> u_digit u c)"

fun hex_digits :: "ucd \<Rightarrow> nat \<Rightarrow> bool \<Rightarrow> ustr \<Rightarrow> nat option" where
  "hex_digits u acc prev [] = (if prev then Some acc else None)"
| "hex_digits u acc prev (c # s) =
     (if c = 95 then (if prev then hex_digits u acc False s else None)
      else case hex_any u c of None \<Rightarrow> None | Some d \<Rightarrow> hex_digits u (16 * acc + d) True s)"

definition int16 :: "ucd \<Rightarrow> py \<Rightarrow> int res" where
  "int16 u v =
     bnd (as_str TypeError v) (\<lambda>s.
       let t = strip u s;
           neg = (t \<noteq> [] \<and> hd t = 45);
           t1 = (if t \<noteq> [] \<and> (hd t = 45 \<or> hd t = 43) then tl t else t);
           pre = (startswith t1 (U ''0x'') \<or> startswith t1 (U ''0X''));
           t2 = (if pre then drop 2 t1 else t1);
           ds = (if pre \<and> t2 \<noteq> [] \<and> hd t2 = 95 then tl t2 else t2)
       in case hex_digits u 0 False ds of None \<Rightarrow> Inl ValueError | Some n \<Rightarrow> Inr (if neg then - int n else int n))"

text \<open>\<^verbatim>\<open>v[i]\<close> and \<^verbatim>\<open>len(v)\<close> for a value, with a small index.\<close>

definition py_nth :: "py \<Rightarrow> nat \<Rightarrow> py res" where
  "py_nth v i =
     (case v of
        PyList xs \<Rightarrow> if i < length xs then Inr (xs ! i) else Inl IndexError
      | PyStr s \<Rightarrow> if i < length s then Inr (PyStr [s ! i]) else Inl IndexError
      | PyDict _ \<Rightarrow> Inl KeyError
      | _ \<Rightarrow> Inl TypeError)"

definition py_len :: "py \<Rightarrow> nat res" where
  "py_len v = (case v of PyList xs \<Rightarrow> Inr (length xs) | PyStr s \<Rightarrow> Inr (length s) | PyDict d \<Rightarrow> Inr (length d) | _ \<Rightarrow> Inl TypeError)"

text \<open>\<^verbatim>\<open>v.lower()\<close>, and \<^verbatim>\<open>addr\<close>.\<close>

definition lower_of :: "ucd \<Rightarrow> py \<Rightarrow> ustr res" where
  "lower_of u v = bnd (as_str AttributeError v) (\<lambda>s. Inr (u_lower u s))"

definition rp_addr :: "ucd \<Rightarrow> py \<Rightarrow> ustr res" where
  "rp_addr u v =
     (case v of
        PyStr t \<Rightarrow> Inr (U ''0x'' @ u_lower u (drop (length t - 40) t))
      | PyList _ \<Rightarrow> Inl AttributeError
      | _ \<Rightarrow> Inl TypeError)"

definition rp_AUTH_USED :: ustr where
  "rp_AUTH_USED = U ''0x98de503528ee59b575ef0c0a2576a82497bfc029a5685b209e9ec333479b10a5''"

definition rp_TRANSFER :: ustr where
  "rp_TRANSFER = U ''0xddf252ad1be2c89b69c2b068fc378daa952ba7f163c4a11628f55a4df523b3ef''"

definition of_token :: "ucd \<Rightarrow> ustr \<Rightarrow> py \<Rightarrow> bool res" where
  "of_token u token l = bnd (bnd (py_item l ''address'') (lower_of u)) (\<lambda>a. Inr (a = token))"

definition of_topic :: "ucd \<Rightarrow> ustr \<Rightarrow> py \<Rightarrow> bool res" where
  "of_topic u topic l =
     bnd (py_item l ''topics'') (\<lambda>ts.
     and_r (bnd (bnd (py_nth ts 0) (lower_of u)) (\<lambda>a. Inr (a = topic))) (bnd (py_len ts) (\<lambda>n. Inr (2 < n))))"

text \<open>An argument as text in lower case, and whether a topic of a log is the address it names.\<close>

definition arg_text :: "ucd \<Rightarrow> pydict \<Rightarrow> string \<Rightarrow> ustr" where
  "arg_text u args k = u_lower u (py_str u (dget_default args k (PyStr [])))"

definition topic_is :: "ucd \<Rightarrow> py \<Rightarrow> nat \<Rightarrow> ustr \<Rightarrow> bool res" where
  "topic_is u l i t = bnd (bnd (bnd (py_item l ''topics'') (\<lambda>ts. py_nth ts i)) (rp_addr u)) (\<lambda>a. Inr (a = t))"

definition authorizes :: "ucd \<Rightarrow> pydict \<Rightarrow> py \<Rightarrow> bool res" where
  "authorizes u args l = topic_is u l 1 (arg_text u args ''from'')"

definition transfers :: "ucd \<Rightarrow> pydict \<Rightarrow> py \<Rightarrow> bool res" where
  "transfers u args l =
     and_r (topic_is u l 1 (arg_text u args ''from''))
       (and_r (topic_is u l 2 (arg_text u args ''to''))
          (bnd (bnd (py_item l ''data'') (int16 u)) (\<lambda>n.
           bnd (py_int u (dget_default args ''amount_atomic'' (PyInt (- 1)))) (\<lambda>m. Inr (n = m)))))"

definition carries :: "ucd \<Rightarrow> ustr \<Rightarrow> py \<Rightarrow> bool res" where
  "carries u dref l =
     bnd (bnd (bnd (py_item l ''topics'') (\<lambda>ts. py_nth ts 2)) (lower_of u)) (\<lambda>a.
       Inr (a = U ''0x'' @ u_lower u (drop 7 dref)))"

section \<open>The verdict\<close>

definition rp_key :: "py \<Rightarrow> py \<Rightarrow> ustr res" where
  "rp_key cs V =
     bnd (py_item cs ''class'') (\<lambda>cl.
     bnd (py_item V (if py_eq cl (S ''synthetic'') then ''synthetic_test_pubkey'' else ''real_issuer_pubkey'')) (\<lambda>k.
       if truthy k then as_str AttributeError k else Inr []))"

definition content_of :: "py \<Rightarrow> py" where
  "content_of ev = try_default (bnd (bnd (py_item ev ''content'') (as_str TypeError)) json_loads) (PyDict [])"

definition sha_jcs :: "py \<Rightarrow> ustr res" where
  "sha_jcs v = bnd (bnd (jcs v) sha256_text) (\<lambda>h. Inr (U ''sha256:'' @ h))"

text \<open>The fields of the preimage; a name that is not a string fails in the canonical writer, where the keys are encoded in their order.\<close>

fun encode_keys :: "py list \<Rightarrow> ustr list res" where
  "encode_keys [] = Inr []"
| "encode_keys (k # ks) =
     bnd (as_str AttributeError k) (\<lambda>s. bnd (utf16_be s) (\<lambda>_. bnd (encode_keys ks) (\<lambda>ss. Inr (s # ss))))"

definition preimage_hash :: "pydict \<Rightarrow> py list \<Rightarrow> ustr res" where
  "preimage_hash c ks =
     bnd (encode_keys ks) (\<lambda>ss.
       sha_jcs (PyDict (foldl (\<lambda>d s. dset d s (case map_of c s of None \<Rightarrow> PyNone | Some v \<Rightarrow> v)) [] ss)))"

definition dref_recomputes :: "pydict \<Rightarrow> py \<Rightarrow> bool res" where
  "dref_recomputes c dref =
     bnd (py_iter (py_or (dget c ''decision_ref_preimage_fields'') (PyList []))) (\<lambda>ks.
     if list_ex (\<lambda>k. \<not> hashable k) ks then Inl TypeError
     else if ks = [] then Inr False
     else bnd (preimage_hash c ks) (\<lambda>h. Inr (py_eq dref (PyStr h))))"

definition args_bound :: "pydict \<Rightarrow> py \<Rightarrow> bool res" where
  "args_bound c args = bnd (sha_jcs args) (\<lambda>h. Inr (py_eq (dget c ''action_binding_args_hash'') (PyStr h)))"

section \<open>The evaluation\<close>

datatype missing_edge = EvidenceUnavailable | NotCovered | NotCarried | PolicyNotCommitted | OutsidePolicy

datatype resolution = Authorized | Unauthorized "missing_edge list" | Unresolved "missing_edge list"

record log_reading =
  lr_auth :: "py list"
  lr_tx_ok :: bool
  lr_authz_ok :: bool
  lr_xfer_ok :: bool

definition read_logs :: "ucd \<Rightarrow> pydict \<Rightarrow> py \<Rightarrow> log_reading res" where
  "read_logs u args rc =
     bnd (bnd (py_get_default rc ''logs'' (PyList [])) py_iter) (\<lambda>all.
     bnd (filter_r (of_token u (arg_text u args ''token'')) all) (\<lambda>logs.
     bnd (filter_r (of_topic u rp_AUTH_USED) logs) (\<lambda>ath.
     bnd (filter_r (of_topic u rp_TRANSFER) logs) (\<lambda>xfer.
     bnd (bnd (py_get_default rc ''status'' (S ''0x0'')) (int16 u)) (\<lambda>st.
     bnd (any_r (authorizes u args) ath) (\<lambda>authz_ok.
     bnd (any_r (transfers u args) xfer) (\<lambda>xfer_ok.
       Inr \<lparr> lr_auth = ath, lr_tx_ok = (st = 1), lr_authz_ok = authz_ok, lr_xfer_ok = xfer_ok \<rparr>)))))))"

definition settle_policy :: "pydict \<Rightarrow> pydict \<Rightarrow> bool \<Rightarrow> resolution" where
  "settle_policy c args carried =
     (let reasons = (if carried then [] else [NotCarried]) in
      case dget args ''proceed_on'' of
        PyList on \<Rightarrow>
          if carried \<and> \<not> py_in (dget c ''verdict'') on then Unauthorized [OutsidePolicy]
          else if reasons = [] then Authorized else Unresolved reasons
      | _ \<Rightarrow> Unresolved (PolicyNotCommitted # reasons))"

definition evaluate :: "ucd \<Rightarrow> py \<Rightarrow> py \<Rightarrow> resolution res" where
  "evaluate u cs V =
     bnd (py_item cs ''receipt'') (\<lambda>rc.
     bnd (py_item cs ''args'') (\<lambda>av.
     bnd (py_item cs ''verdict_event'') (\<lambda>ev.
     if rc = PyNone then Inr (Unresolved [EvidenceUnavailable])
     else
       bnd (rp_key cs V) (\<lambda>key.
       let proof_ok = pr_valid (verify_proof u ev key) in
       bnd (case content_of ev of PyDict c \<Rightarrow> Inr c | _ \<Rightarrow> Inl AttributeError) (\<lambda>c.
       let dref = py_or (dget c ''decision_ref'') (PyStr []) in
       bnd (dref_recomputes c dref) (\<lambda>dref_ok.
       bnd (args_bound c av) (\<lambda>args_ok.
       bnd (case av of PyDict a \<Rightarrow> Inr a | _ \<Rightarrow> Inl AttributeError) (\<lambda>args.
       bnd (read_logs u args rc) (\<lambda>lr.
       if \<not> (proof_ok \<and> dref_ok \<and> args_ok \<and> lr_tx_ok lr \<and> lr_authz_ok lr \<and> lr_xfer_ok lr) then Inr (Unresolved [NotCovered])
       else
         bnd (bnd (as_str AttributeError dref) (\<lambda>d. and_r (Inr (startswith d (U ''sha256:''))) (any_r (carries u d) (lr_auth lr)))) (\<lambda>carried.
           Inr (settle_policy c args carried)))))))))))"

section \<open>What authorizes a payment\<close>

text \<open>The receipt shows that the transaction succeeded, that the payer authorized it and that the amount moved; \<open>ath\<close> are its authorizations.\<close>

definition shows_payment :: "ucd \<Rightarrow> pydict \<Rightarrow> py \<Rightarrow> py list \<Rightarrow> bool" where
  "shows_payment u args rc ath \<longleftrightarrow>
     (\<exists>all logs xfer. bnd (py_get_default rc ''logs'' (PyList [])) py_iter = Inr all \<and> filter_r (of_token u (arg_text u args ''token'')) all = Inr logs \<and>
        filter_r (of_topic u rp_AUTH_USED) logs = Inr ath \<and> filter_r (of_topic u rp_TRANSFER) logs = Inr xfer \<and>
        bnd (py_get_default rc ''status'' (S ''0x0'')) (int16 u) = Inr 1 \<and>
        any_r (authorizes u args) ath = Inr True \<and> any_r (transfers u args) xfer = Inr True)"

text \<open>The verdict is a valid proof of the issuer, its decision reference recomputes, and it is bound to the arguments.\<close>

definition verdict_bound :: "ucd \<Rightarrow> py \<Rightarrow> py \<Rightarrow> pydict \<Rightarrow> pydict \<Rightarrow> ustr \<Rightarrow> bool" where
  "verdict_bound u cs V args c d \<longleftrightarrow>
     (\<exists>ev key. py_item cs ''args'' = Inr (PyDict args) \<and> py_item cs ''verdict_event'' = Inr ev \<and> rp_key cs V = Inr key \<and>
        pr_valid (verify_proof u ev key) \<and> content_of ev = PyDict c \<and> py_or (dget c ''decision_ref'') (PyStr []) = PyStr d \<and>
        dref_recomputes c (PyStr d) = Inr True \<and> args_bound c (PyDict args) = Inr True)"

definition covers :: "ucd \<Rightarrow> py \<Rightarrow> py \<Rightarrow> pydict \<Rightarrow> pydict \<Rightarrow> ustr \<Rightarrow> py list \<Rightarrow> bool" where
  "covers u cs V args c d ath \<longleftrightarrow>
     (\<exists>rc. py_item cs ''receipt'' = Inr rc \<and> rc \<noteq> PyNone \<and> verdict_bound u cs V args c d \<and> shows_payment u args rc ath)"

definition carried_by :: "ucd \<Rightarrow> ustr \<Rightarrow> py list \<Rightarrow> bool" where
  "carried_by u d ath \<longleftrightarrow> startswith d (U ''sha256:'') \<and> any_r (carries u d) ath = Inr True"

definition permitted :: "pydict \<Rightarrow> pydict \<Rightarrow> bool" where
  "permitted args c \<longleftrightarrow> (case dget args ''proceed_on'' of PyList on \<Rightarrow> py_in (dget c ''verdict'') on | _ \<Rightarrow> False)"

lemma read_logs_iff:
  "(\<exists>lr. read_logs u args rc = Inr lr \<and> lr_tx_ok lr \<and> lr_authz_ok lr \<and> lr_xfer_ok lr \<and> lr_auth lr = ath) \<longleftrightarrow> shows_payment u args rc ath"
proof
  assume "shows_payment u args rc ath"
  then obtain all logs xfer where h: "bnd (py_get_default rc ''logs'' (PyList [])) py_iter = Inr all" "filter_r (of_token u (arg_text u args ''token'')) all = Inr logs"
    "filter_r (of_topic u rp_AUTH_USED) logs = Inr ath" "filter_r (of_topic u rp_TRANSFER) logs = Inr xfer"
    "bnd (py_get_default rc ''status'' (S ''0x0'')) (int16 u) = Inr 1" "any_r (authorizes u args) ath = Inr True" "any_r (transfers u args) xfer = Inr True"
    unfolding shows_payment_def by blast
  show "\<exists>lr. read_logs u args rc = Inr lr \<and> lr_tx_ok lr \<and> lr_authz_ok lr \<and> lr_xfer_ok lr \<and> lr_auth lr = ath"
    unfolding read_logs_def h bnd_Inr by simp
qed (auto simp: read_logs_def shows_payment_def simp del: filter_r.simps any_r.simps)

lemma dref_text: "dref_recomputes c v = Inr True \<Longrightarrow> \<exists>d. v = PyStr d"
  by (auto simp: dref_recomputes_def py_eq_Str_right split: if_splits)

lemma settle_authorized: "settle_policy c args b = Authorized \<longleftrightarrow> b \<and> permitted args c"
  by (auto simp: settle_policy_def permitted_def Let_def split: py.splits)

text \<open>C24. A payment is reported authorized exactly when all three edges hold: the verdict covers it, it carries the verdict's decision reference as
  the nonce of an authorization, and the policy bound with the arguments permits the verdict.\<close>

theorem payment_authorized_iff:
  "evaluate u cs V = Inr Authorized \<longleftrightarrow> (\<exists>args c d ath. covers u cs V args c d ath \<and> carried_by u d ath \<and> permitted args c)"
proof
  assume "evaluate u cs V = Inr Authorized"
  then obtain rc av ev key c args lr b where e: "py_item cs ''receipt'' = Inr rc" "py_item cs ''args'' = Inr av" "py_item cs ''verdict_event'' = Inr ev"
    "rc \<noteq> PyNone" "rp_key cs V = Inr key" "content_of ev = PyDict c" "dref_recomputes c (py_or (dget c ''decision_ref'') (PyStr [])) = Inr True"
    "args_bound c av = Inr True" "av = PyDict args" "read_logs u args rc = Inr lr" "pr_valid (verify_proof u ev key)"
    "lr_tx_ok lr" "lr_authz_ok lr" "lr_xfer_ok lr"
    and b: "bnd (as_str AttributeError (py_or (dget c ''decision_ref'') (PyStr []))) (\<lambda>d. and_r (Inr (startswith d (U ''sha256:''))) (any_r (carries u d) (lr_auth lr))) = Inr b"
    and s: "settle_policy c args b = Authorized"
    unfolding evaluate_def Let_def by (auto split: if_splits py.splits)
  from dref_text [OF e(7)] obtain d where d: "py_or (dget c ''decision_ref'') (PyStr []) = PyStr d" by blast
  have p: "b" "permitted args c" using s by (simp_all add: settle_authorized)
  have "verdict_bound u cs V args c d" unfolding verdict_bound_def using e d by auto
  moreover have "shows_payment u args rc (lr_auth lr)" using read_logs_iff e(10,12,13,14) by blast
  ultimately have "covers u cs V args c d (lr_auth lr)" unfolding covers_def using e(1,4) by blast
  moreover have "carried_by u d (lr_auth lr)" using b p(1) unfolding d carried_by_def by (auto simp: and_r_def as_str_def split: if_splits)
  ultimately show "\<exists>args c d ath. covers u cs V args c d ath \<and> carried_by u d ath \<and> permitted args c" using p(2) by blast
next
  assume "\<exists>args c d ath. covers u cs V args c d ath \<and> carried_by u d ath \<and> permitted args c"
  then obtain args c d ath rc ev key where e: "py_item cs ''receipt'' = Inr rc" "rc \<noteq> PyNone" "shows_payment u args rc ath"
    "py_item cs ''args'' = Inr (PyDict args)" "py_item cs ''verdict_event'' = Inr ev" "rp_key cs V = Inr key" "pr_valid (verify_proof u ev key)"
    "content_of ev = PyDict c" "py_or (dget c ''decision_ref'') (PyStr []) = PyStr d" "dref_recomputes c (PyStr d) = Inr True"
    "args_bound c (PyDict args) = Inr True" and k: "carried_by u d ath" "permitted args c"
    unfolding covers_def verdict_bound_def by blast
  obtain lr where lr: "read_logs u args rc = Inr lr" "lr_tx_ok lr" "lr_authz_ok lr" "lr_xfer_ok lr" "lr_auth lr = ath"
    using e(3) read_logs_iff by blast
  have s: "settle_policy c args True = Authorized" using k(2) by (simp add: settle_authorized)
  show "evaluate u cs V = Inr Authorized"
    using e(2,7) lr k(1) s unfolding evaluate_def e(1,4,5,6,8) Let_def bnd_Inr py.case e(9,10,11) carried_by_def
    by (simp add: as_str_def)
qed

text \<open>The authorization of the payer and the one that carries the verdict may be two: neither of these logs does both.\<close>

definition sample_log :: "string \<Rightarrow> string \<Rightarrow> py" where
  "sample_log a n = PyDict [(U ''topics'', PyList [PyStr rp_AUTH_USED, S a, S n])]"

lemma carried_by_other_authorization:
  "let args = [(U ''from'', S ''0xaa'')]; d = U ''sha256:01''; own = sample_log ''aa'' ''0xff''; other = sample_log ''bb'' ''0x01'' in
     any_r (authorizes sample_ucd args) [own, other] = Inr True \<and> carried_by sample_ucd d [own, other] \<and>
     list_all (\<lambda>l. and_r (authorizes sample_ucd args l) (carries sample_ucd d l) = Inr False) [own, other]"
  by code_simp

end
