(* ===== verification/ScanBinding.thy ===== *)
theory ScanBinding
  imports Merkle Resolution
begin

text \<open>
  \<^verbatim>\<open>examples/scan-subject-binding/check.py\<close>: what a scan report says about the documents a decision consumed. The corpus is a Merkle tree in the
  shape of RFC 9162, which is interpreted as a binding tree, and inclusion proofs are checked by the index of the leaf. The signature is
  checked by a third-party package: whether it verifies is an argument. The comparison with the vectors and the wrong verifiers the
  script can be run as are left out.
\<close>

section \<open>Documents and trees\<close>














section \<open>Inclusion\<close>







section \<open>Retrieval\<close>









section \<open>The two verifiers\<close>



definition scan_part :: "py \<Rightarrow> string \<Rightarrow> py res" where
  "scan_part man k = bnd (bnd (py_item man ''body'') (\<lambda>b. py_item b ''rag_corpus'')) (\<lambda>c. py_item c k)"


datatype replay_failure = BadSignature | ManifestRoot | DecisionRoot | RetrievalDiffers | EffectiveDigest | AnswerDiffers

definition fails_if :: "bool \<Rightarrow> replay_failure \<Rightarrow> replay_failure list" where
  "fails_if b f = (if b then [f] else [])"


definition result_only :: "py \<Rightarrow> bool res" where
  "result_only man = bnd (bnd (scan_part man ''poisoning_scan'') (\<lambda>s. py_item s ''result'')) (\<lambda>v. Inr (py_eq v (S ''clean'')))"








section \<open>The tree of a corpus\<close>








section \<open>What an inclusion proof shows\<close>






section \<open>What a report without a finding reaches\<close>

lemma fails_if_Nil [simp]: "fails_if b f = [] \<longleftrightarrow> \<not> b"
  by (simp add: fails_if_def)















end
