(* ===== verification/Spec2Isabelle.thy ===== *)
theory Spec2Isabelle
  imports Verifier Chains ProofChain Acceptance LiveRun Submission Receipt Sequence Procedure War Approval Mandate Composed Attestation ScanBinding
begin

text \<open>
  \<^bold>\<open>Verification of the pre-action governance conformance suite.\<close>

  The repository publishes evidence formats for actions that were governed before they were taken, and checkers that recompute every
  verdict from the evidence alone. Its parts, the theories that model them and what is proved:

  \<^bold>\<open>Python.\<close> \<open>Prelude\<close>, \<open>PyText\<close>, \<open>PyVal\<close>, \<open>Json\<close> and \<open>Sha2\<close> hold what the source uses of the language: exceptions as values of \<open>exn\<close>, text as code
  points with UTF-8, UTF-16, hexadecimal and base64, JSON values with the equality, truth and order of Python, \<^verbatim>\<open>json.loads\<close> and
  \<^verbatim>\<open>json.dumps\<close>, and SHA-256 and SHA-512 computed. The Unicode database (\<^verbatim>\<open>str.lower\<close>, white space, printable characters, decimal digits) is a
  record \<open>ucd\<close>, with \<open>ucd_ascii\<close> as the documented behaviour on ASCII. \<open>json.loads\<close> runs on fuel, twice the length of the text and two, and \<open>json_loads_fuel\<close>
  shows that this is enough.

  \<^bold>\<open>Commitments.\<close> \<open>Commit\<close> states collisions as values and the interfaces \<open>committed\<close> (an encoder that determines its value) and \<open>hash_chain\<close> (a chain in
  which a head commits to its history); \<open>Merkle\<close> states the interface of a binding tree. The event serialisation, the chains, the statement
  log, the evidence sets and the sequence log are interpretations, and their binding properties are the locales' lemmas on the model's own encodings.

  \<^bold>\<open>Core.\<close> \<open>Bip340\<close> models \<^verbatim>\<open>_bip340_nostr.py\<close>: a proof is valid exactly when it is authentic. \<open>Verifier\<close> models \<^verbatim>\<open>verifier.py\<close> and \<^verbatim>\<open>run_conformance.py\<close>:
  a fixture passes exactly when it is governed, and the conformance bar asks for one broken join with its declared code.

  \<^bold>\<open>Tools.\<close> \<open>Ed25519\<close> (\<^verbatim>\<open>tools/_ed25519.py\<close>), \<open>Jcs\<close> (\<^verbatim>\<open>tools/_rfc8785.py\<close>), \<open>EvidenceSet\<close> (\<^verbatim>\<open>tools/evidence_set_check.py\<close>), \<open>Chains\<close>
  (\<^verbatim>\<open>tools/session_chain_check.py\<close> and \<^verbatim>\<open>examples/ledger-chain-continuity\<close>), \<open>Report\<close> and \<open>Markers\<close> (\<^verbatim>\<open>tools/issuer_profile.py\<close>,
  \<^verbatim>\<open>vantage_limitation_check.py\<close>, \<^verbatim>\<open>related_claims_check.py\<close>), \<open>ProofChain\<close> (\<^verbatim>\<open>proof_chain_check.py\<close>), \<open>Acceptance\<close> (\<^verbatim>\<open>acceptance_record_check.py\<close>) and \<open>Submission\<close>
  (\<^verbatim>\<open>verify_submission_commitment.py\<close>, \<^verbatim>\<open>issuer_run_check.py\<close>). A checker's lines are \<open>(status, label)\<close> pairs with the exit code \<open>exit_of\<close>; its theorem says
  what exactly it accepts.

  \<^bold>\<open>Live endpoints.\<close> \<open>LiveCheck\<close> and \<open>LiveRun\<close> model \<^verbatim>\<open>adapters/live_check.py\<close>: the HTTP transport, the files, the nonce and PyNaCl are fields of a record
  \<open>world\<close>. An endpoint passes exactly when the governance contract holds of its response on all five axes.

  \<^bold>\<open>Examples.\<close> \<open>Receipt\<close> (\<^verbatim>\<open>examples/x402-receipt-authorization-commitment\<close>: Keccak, secp256k1 recovery, EIP-712, the link), \<open>Sequence\<close>
  (\<^verbatim>\<open>examples/sequence-integrity-recompute\<close>: a log under two signed heads), \<open>Procedure\<close> (\<^verbatim>\<open>examples/procedure-manifest-v003\<close>: eligibility of a run),
  \<open>WarToken\<close> and \<open>War\<close> (\<^verbatim>\<open>examples/work-acceptance-record-cold\<close> and the Ed25519 reference of \<^verbatim>\<open>examples/x402-receipt-private-opening\<close>), \<open>Approval\<close>
  (\<^verbatim>\<open>examples/musubi-approver-v2\<close>: a third party's approval under a contract), \<open>Nenrin\<close> (\<^verbatim>\<open>examples/nenrin-cleanroom-verifier\<close>: six steps over a
  bundle of records that pass on one report; accepted exactly when every step finds nothing to refuse, and the codes of a report are
  those of the procedure), \<open>Composed\<close> (\<^verbatim>\<open>examples/composed-envelope-recompute\<close>: what an envelope that passes is, and how its Ed25519 differs from that of
  the tools; \<^verbatim>\<open>examples/composed-decision-chain-recompute\<close>: forks are reported, and a verdict is what its controls decide), \<open>Attestation\<close>
  (\<^verbatim>\<open>examples/erc-8337-attestation-refs\<close>: when the canonical list is independent of the input's order, and what makes an entry authorized), \<open>Resolution\<close>
  (\<^verbatim>\<open>examples/resolution-payment-pair-v0\<close>: a payment is authorized exactly when its three edges hold) and \<open>ScanBinding\<close>
  (\<^verbatim>\<open>examples/scan-subject-binding\<close>: the RFC 9162 tree as an interpretation of the binding tree, and what a report without a finding reaches).

  \<^bold>\<open>Payments.\<close> Four components on one payment authorization, each calling the ones before it. \<open>Payments\<close> (\<^verbatim>\<open>examples/x402-payment-fingerprint\<close> and
  \<^verbatim>\<open>commitment.py\<close>): a fingerprint joins two copies of a payment and nothing else, and the holder's commitment is the one \<open>Receipt\<close> recomputes
  (\<open>commitments_agree\<close>). \<open>PrivateOpening\<close> (\<^verbatim>\<open>statement.py\<close>): findings, signed statements, their log, which is an interpretation of \<open>hash_chain\<close>, and
  challenges. \<open>Mandate\<close> (\<^verbatim>\<open>examples/x402-receipt-ap2-mandate\<close>): what a settled consent rests on, from the issuer's signature to the transfer.

  \<^bold>\<open>State and operations.\<close> The checkers read and report: their state is what a loop carries (a previous head, a stack, the lines so far), which is an
  argument of the recursive function that models the loop. An operation of the source is one definition with its guards in the source's order;
  the parts of a long function are definitions of their own, composed as the source composes them. An \<^verbatim>\<open>except\<close> clause is a case on the exception.

  \<^bold>\<open>Loops.\<close> Loops over lists are structural recursion or \<open>map_r\<close>. Merkle levels, \<open>int\<close> halving, UTF-8 decoding and DER elements are functions with a
  measure. The search of a time-stamp token has fuel, the number of its bytes and one more, proved enough (\<open>find_tstinfo_terminates\<close>). The
  RFC 6979 loop may run for ever and is a \<open>partial_function\<close>: not returning is \<open>None\<close>.

  \<^bold>\<open>Below\<close> the properties that span components: the canonical writers that the checkers carry agree.

  \<^bold>\<open>Not modelled.\<close> Printing, argument parsing, directory listings and file access (files are arguments); \<^verbatim>\<open>examples/work-acceptance-record-cold/tsa_sig.py\<close>,
  which rests on the \<^verbatim>\<open>cryptography\<close> package (its result is an argument of \<open>War\<close>); \<^verbatim>\<open>tools/broadcast_byte_diff.py\<close>, which compares live network
  answers; the generators of fixtures and vectors, which only write the inputs of the checkers; test scripts, the JavaScript verifiers and
  the remaining examples.
\<close>

section \<open>One canonical form\<close>

text \<open>C14. The canonical writers of the program agree: on values of safe integers without floats whose keys lie in the basic plane, the RFC 8785 writer of
  the tools, those of the sequence check, the work-acceptance check, the composed envelope and the attestation references, and the sorted
  \<^verbatim>\<open>json.dumps\<close> of the submission, procedure and live checkers, all give the same bytes, so a digest computed by one is the digest computed by the others.\<close>

theorem canonicalisers_agree:
  assumes "jcs_plain v" "bmp_keys v"
  shows "bnd (jcs v) utf8 = war_jcs v \<and> seq_bytes v = war_jcs v \<and> sub_canon v = war_jcs v \<and> pm_canon v = war_jcs v \<and> live_jcs v = war_jcs v \<and>
     bnd (ce_jcs v) utf8 = war_jcs v \<and> utf8 (ar_jcs v) = war_jcs v"
  using assms
  by (simp add: war_jcs_def war_enc_jcs seq_bytes_def seq_jcs_jcs jcs_dumps_sorted sub_canon_def pm_canon_def live_jcs_def ce_jcs_plain ar_jcs_dumps)

theorem canonicalisers_agree_witness:
  "seq_bytes (PyDict [(U ''b'', PyInt 2), (U ''a'', PyList [PyStr (U ''x''), PyNone])]) =
   pm_canon (PyDict [(U ''b'', PyInt 2), (U ''a'', PyList [PyStr (U ''x''), PyNone])])"
proof -
  let ?v = "PyDict [(U ''b'', PyInt 2), (U ''a'', PyList [PyStr (U ''x''), PyNone])]"
  have "jcs_plain ?v" "bmp_keys ?v" by (simp_all add: scalar_str_def is_scalar_def U_def is_surrogate_def)
  from canonicalisers_agree [OF this] show ?thesis by simp
qed

end
